(* ===== verification/GoTime.thy ===== *)
theory GoTime
  imports Prelude
begin

text \<open>
  The part of Go's \<open>time\<close> package the controller uses. A \<open>time.Time\<close> is its instant, in nanoseconds
  since the Unix epoch (an unbounded \<open>int\<close>; the zero \<open>time.Time\<close> is 1 January of year 1, UTC); a
  \<open>time.Duration\<close> is an \<open>int64\<close> count of nanoseconds, with the saturation of \<open>Time.Sub\<close> written out.
  A \<open>*time.Location\<close> is its name and its zone lookup; the IANA database behind \<open>LoadLocation\<close> is a
  parameter of the theories that call it.
\<close>

type_synonym time = int
type_synonym duration = int

section \<open>Instants and durations\<close>

definition Nanosecond :: duration where "Nanosecond = 1"
definition Second :: duration where "Second = 1000000000"
definition Minute :: duration where "Minute = 60 * Second"
definition Hour :: duration where "Hour = 60 * Minute"

lemmas duration_units = Nanosecond_def Second_def Minute_def Hour_def

definition minDuration :: duration where "minDuration = - (2 ^ 63)"
definition maxDuration :: duration where "maxDuration = 2 ^ 63 - 1"

definition time_Add :: "time \<Rightarrow> duration \<Rightarrow> time" where
  "time_Add t d = t + d"

definition time_Sub :: "time \<Rightarrow> time \<Rightarrow> duration" where
  "time_Sub t u = (if t - u > maxDuration then maxDuration
                   else if t - u < minDuration then minDuration else t - u)"

definition time_Before :: "time \<Rightarrow> time \<Rightarrow> bool" where
  "time_Before t u \<longleftrightarrow> t < u"

definition time_After :: "time \<Rightarrow> time \<Rightarrow> bool" where
  "time_After t u \<longleftrightarrow> t > u"

definition zero_time :: time where
  "zero_time = -62135596800 * 1000000000"

definition time_IsZero :: "time \<Rightarrow> bool" where
  "time_IsZero t \<longleftrightarrow> t = zero_time"

text \<open>Negating an int64 duration; the least one has no negative.\<close>

definition dur_neg :: "duration \<Rightarrow> duration" where
  "dur_neg d = i64 (- d)"

lemma dur_neg_exact: "minDuration < d \<Longrightarrow> d \<le> maxDuration \<Longrightarrow> dur_neg d = - d"
  by (simp add: dur_neg_def in_i64_def minDuration_def maxDuration_def)

lemma dur_neg_nonneg [simp]: "0 \<le> d \<Longrightarrow> d \<le> maxDuration \<Longrightarrow> dur_neg d = - d"
  by (rule dur_neg_exact) (simp_all add: minDuration_def)

lemmas time_simps [simp] = time_Add_def time_Before_def time_After_def

text \<open>\<open>Time.Sub\<close> saturates, and agrees with exact subtraction against any bound that is a duration.\<close>

lemma time_Sub_range: "minDuration \<le> time_Sub t u \<and> time_Sub t u \<le> maxDuration"
  by (simp add: time_Sub_def minDuration_def maxDuration_def)

lemma time_Sub_ge_iff:
  "minDuration < d \<Longrightarrow> d \<le> maxDuration \<Longrightarrow> time_Sub t u \<ge> d \<longleftrightarrow> t - u \<ge> d"
  by (auto simp: time_Sub_def)

lemma time_Sub_less_iff:
  "minDuration < d \<Longrightarrow> d \<le> maxDuration \<Longrightarrow> time_Sub t u < d \<longleftrightarrow> t - u < d"
  using time_Sub_ge_iff [of d t u] by linarith

lemma time_Sub_exact: "minDuration \<le> t - u \<Longrightarrow> t - u \<le> maxDuration \<Longrightarrow> time_Sub t u = t - u"
  by (simp add: time_Sub_def)

lemma time_Sub_self [simp]: "time_Sub t t = 0"
  by (simp add: time_Sub_def minDuration_def maxDuration_def)

section \<open>The proleptic Gregorian calendar\<close>

text \<open>
  Days since 1 January 1970 and civil dates. The year is counted from March, so that the leap day is
  the last of its year; a 400-year era is 146097 days, a century 36524, four years 1461.
\<close>

definition march_year_day :: "int \<Rightarrow> int \<Rightarrow> int" where
  "march_year_day y doy = (y div 400) * 146097 +
     ((y mod 400) * 365 + (y mod 400) div 4 - (y mod 400) div 100) + doy - 719468"

definition day_of_civil :: "int \<Rightarrow> int \<Rightarrow> int \<Rightarrow> int" where
  "day_of_civil y m d =
     march_year_day (if m \<le> 2 then y - 1 else y)
       ((153 * (if m > 2 then m - 3 else m + 9) + 2) div 5 + d - 1)"

definition era_split :: "int \<Rightarrow> int \<times> int" where
  "era_split doe =
     (let n100 = min (doe div 36524) 3; r = doe - 36524 * n100;
          n4 = r div 1461; q = r mod 1461;
          n1 = min (q div 365) 3
      in (100 * n100 + 4 * n4 + n1, q - 365 * n1))"

definition civil_of_day :: "int \<Rightarrow> int \<times> int \<times> int" where
  "civil_of_day z =
     (let era = (z + 719468) div 146097; (yoe, doy) = era_split ((z + 719468) mod 146097);
          mp = (5 * doy + 2) div 153;
          m = (if mp < 10 then mp + 3 else mp - 9);
          y = yoe + era * 400
      in ((if m \<le> 2 then y + 1 else y), m, doy - (153 * mp + 2) div 5 + 1))"

lemma era_split_bounds:
  assumes "0 \<le> doe" and "doe < 146097" and "era_split doe = (yoe, doy)"
  shows "0 \<le> yoe \<and> yoe < 400 \<and> 0 \<le> doy \<and> doy \<le> 365 \<and>
         yoe * 365 + yoe div 4 - yoe div 100 + doy = doe"
proof -
  define a where "a = min (doe div 36524) 3"
  define r where "r = doe - 36524 * a"
  define b where "b = r div 1461"
  define q where "q = r mod 1461"
  define c where "c = min (q div 365) 3"
  have y: "yoe = 100 * a + 4 * b + c" and d: "doy = q - 365 * c"
    using assms(3) by (simp_all add: era_split_def Let_def a_def r_def b_def q_def c_def)
  have a: "0 \<le> a" "a \<le> 3" using assms(1) by (simp_all add: a_def)
  have r: "0 \<le> r" "r \<le> 36524"
    using assms(1,2) unfolding r_def a_def by (auto simp: min_def)
  have rb: "r = 1461 * b + q" by (simp add: b_def q_def)
  have q: "0 \<le> q" "q < 1461" by (simp_all add: q_def)
  have b: "0 \<le> b" "b \<le> 24" using r by (simp_all add: b_def) 
  have c: "0 \<le> c" "c \<le> 3" using q by (simp_all add: c_def)
  have doy: "0 \<le> doy" "doy \<le> 365" using q unfolding d c_def by (auto simp: min_def)
  have y4: "yoe div 4 = 25 * a + b" using c unfolding y by linarith
  have y100: "yoe div 100 = a" using b c unfolding y by linarith
  show ?thesis using a b c doy rb d y y4 y100 by (simp add: r_def)
qed

text \<open>The calendar conversion is exact: a day number survives the trip through its civil date.\<close>

lemma day_of_civil_of_day:
  assumes "civil_of_day z = (y, m, d)"
  shows "day_of_civil y m d = z \<and> 1 \<le> m \<and> m \<le> 12 \<and> 1 \<le> d \<and> d \<le> 31"
proof -
  define era where "era = (z + 719468) div 146097"
  define doe where "doe = (z + 719468) mod 146097"
  obtain yoe doy where sp: "era_split doe = (yoe, doy)" by (cases "era_split doe")
  have doe: "0 \<le> doe" "doe < 146097" by (simp_all add: doe_def)
  note sb = era_split_bounds [OF doe sp]
  define mp where "mp = (5 * doy + 2) div 153"
  have doy: "0 \<le> doy" "doy \<le> 365" using sb by simp_all
  then have mp: "0 \<le> mp" "mp \<le> 11" unfolding mp_def by linarith+
  have dd: "0 \<le> doy - (153 * mp + 2) div 5" "doy - (153 * mp + 2) div 5 \<le> 30"
    unfolding mp_def using doy by linarith+
  define yy where "yy = yoe + era * 400"
  have yd: "yy div 400 = era" "yy mod 400 = yoe" using sb by (simp_all add: yy_def)
  have eq: "y = (if mp < 10 then yy else yy + 1)" "m = (if mp < 10 then mp + 3 else mp - 9)"
    "d = doy - (153 * mp + 2) div 5 + 1"
    using assms mp unfolding civil_of_day_def Let_def era_def [symmetric] doe_def [symmetric] sp
    by (auto simp: mp_def [symmetric] yy_def split: if_splits)
  have z: "era * 146097 + doe - 719468 = z"
    using div_mult_mod_eq [of "z + 719468" 146097] by (simp add: era_def doe_def)
  have "day_of_civil y m d = march_year_day yy doy"
    using mp by (auto simp: day_of_civil_def eq algebra_simps)
  also have "\<dots> = z" using sb z by (simp add: march_year_day_def yd)
  finally show ?thesis using eq mp dd by auto
qed

text \<open>A day offset moves the day number by the same amount, whatever the month's length.\<close>

lemma day_of_civil_add: "day_of_civil y m (d + k) = day_of_civil y m d + k"
  by (simp add: day_of_civil_def march_year_day_def)

section \<open>Weekdays\<close>

datatype weekday = Sunday | Monday | Tuesday | Wednesday | Thursday | Friday | Saturday

text \<open>\<open>time.Weekday\<close> is an \<open>int\<close>, Sunday being 0; the library's order and enumeration follow it.\<close>

fun wd_int :: "weekday \<Rightarrow> int" where
  "wd_int Sunday = 0" | "wd_int Monday = 1" | "wd_int Tuesday = 2" | "wd_int Wednesday = 3"
| "wd_int Thursday = 4" | "wd_int Friday = 5" | "wd_int Saturday = 6"

definition wd_of_int :: "int \<Rightarrow> weekday" where
  "wd_of_int n = (let k = n mod 7 in
     if k = 0 then Sunday else if k = 1 then Monday else if k = 2 then Tuesday
     else if k = 3 then Wednesday else if k = 4 then Thursday else if k = 5 then Friday
     else Saturday)"

lemma wd_int_range: "0 \<le> wd_int w \<and> wd_int w < 7"
  by (cases w) auto

lemma wd_of_int_of_wd [simp]: "wd_of_int (wd_int w) = w"
  by (cases w) (simp_all add: wd_of_int_def)

lemma wd_int_of_int [simp]: "wd_int (wd_of_int n) = n mod 7"
proof -
  have "n mod 7 \<in> {0, 1, 2, 3, 4, 5, 6}"
    using pos_mod_bound [of 7 n] pos_mod_sign [of 7 n] by auto
  then show ?thesis by (auto simp: wd_of_int_def Let_def)
qed

lemma wd_of_int_mod: "wd_of_int (n mod 7) = wd_of_int n"
  by (simp add: wd_of_int_def)

lemma wd_int_inj: "wd_int v = wd_int w \<Longrightarrow> v = w"
  by (metis wd_of_int_of_wd)

instantiation weekday :: linorder
begin

definition less_eq_weekday :: "weekday \<Rightarrow> weekday \<Rightarrow> bool" where
  "v \<le> w \<longleftrightarrow> wd_int v \<le> wd_int w"

definition less_weekday :: "weekday \<Rightarrow> weekday \<Rightarrow> bool" where
  "v < w \<longleftrightarrow> wd_int v < wd_int w"

instance
  by standard (auto simp: less_eq_weekday_def less_weekday_def intro: wd_int_inj)

end

section \<open>Locations and local time\<close>

text \<open>
  \<open>Location.lookup\<close>: for an instant in Unix seconds, the offset east of UTC in seconds and the
  interval \<open>[start, end)\<close> of instants for which this offset is in use.
\<close>

record location =
  loc_name :: string
  loc_lookup :: "int \<Rightarrow> int \<times> int \<times> int"

definition loc_UTC :: location where
  "loc_UTC = \<lparr>loc_name = ''UTC'', loc_lookup = (\<lambda>_. (0, - (2 ^ 63), 2 ^ 63 - 1))\<rparr>"

definition loc_offset :: "location \<Rightarrow> int \<Rightarrow> int" where
  "loc_offset l u = fst (loc_lookup l u)"

definition unix_sec :: "time \<Rightarrow> int" where
  "unix_sec t = t div 1000000000"

definition unix_nsec :: "time \<Rightarrow> int" where
  "unix_nsec t = t mod 1000000000"

text \<open>Seconds of local wall-clock time, its day number, and the fields the code reads.\<close>

definition local_sec :: "location \<Rightarrow> time \<Rightarrow> int" where
  "local_sec l t = unix_sec t + loc_offset l (unix_sec t)"

definition local_day :: "location \<Rightarrow> time \<Rightarrow> int" where
  "local_day l t = local_sec l t div 86400"

definition time_Date :: "location \<Rightarrow> time \<Rightarrow> int \<times> int \<times> int" where
  "time_Date l t = civil_of_day (local_day l t)"

definition time_Weekday :: "location \<Rightarrow> time \<Rightarrow> weekday" where
  "time_Weekday l t = wd_of_int (local_day l t + 4)"

definition time_Hour :: "location \<Rightarrow> time \<Rightarrow> int" where
  "time_Hour l t = (local_sec l t mod 86400) div 3600"

definition time_Minute :: "location \<Rightarrow> time \<Rightarrow> int" where
  "time_Minute l t = (local_sec l t mod 3600) div 60"

definition time_Second :: "location \<Rightarrow> time \<Rightarrow> int" where
  "time_Second l t = local_sec l t mod 60"

lemma sec_split:
  fixes s :: int
  shows "s div 60 = s div 3600 * 60 + s mod 3600 div 60"
proof -
  have eq: "s mod 3600 + (s div 3600 * 60) * 60 = s" by simp
  have "(s mod 3600 + (s div 3600 * 60) * 60) div 60 = s div 3600 * 60 + s mod 3600 div 60"
    by (rule div_mult_self1) simp
  then show ?thesis by (simp only: eq)
qed

lemma minute_of_day:
  "time_Hour l t * 60 + time_Minute l t = (local_sec l t mod 86400) div 60"
proof -
  define s where "s = local_sec l t mod 86400"
  have "local_sec l t mod 3600 = s mod 3600" by (simp add: s_def mod_mod_cancel)
  moreover have "(s div 3600) * 60 + (s mod 3600) div 60 = s div 60" using sec_split [of s] by simp
  ultimately show ?thesis by (simp add: time_Hour_def time_Minute_def s_def)
qed

text \<open>
  \<open>time.Date\<close>: the instant of a wall-clock time. The offset in use at the wall-clock seconds read as
  UTC is tried first; if the resulting instant lies outside that zone's interval, the offset in use
  at that instant is taken instead.
\<close>

definition resolve_local :: "location \<Rightarrow> int \<Rightarrow> int" where
  "resolve_local l ls = (case loc_lookup l ls of (off, st, en) \<Rightarrow>
     if off = 0 then ls
     else if ls - off < st \<or> ls - off \<ge> en then ls - loc_offset l (ls - off)
     else ls - off)"

definition date_time :: "int \<Rightarrow> int \<Rightarrow> int \<Rightarrow> int \<Rightarrow> int \<Rightarrow> int \<Rightarrow> int \<Rightarrow> location \<Rightarrow> time" where
  "date_time y mo d h mi s ns l =
     resolve_local l (day_of_civil y mo d * 86400 + h * 3600 + mi * 60 + s) * 1000000000 + ns"

definition time_AddDate_days :: "location \<Rightarrow> time \<Rightarrow> int \<Rightarrow> time" where
  "time_AddDate_days l t off = (case time_Date l t of (y, mo, d) \<Rightarrow>
     date_time y mo (d + off) (time_Hour l t) (time_Minute l t) (time_Second l t) (unix_nsec t) l)"

text \<open>A location with one offset, such as UTC.\<close>

definition fixed_zone :: "location \<Rightarrow> int \<Rightarrow> bool" where
  "fixed_zone l off \<longleftrightarrow> (\<forall>u. loc_offset l u = off)"

lemma fixed_zone_UTC: "fixed_zone loc_UTC 0"
  by (simp add: fixed_zone_def loc_UTC_def loc_offset_def)

lemma resolve_local_fixed: "fixed_zone l off \<Longrightarrow> resolve_local l ls = ls - off"
  by (auto simp: fixed_zone_def resolve_local_def loc_offset_def split: prod.splits)
     (metis fst_conv)+

lemma hms_of_local:
  "time_Hour l t * 3600 + time_Minute l t * 60 + time_Second l t = local_sec l t mod 86400"
proof -
  define s where "s = local_sec l t mod 86400"
  have "local_sec l t mod 3600 = s mod 3600" "local_sec l t mod 60 = s mod 60"
    by (simp_all add: s_def mod_mod_cancel)
  moreover have "(s div 3600) * 3600 + ((s mod 3600) div 60) * 60 + s mod 60 = s"
    using div_mult_mod_eq [of s 60] sec_split [of s] by simp
  ultimately show ?thesis
    by (simp add: time_Hour_def time_Minute_def time_Second_def s_def)
qed

text \<open>In a fixed zone \<open>AddDate(0, 0, off)\<close> is \<open>off\<close> times 24 hours.\<close>

lemma AddDate_fixed:
  assumes "fixed_zone l off"
  shows "time_AddDate_days l t k = t + k * (86400 * 1000000000)"
proof -
  obtain y mo d where civ: "time_Date l t = (y, mo, d)" by (cases "time_Date l t")
  then have day: "day_of_civil y mo d = local_day l t"
    using day_of_civil_of_day [of "local_day l t" y mo d] by (simp add: time_Date_def)
  have loc: "local_day l t * 86400 + local_sec l t mod 86400 = local_sec l t"
    by (simp add: local_day_def)
  have ls: "local_sec l t = unix_sec t + off" using assms by (simp add: local_sec_def fixed_zone_def)
  have "time_AddDate_days l t k =
    ((local_day l t + k) * 86400 + local_sec l t mod 86400 - off) * 1000000000 + unix_nsec t"
    using assms hms_of_local [of l t]
    by (simp add: time_AddDate_days_def civ date_time_def resolve_local_fixed day day_of_civil_add)
  also have "\<dots> = (unix_sec t + k * 86400) * 1000000000 + unix_nsec t"
    using loc ls by (simp add: algebra_simps)
  also have "\<dots> = t + k * (86400 * 1000000000)"
    by (simp add: unix_sec_def unix_nsec_def algebra_simps)
  finally show ?thesis .
qed

lemma local_day_fixed_add:
  assumes "fixed_zone l off"
  shows "local_day l (t + k * (86400 * 1000000000)) = local_day l t + k"
proof -
  have "unix_sec (t + k * (86400 * 1000000000)) = unix_sec t + k * 86400"
    by (simp add: unix_sec_def mult.assoc [symmetric])
  with assms show ?thesis
    by (simp add: local_day_def local_sec_def fixed_zone_def algebra_simps)
qed

end
