(* ===== verification/ApiTypes.thy ===== *)
theory ApiTypes
  imports GoTime
begin

text \<open>
  The API types of \<open>api/v1alpha1/memoryleakpolicy_types.go\<close>: the policy a user writes, and the
  status in which the controller keeps its durable per-workload state. A Go pointer field is an
  \<open>option\<close> (\<open>None\<close> is nil); \<open>metav1.Time\<close> is its instant and \<open>metav1.Duration\<close> its duration; the
  string-typed enums keep their strings. A \<open>resource.Quantity\<close> is a library type of which the
  code uses two observations, its \<open>Value()\<close> and its \<open>String()\<close>: those are its fields here.
\<close>

section \<open>Library types seen through the fields the code uses\<close>

record quantity =
  q_Value :: int
  q_String :: string

record condition =
  cond_Type :: string
  cond_Status :: string
  cond_Reason :: string
  cond_Message :: string
  cond_LastTransitionTime :: time

section \<open>Constants\<close>

definition RestartHistoryLimit :: nat where "RestartHistoryLimit = 10"

definition OutcomeInProgress :: string where "OutcomeInProgress = ''InProgress''"
definition OutcomeSettled :: string where "OutcomeSettled = ''Settled''"
definition OutcomeTimedOut :: string where "OutcomeTimedOut = ''TimedOut''"
definition OutcomeFailed :: string where "OutcomeFailed = ''Failed''"
definition OutcomeSuperseded :: string where "OutcomeSuperseded = ''Superseded''"

lemmas outcome_defs = OutcomeInProgress_def OutcomeSettled_def OutcomeTimedOut_def
  OutcomeFailed_def OutcomeSuperseded_def

definition PhaseDispatched :: string where "PhaseDispatched = ''Dispatched''"
definition PhaseSettling :: string where "PhaseSettling = ''Settling''"

section \<open>Specification\<close>

record workload_ref =
  wr_Kind :: string
  wr_Name :: string

record detection_spec =
  ds_Mode :: string
  ds_ThresholdPercent :: int
  ds_ThresholdAbsolute :: "quantity option"
  ds_Window :: "duration option"
  ds_TrendMinGrowth :: "quantity option"

record container_override =
  co_Name :: string
  co_Detection :: detection_spec

record maintenance_window =
  mw_Days :: "string list"
  mw_Start :: string
  mw_End :: string
  mw_Timezone :: string

record policy_spec =
  sp_WorkloadRef :: workload_ref
  sp_Detection :: detection_spec
  sp_Cooldown :: "duration option"
  sp_StartupGrace :: "duration option"
  sp_RestartWindow :: "duration option"
  sp_MaxRestartsPerWindow :: "int option"
  sp_DryRun :: "bool option"
  sp_Containers :: "string list"
  sp_ContainerOverrides :: "container_override list"
  sp_ProfileCapture :: "bool option"
  sp_PprofPath :: string
  sp_MaintenanceWindows :: "maintenance_window list"
  sp_NotifyRoutes :: "string list"
  sp_SlackChannel :: string

section \<open>Status\<close>

record inflight_rollout =
  if_DispatchedAt :: time
  if_DispatchedVersion :: string
  if_Phase :: string

record restart_record =
  rr_TriggeredAt :: time
  rr_CompletedAt :: "time option"
  rr_Container :: string
  rr_Observed :: int
  rr_Threshold :: int
  rr_DetectionMode :: string
  rr_Version :: string
  rr_Outcome :: string

record profile_ref =
  pr_URL :: string
  pr_CapturedAt :: time

record notification_ref =
  nr_Event :: string
  nr_NotifiedAt :: time

record policy_status =
  st_WorkloadUID :: string
  st_LastRestartAt :: "time option"
  st_RestartCount :: int
  st_WindowStart :: "time option"
  st_Version :: string
  st_InFlight :: "inflight_rollout option"
  st_BreakerTripped :: bool
  st_DryRun :: bool
  st_NextEligibleRestart :: "time option"
  st_RestartsRemaining :: int
  st_LastProfile :: "profile_ref option"
  st_LastNotification :: "notification_ref option"
  st_History :: "restart_record list"
  st_Conditions :: "condition list"
  st_ObservedGeneration :: int

text \<open>The zero value of the status, as a fresh policy has it.\<close>

definition empty_status :: policy_status where
  "empty_status = \<lparr>st_WorkloadUID = '''', st_LastRestartAt = None, st_RestartCount = 0,
     st_WindowStart = None, st_Version = '''', st_InFlight = None, st_BreakerTripped = False,
     st_DryRun = False, st_NextEligibleRestart = None, st_RestartsRemaining = 0,
     st_LastProfile = None, st_LastNotification = None, st_History = [], st_Conditions = [],
     st_ObservedGeneration = 0\<rparr>"

text \<open>The policy object, with the metadata the controller reads or the API server needs.\<close>

record policy =
  p_Namespace :: string
  p_Name :: string
  p_ResourceVersion :: string
  p_DeletionTimestamp :: "time option"
  p_Finalizers :: "string list"
  p_Spec :: policy_spec
  p_Status :: policy_status

end
