(* ===== verification/GoStrings.thy ===== *)
theory GoStrings
  imports Prelude "HOL-Library.Char_ord" "HOL-Library.List_Lexorder"
begin

text \<open>
  The functions of Go's \<open>strings\<close>, \<open>strconv\<close> and \<open>fmt\<close> packages the controller uses, on byte strings
  (\<open>char list\<close>). White space and letter case are those of ASCII, which is what the flags and the
  schema-validated fields hold. The order on strings is the byte-wise lexicographic one of Go.
\<close>

section \<open>Splitting, trimming, joining\<close>

definition is_space :: "char \<Rightarrow> bool" where
  "is_space c \<longleftrightarrow> c \<in> {CHR '' '', CHR 0x09, CHR 0x0A, CHR 0x0B, CHR 0x0C, CHR 0x0D}"

definition TrimSpace :: "string \<Rightarrow> string" where
  "TrimSpace s = rev (dropWhile is_space (rev (dropWhile is_space s)))"

fun Split :: "char \<Rightarrow> string \<Rightarrow> string list" where
  "Split c [] = [[]]"
| "Split c (x # xs) =
     (if x = c then [] # Split c xs
      else (case Split c xs of [] \<Rightarrow> [[x]] | y # ys \<Rightarrow> (x # y) # ys))"

text \<open>\<open>strings.Cut\<close>: the text before and after the first separator, and whether there is one.\<close>

fun Cut :: "char \<Rightarrow> string \<Rightarrow> string \<times> string \<times> bool" where
  "Cut c [] = ([], [], False)"
| "Cut c (x # xs) =
     (if x = c then ([], xs, True)
      else (case Cut c xs of (b, a, f) \<Rightarrow> (x # b, a, f)))"

definition SplitN2 :: "char \<Rightarrow> string \<Rightarrow> string list" where
  "SplitN2 c s = (case Cut c s of (b, a, f) \<Rightarrow> if f then [b, a] else [s])"

function Fields :: "string \<Rightarrow> string list" where
  "Fields s = (case dropWhile is_space s of [] \<Rightarrow> []
     | x # xs \<Rightarrow> (x # takeWhile (\<lambda>c. \<not> is_space c) xs) # Fields (dropWhile (\<lambda>c. \<not> is_space c) xs))"
  by pat_completeness auto
termination
proof (relation "measure length")
  fix s x xs
  assume "dropWhile is_space s = x # xs"
  then have "Suc (length xs) \<le> length s" using dropWhile_length_le [of is_space s] by simp
  moreover have "length (dropWhile (\<lambda>c. \<not> is_space c) xs) \<le> length xs" by (rule dropWhile_length_le)
  ultimately show "(dropWhile (\<lambda>c. \<not> is_space c) xs, s) \<in> measure length" by simp
qed simp

declare Fields.simps [simp del]

fun Join :: "string \<Rightarrow> string list \<Rightarrow> string" where
  "Join sep [] = []"
| "Join sep [x] = x"
| "Join sep (x # y # ys) = x @ sep @ Join sep (y # ys)"

definition to_lower :: "char \<Rightarrow> char" where
  "to_lower c = (if 65 \<le> (of_char c :: nat) \<and> (of_char c :: nat) \<le> 90 then char_of ((of_char c :: nat) + 32) else c)"

definition ToLower :: "string \<Rightarrow> string" where
  "ToLower s = map to_lower s"

definition TrimSuffix :: "string \<Rightarrow> string \<Rightarrow> string" where
  "TrimSuffix s suf =
     (if length suf \<le> length s \<and> drop (length s - length suf) s = suf
      then take (length s - length suf) s else s)"

definition TrimRight :: "string \<Rightarrow> char \<Rightarrow> string" where
  "TrimRight s c = rev (dropWhile (\<lambda>x. x = c) (rev s))"

section \<open>Decimal digits\<close>

definition is_digit :: "char \<Rightarrow> bool" where
  "is_digit c \<longleftrightarrow> 48 \<le> (of_char c :: nat) \<and> (of_char c :: nat) \<le> 57"

definition digit_val :: "char \<Rightarrow> int" where
  "digit_val c = int (of_char c) - 48"

definition digit_char :: "int \<Rightarrow> char" where
  "digit_char d = char_of (nat (48 + d))"

function digits :: "int \<Rightarrow> string" where
  "digits n = (if n < 10 then [digit_char n] else digits (n div 10) @ [digit_char (n mod 10)])"
  by pat_completeness auto
termination by (relation "measure nat") auto

declare digits.simps [simp del]

text \<open>The verbs \<open>%d\<close> and \<open>%02d\<close>.\<close>

definition itoa :: "int \<Rightarrow> string" where
  "itoa n = (if n < 0 then ''-'' @ digits (- n) else digits n)"

definition itoa2 :: "int \<Rightarrow> string" where
  "itoa2 n = (if 0 \<le> n \<and> n < 10 then ''0'' @ itoa n else itoa n)"

definition bool_str :: "bool \<Rightarrow> string" where
  "bool_str b = (if b then ''true'' else ''false'')"

text \<open>The verb \<open>%q\<close> on printable text: double quotes, with quotes and backslashes escaped.\<close>

definition quote :: "string \<Rightarrow> string" where
  "quote s = [CHR 0x22] @ concat (map (\<lambda>c. if c = CHR 0x22 \<or> c = CHR 0x5C then [CHR 0x5C, c] else [c]) s) @ [CHR 0x22]"

section \<open>Lemmas\<close>

lemma Split_not_Nil [simp]: "Split c s \<noteq> []"
  by (induction s) (auto split: list.splits)

lemma Split_no_sep: "c \<notin> set s \<Longrightarrow> Split c s = [s]"
  by (induction s) auto

lemma Split_append_sep: "c \<notin> set s \<Longrightarrow> Split c (s @ c # t) = s # Split c t"
  by (induction s) auto

lemma Split_parts_no_sep: "x \<in> set (Split c s) \<Longrightarrow> c \<notin> set x"
  by (induction s arbitrary: x) (auto split: list.splits if_splits)

text \<open>Splitting a joined list gives the list back, when no part holds the separator.\<close>

lemma Split_Join:
  "xs \<noteq> [] \<Longrightarrow> \<forall>x \<in> set xs. c \<notin> set x \<Longrightarrow> Split c (Join [c] xs) = xs"
proof (induction "[c]" xs rule: Join.induct)
  case (3 x y ys)
  then show ?case by (simp add: Split_append_sep)
qed (simp_all add: Split_no_sep)

text \<open>Joining a split string gives the string back, without any condition.\<close>

lemma Join_Cons: "xs \<noteq> [] \<Longrightarrow> Join sep (x # xs) = x @ sep @ Join sep xs"
  by (cases xs) simp_all

lemma Join_Split: "Join [c] (Split c s) = s"
proof (induction s)
  case (Cons x xs)
  show ?case
  proof (cases "x = c")
    case True
    with Cons show ?thesis by (simp add: Join_Cons)
  next
    case False
    obtain y ys where y: "Split c xs = y # ys" by (meson Split_not_Nil list.exhaust)
    with Cons False show ?thesis by (cases ys) simp_all
  qed
qed simp

lemma Cut_no_sep: "c \<notin> set s \<Longrightarrow> Cut c s = (s, [], False)"
  by (induction s) auto

lemma Cut_append: "c \<notin> set s \<Longrightarrow> Cut c (s @ c # t) = (s, t, True)"
  by (induction s) auto

lemma Cut_rebuild: "Cut c s = (b, a, True) \<Longrightarrow> s = b @ c # a \<and> c \<notin> set b"
  by (induction s arbitrary: b a) (auto split: if_splits prod.splits)

lemma SplitN2_no_sep: "c \<notin> set s \<Longrightarrow> SplitN2 c s = [s]"
  by (simp add: SplitN2_def Cut_no_sep)

lemma SplitN2_append: "c \<notin> set s \<Longrightarrow> SplitN2 c (s @ c # t) = [s, t]"
  by (simp add: SplitN2_def Cut_append)

definition no_space :: "string \<Rightarrow> bool" where
  "no_space s \<longleftrightarrow> (\<forall>c \<in> set s. \<not> is_space c)"

lemma no_space_simps [simp]: "no_space []" "no_space (x # xs) \<longleftrightarrow> \<not> is_space x \<and> no_space xs"
  "no_space (xs @ ys) \<longleftrightarrow> no_space xs \<and> no_space ys"
  by (auto simp: no_space_def)

lemma no_space_set: "no_space s \<Longrightarrow> x \<in> set s \<Longrightarrow> \<not> is_space x"
  by (simp add: no_space_def)

lemma dropWhile_space_no_space: "no_space s \<Longrightarrow> dropWhile is_space (s @ t) = (if s = [] then dropWhile is_space t else s @ t)"
  by (cases s) simp_all

lemma TrimSpace_id:
  assumes "s = [] \<or> (\<not> is_space (hd s) \<and> \<not> is_space (last s))"
  shows "TrimSpace s = s"
proof (cases s)
  case (Cons x xs)
  then have "dropWhile is_space s = s" using assms by simp
  moreover have "dropWhile is_space (rev s) = rev s"
    using assms Cons by (cases "rev s") (auto simp: hd_rev [symmetric])
  ultimately show ?thesis by (simp add: TrimSpace_def)
qed (simp add: TrimSpace_def)

lemma TrimSpace_no_space: "no_space s \<Longrightarrow> TrimSpace s = s"
  by (rule TrimSpace_id) (cases s; auto simp: no_space_def)

lemma takeWhile_no_space: "no_space s \<Longrightarrow> takeWhile (\<lambda>c. \<not> is_space c) (s @ CHR '' '' # t) = s"
  by (induction s) (auto simp: is_space_def)

lemma dropWhile_no_space: "no_space s \<Longrightarrow> dropWhile (\<lambda>c. \<not> is_space c) (s @ CHR '' '' # t) = CHR '' '' # t"
  by (induction s) (auto simp: is_space_def)

lemma Fields_space [simp]: "Fields (CHR '' '' # s) = Fields s"
  by (subst (1 2) Fields.simps) (simp add: is_space_def)

lemma Fields_Nil [simp]: "Fields [] = []"
  by (simp add: Fields.simps)

lemma Fields_word: "no_space s \<Longrightarrow> s \<noteq> [] \<Longrightarrow> Fields (s @ CHR '' '' # t) = s # Fields t"
proof (cases s)
  case (Cons x xs)
  assume "no_space s"
  with Cons have x: "\<not> is_space x" and xs: "no_space xs" by simp_all
  have "Fields (s @ CHR '' '' # t) = (x # xs) # Fields (CHR '' '' # t)"
    unfolding Cons using x xs
    by (subst Fields.simps) (simp add: takeWhile_no_space dropWhile_no_space del: Fields_space)
  then show ?thesis by (simp add: Cons)
qed simp

lemma Fields_last: "no_space s \<Longrightarrow> s \<noteq> [] \<Longrightarrow> Fields s = [s]"
proof (cases s)
  case (Cons x xs)
  assume "no_space s"
  with Cons have x: "\<not> is_space x" and xs: "\<forall>c \<in> set xs. \<not> is_space c" by (simp_all add: no_space_def)
  from xs have w: "takeWhile (\<lambda>c. \<not> is_space c) xs = xs" "dropWhile (\<lambda>c. \<not> is_space c) xs = []"
    by (auto simp: takeWhile_eq_all_conv dropWhile_eq_Nil_conv)
  have "Fields (x # xs) = (x # takeWhile (\<lambda>c. \<not> is_space c) xs) # Fields (dropWhile (\<lambda>c. \<not> is_space c) xs)"
    using x by (subst Fields.simps) simp
  also have "\<dots> = [x # xs]" by (simp only: w Fields_Nil)
  finally show ?thesis by (simp add: Cons)
qed simp

lemma char_zero: "char_of (48 :: nat) = CHR ''0''"
  by code_simp

lemma digit_char_val: "0 \<le> d \<Longrightarrow> d \<le> 9 \<Longrightarrow> is_digit (digit_char d) \<and> digit_val (digit_char d) = d"
  by (auto simp: is_digit_def digit_val_def digit_char_def of_char_of)

lemma digits_digits: "0 \<le> n \<Longrightarrow> c \<in> set (digits n) \<Longrightarrow> is_digit c"
proof (induction n rule: digits.induct)
  case (1 n)
  then show ?case using digit_char_val [of n] digit_char_val [of "n mod 10"]
    by (auto simp: digits.simps [of n] split: if_splits)
qed

lemma itoa_small: "0 \<le> n \<Longrightarrow> n < 10 \<Longrightarrow> itoa n = [digit_char n]"
  by (simp add: itoa_def digits.simps)

lemma itoa_two:
  assumes "10 \<le> n" and "n < 100"
  shows "itoa n = [digit_char (n div 10), digit_char (n mod 10)]"
proof -
  have "n div 10 < 10" using assms by linarith
  then show ?thesis using assms
    by (simp add: itoa_def digits.simps [of n] digits.simps [of "n div 10"])
qed

lemma itoa2_two: "0 \<le> n \<Longrightarrow> n < 100 \<Longrightarrow> itoa2 n = [digit_char (n div 10), digit_char (n mod 10)]"
  by (auto simp: itoa2_def itoa_small itoa_two digit_char_def char_zero)

lemma is_digit_not: "is_digit c \<Longrightarrow> \<not> is_space c \<and> c \<noteq> CHR '':'' \<and> c \<noteq> CHR ''-'' \<and> c \<noteq> CHR '';''"
  by (auto simp: is_digit_def is_space_def)

end
