(* ===== verification/Maintenance.thy ===== *)
theory Maintenance
  imports ApiTypes GoStrings "HOL-Library.Multiset"
begin

text \<open>
  \<open>internal/maintenance/window.go\<close>: the windows in which restarts are allowed, their parsers, their
  rendering, and the next opening. The zone database behind \<open>time.LoadLocation\<close> is the parameter
  \<open>tzdb\<close>: the location of a name, or the error of the lookup.
\<close>

section \<open>Data\<close>

text \<open>The \<open>map[time.Weekday]bool\<close> only ever holds true entries: a set of weekdays.\<close>

record window =
  w_Days :: "weekday set"
  w_Start :: int
  w_End :: int
  w_Loc :: location

record window_spec =
  ws_Days :: string
  ws_Start :: string
  ws_End :: string
  ws_Timezone :: string

type_synonym windows = "window list"
type_synonym tzdb = "string \<Rightarrow> location result"

section \<open>Membership and the next opening\<close>

definition contains :: "window \<Rightarrow> time \<Rightarrow> bool" where
  "contains w t =
     (if time_Weekday (w_Loc w) t \<notin> w_Days w then False
      else let m = time_Hour (w_Loc w) t * 60 + time_Minute (w_Loc w) t
           in m \<ge> w_Start w \<and> m < w_End w)"

fun IsAllowed_loop :: "windows \<Rightarrow> time \<Rightarrow> bool" where
  "IsAllowed_loop [] t = False"
| "IsAllowed_loop (w # ws) t = (if contains w t then True else IsAllowed_loop ws t)"

definition IsAllowed :: "windows \<Rightarrow> time \<Rightarrow> bool" where
  "IsAllowed ws t = (if length ws = 0 then True else IsAllowed_loop ws t)"

text \<open>One iteration per day offset; the zero time means that no iteration returned.\<close>

definition opening_on :: "window \<Rightarrow> time \<Rightarrow> time" where
  "opening_on w day = (case time_Date (w_Loc w) day of (y, mo, d) \<Rightarrow>
     date_time y mo d (go_div (w_Start w) 60) (go_mod (w_Start w) 60) 0 0 (w_Loc w))"

fun nextOpening_loop :: "window \<Rightarrow> time \<Rightarrow> int list \<Rightarrow> time" where
  "nextOpening_loop w t [] = zero_time"
| "nextOpening_loop w t (off # offs) =
     (let day = time_AddDate_days (w_Loc w) t off
      in if time_Weekday (w_Loc w) day \<notin> w_Days w then nextOpening_loop w t offs
         else let opening = opening_on w day
              in if time_After opening t then opening else nextOpening_loop w t offs)"

definition nextOpening :: "window \<Rightarrow> time \<Rightarrow> time" where
  "nextOpening w t = nextOpening_loop w t [0, 1, 2, 3, 4, 5, 6, 7]"

definition better_opening :: "time \<Rightarrow> window \<Rightarrow> time \<Rightarrow> time" where
  "better_opening t w best =
     (let c = nextOpening w t
      in if \<not> time_IsZero c \<and> (time_IsZero best \<or> time_Before c best) then c else best)"

definition NextOpening :: "windows \<Rightarrow> time \<Rightarrow> time" where
  "NextOpening ws t = fold (better_opening t) ws zero_time"

section \<open>Parsing\<close>

text \<open>Weekday names are looked up lower-case; \<open>weekdayOrder\<close> lists the week from Sunday.\<close>

definition weekdays :: "string \<Rightarrow> weekday option" where
  "weekdays s =
     (if s = ''sun'' then Some Sunday else if s = ''mon'' then Some Monday
      else if s = ''tue'' then Some Tuesday else if s = ''wed'' then Some Wednesday
      else if s = ''thu'' then Some Thursday else if s = ''fri'' then Some Friday
      else if s = ''sat'' then Some Saturday else None)"

definition weekdayOrder :: "weekday list" where
  "weekdayOrder = [Sunday, Monday, Tuesday, Wednesday, Thursday, Friday, Saturday]"

text \<open>The range loop: \<open>i\<close> counts up to 7, stopping after the day \<open>to\<close>.\<close>

fun expand_loop :: "weekday \<Rightarrow> weekday \<Rightarrow> int list \<Rightarrow> weekday list" where
  "expand_loop from to [] = []"
| "expand_loop from to (i # is) =
     (let wd = wd_of_int ((wd_int from + i) mod 7)
      in wd # (if wd = to then [] else expand_loop from to is))"

definition expandRange :: "weekday \<Rightarrow> weekday \<Rightarrow> weekday list" where
  "expandRange from to = expand_loop from to [0, 1, 2, 3, 4, 5, 6]"

fun parse_day_tokens :: "weekday set \<Rightarrow> string list \<Rightarrow> weekday set result" where
  "parse_day_tokens out [] = Inr out"
| "parse_day_tokens out (tok0 # toks) =
     (let tok = TrimSpace tok0
      in if tok = '''' then parse_day_tokens out toks
         else case SplitN2 (CHR ''-'') tok of
             [a, b] \<Rightarrow>
               (case (weekdays (TrimSpace a), weekdays (TrimSpace b)) of
                  (Some from, Some to) \<Rightarrow> parse_day_tokens (out \<union> set (expandRange from to)) toks
                | _ \<Rightarrow> Inl (ErrMsg (''invalid day range '' @ quote tok)))
           | _ \<Rightarrow>
               (case weekdays tok of
                  None \<Rightarrow> Inl (ErrMsg (''invalid day '' @ quote tok))
                | Some wd \<Rightarrow> parse_day_tokens (insert wd out) toks))"

definition parseDays :: "string \<Rightarrow> weekday set result" where
  "parseDays s0 =
     (let s = ToLower (TrimSpace s0)
      in if s = ''*'' \<or> s = ''daily'' \<or> s = ''all'' \<or> s = ''everyday'' then Inr (set weekdayOrder)
         else case parse_day_tokens {} (Split (CHR '','') s) of
             Inl e \<Rightarrow> Inl e
           | Inr out \<Rightarrow> if out = {} then Inl (ErrMsg (''no valid days in '' @ quote s)) else Inr out)"

text \<open>
  \<open>time.Parse("15:04", s)\<close>: an hour of one or two digits below 24, a colon, a minute of exactly two
  digits below 60, and nothing after it.
\<close>

definition getnum :: "string \<Rightarrow> bool \<Rightarrow> (int \<times> string) option" where
  "getnum s fixed = (case s of
      [] \<Rightarrow> None
    | c # r \<Rightarrow>
        if \<not> is_digit c then None
        else case r of
            d # r' \<Rightarrow> if is_digit d then Some (digit_val c * 10 + digit_val d, r')
                      else if fixed then None else Some (digit_val c, r)
          | [] \<Rightarrow> if fixed then None else Some (digit_val c, r))"

definition parse_clock :: "string \<Rightarrow> (int \<times> int) option" where
  "parse_clock s = (case getnum s False of
      None \<Rightarrow> None
    | Some (h, v) \<Rightarrow>
        if 24 \<le> h then None
        else case v of
            [] \<Rightarrow> None
          | c # v' \<Rightarrow>
              if c \<noteq> CHR '':'' then None
              else case getnum v' True of
                  None \<Rightarrow> None
                | Some (m, v'') \<Rightarrow> if 60 \<le> m \<or> v'' \<noteq> [] then None else Some (h, m))"

definition parseHHMM :: "string \<Rightarrow> int result" where
  "parseHHMM s0 =
     (let s = TrimSpace s0
      in case parse_clock s of
          None \<Rightarrow> Inl (ErrMsg (''invalid time '' @ quote s @ '' (want HH:MM)''))
        | Some (h, m) \<Rightarrow> Inr (h * 60 + m))"

definition parseWindow :: "tzdb \<Rightarrow> string \<Rightarrow> string \<Rightarrow> string \<Rightarrow> string \<Rightarrow> window result" where
  "parseWindow tzdb days start end' tz =
     (case parseDays days of Inl e \<Rightarrow> Inl e
      | Inr d \<Rightarrow>
     (case parseHHMM start of Inl e \<Rightarrow> Inl e
      | Inr sm \<Rightarrow>
     (case parseHHMM end' of Inl e \<Rightarrow> Inl e
      | Inr em \<Rightarrow>
          if em \<le> sm
          then Inl (ErrMsg (''end '' @ end' @ '' must be after start '' @ start @ '' (overnight windows unsupported)''))
          else if tz \<noteq> '''' \<and> tz \<noteq> ''UTC''
          then (case tzdb tz of
                  Inl e \<Rightarrow> Inl (ErrWrap (''invalid timezone '' @ quote tz) e)
                | Inr loc \<Rightarrow> Inr \<lparr>w_Days = d, w_Start = sm, w_End = em, w_Loc = loc\<rparr>)
          else Inr \<lparr>w_Days = d, w_Start = sm, w_End = em, w_Loc = loc_UTC\<rparr>)))"

fun parse_specs_from :: "tzdb \<Rightarrow> nat \<Rightarrow> windows \<Rightarrow> window_spec list \<Rightarrow> windows result" where
  "parse_specs_from tzdb i ws [] = Inr ws"
| "parse_specs_from tzdb i ws (s # ss) =
     (case parseWindow tzdb (ws_Days s) (ws_Start s) (ws_End s) (ws_Timezone s) of
        Inl e \<Rightarrow> Inl (ErrWrap (''window '' @ itoa (int i)) e)
      | Inr w \<Rightarrow> parse_specs_from tzdb (Suc i) (ws @ [w]) ss)"

definition ParseSpecs :: "tzdb \<Rightarrow> window_spec list \<Rightarrow> windows result" where
  "ParseSpecs tzdb specs = parse_specs_from tzdb 0 [] specs"

definition parse_part :: "tzdb \<Rightarrow> string \<Rightarrow> window result" where
  "parse_part tzdb part =
     (let fields = Fields part
      in if length fields \<noteq> 3
         then Inl (ErrMsg (''window '' @ quote part @ '': want '' @ [CHR 0x27] @ ''<days> <HH:MM>-<HH:MM> <timezone>'' @ [CHR 0x27]))
         else case SplitN2 (CHR ''-'') (fields ! 1) of
             [a, b] \<Rightarrow> (case parseWindow tzdb (fields ! 0) a b (fields ! 2) of
                 Inl e \<Rightarrow> Inl (ErrWrap (''window '' @ quote part) e)
               | Inr w \<Rightarrow> Inr w)
           | _ \<Rightarrow> Inl (ErrMsg (''window '' @ quote part @ '': time range must be HH:MM-HH:MM'')))"

fun parse_parts :: "tzdb \<Rightarrow> windows \<Rightarrow> string list \<Rightarrow> windows result" where
  "parse_parts tzdb ws [] = Inr ws"
| "parse_parts tzdb ws (part0 # parts) =
     (let part = TrimSpace part0
      in if part = '''' then parse_parts tzdb ws parts
         else case parse_part tzdb part of
             Inl e \<Rightarrow> Inl e
           | Inr w \<Rightarrow> parse_parts tzdb (ws @ [w]) parts)"

definition ParseString :: "tzdb \<Rightarrow> string \<Rightarrow> windows result" where
  "ParseString tzdb s0 =
     (let s = TrimSpace s0
      in if s = '''' then Inr [] else parse_parts tzdb [] (Split (CHR '';'') s))"

definition spec_of_window :: "maintenance_window \<Rightarrow> window_spec" where
  "spec_of_window w = \<lparr>ws_Days = Join '','' (mw_Days w), ws_Start = mw_Start w, ws_End = mw_End w,
     ws_Timezone = mw_Timezone w\<rparr>"

definition FromWindows :: "tzdb \<Rightarrow> maintenance_window list \<Rightarrow> windows result" where
  "FromWindows tzdb ws = (if length ws = 0 then Inr [] else ParseSpecs tzdb (map spec_of_window ws))"

section \<open>Rendering\<close>

fun wd_short :: "weekday \<Rightarrow> string" where
  "wd_short Sunday = ''Sun''" | "wd_short Monday = ''Mon''" | "wd_short Tuesday = ''Tue''"
| "wd_short Wednesday = ''Wed''" | "wd_short Thursday = ''Thu''" | "wd_short Friday = ''Fri''"
| "wd_short Saturday = ''Sat''"

definition render_clock :: "int \<Rightarrow> string" where
  "render_clock m = itoa2 (go_div m 60) @ '':'' @ itoa2 (go_mod m 60)"

definition render_days :: "weekday set \<Rightarrow> string" where
  "render_days D = Join '','' (map wd_short (filter (\<lambda>wd. wd \<in> D) weekdayOrder))"

definition render_window :: "window \<Rightarrow> string" where
  "render_window w = render_days (w_Days w) @ '' '' @ render_clock (w_Start w) @ ''-''
     @ render_clock (w_End w) @ '' '' @ loc_name (w_Loc w)"

definition Windows_String :: "windows \<Rightarrow> string" where
  "Windows_String ws = (if length ws = 0 then ''always'' else Join ''; '' (sort (map render_window ws)))"

section \<open>Windows the parser accepts\<close>

definition window_ok :: "window \<Rightarrow> bool" where
  "window_ok w \<longleftrightarrow> w_Days w \<noteq> {} \<and> 0 \<le> w_Start w \<and> w_Start w < w_End w \<and> w_End w < 1440"

lemma digit_val_range: "is_digit c \<Longrightarrow> 0 \<le> digit_val c \<and> digit_val c \<le> 9"
  by (simp add: is_digit_def digit_val_def)

lemma getnum_nonneg: "getnum s f = Some (n, r) \<Longrightarrow> 0 \<le> n"
  using digit_val_range
  by (fastforce simp: getnum_def split: list.splits if_splits)

lemma parseHHMM_range: "parseHHMM s = Inr m \<Longrightarrow> 0 \<le> m \<and> m < 1440"
  by (auto simp: parseHHMM_def parse_clock_def Let_def dest!: getnum_nonneg
      split: option.splits prod.splits if_splits list.splits)

lemma parse_day_tokens_mono:
  "parse_day_tokens out toks = Inr D \<Longrightarrow> out \<subseteq> D"
  by (induction out toks rule: parse_day_tokens.induct)
     (auto simp: Let_def split: if_splits list.splits option.splits prod.splits)

lemma parseDays_nonempty: "parseDays s = Inr D \<Longrightarrow> D \<noteq> {}"
  by (auto simp: parseDays_def Let_def weekdayOrder_def split: if_splits sum.splits)

lemma parseWindow_ok: "parseWindow tzdb d s e tz = Inr w \<Longrightarrow> window_ok w"
  by (auto simp: parseWindow_def window_ok_def dest: parseDays_nonempty parseHHMM_range
      split: sum.splits if_splits)

lemma parse_specs_from_ok:
  "parse_specs_from tzdb i ws ss = Inr ws' \<Longrightarrow> \<forall>w \<in> set ws. window_ok w \<Longrightarrow>
   (\<forall>w \<in> set ws'. window_ok w) \<and> length ws' = length ws + length ss"
  by (induction tzdb i ws ss rule: parse_specs_from.induct)
     (auto split: sum.splits dest: parseWindow_ok)

lemma parse_parts_ok:
  "parse_parts tzdb ws ps = Inr ws' \<Longrightarrow> \<forall>w \<in> set ws. window_ok w \<Longrightarrow> (\<forall>w \<in> set ws'. window_ok w)"
proof (induction ps arbitrary: ws)
  case (Cons p ps)
  show ?case
  proof (cases "TrimSpace p = []")
    case True
    with Cons show ?thesis by simp
  next
    case False
    with Cons.prems obtain w where w: "parse_part tzdb (TrimSpace p) = Inr w"
      and rest: "parse_parts tzdb (ws @ [w]) ps = Inr ws'" by (auto simp: Let_def split: sum.splits)
    have "window_ok w"
      using w by (auto simp: parse_part_def Let_def dest: parseWindow_ok split: if_splits list.splits sum.splits)
    with Cons.IH [OF rest] Cons.prems show ?thesis by auto
  qed
qed simp

text \<open>Every parser yields well-formed windows only.\<close>

lemma ParseSpecs_ok: "ParseSpecs tzdb ss = Inr ws \<Longrightarrow> (\<forall>w \<in> set ws. window_ok w) \<and> length ws = length ss"
  using parse_specs_from_ok [of tzdb 0 "[]" ss ws] by (simp add: ParseSpecs_def)

lemma ParseString_ok: "ParseString tzdb s = Inr ws \<Longrightarrow> \<forall>w \<in> set ws. window_ok w"
  using parse_parts_ok [of tzdb "[]" "Split (CHR '';'') (TrimSpace s)" ws]
  by (auto simp: ParseString_def Let_def split: if_splits)

lemma FromWindows_ok: "FromWindows tzdb ms = Inr ws \<Longrightarrow> (\<forall>w \<in> set ws. window_ok w) \<and> length ws = length ms"
  using ParseSpecs_ok [of tzdb "map spec_of_window ms" ws] by (auto simp: FromWindows_def split: if_splits)

section \<open>Openings in a fixed zone\<close>

lemma IsAllowed_iff: "IsAllowed ws t \<longleftrightarrow> ws = [] \<or> (\<exists>w \<in> set ws. contains w t)"
proof -
  have "IsAllowed_loop xs t \<longleftrightarrow> (\<exists>w \<in> set xs. contains w t)" for xs by (induction xs) auto
  then show ?thesis by (simp add: IsAllowed_def)
qed

lemma contains_iff:
  "contains w t \<longleftrightarrow> wd_of_int (local_day (w_Loc w) t + 4) \<in> w_Days w
     \<and> w_Start w \<le> (local_sec (w_Loc w) t mod 86400) div 60
     \<and> (local_sec (w_Loc w) t mod 86400) div 60 < w_End w"
  by (auto simp: contains_def time_Weekday_def minute_of_day Let_def)

text \<open>The opening of a day, in local seconds.\<close>

definition open_sec :: "window \<Rightarrow> int \<Rightarrow> int" where
  "open_sec w D = D * 86400 + w_Start w * 60"

lemma opening_on_fixed:
  assumes "fixed_zone (w_Loc w) off"
  shows "opening_on w day = (open_sec w (local_day (w_Loc w) day) - off) * 1000000000"
proof -
  obtain y mo d where c: "time_Date (w_Loc w) day = (y, mo, d)" by (cases "time_Date (w_Loc w) day")
  then have "day_of_civil y mo d = local_day (w_Loc w) day"
    using day_of_civil_of_day [of "local_day (w_Loc w) day" y mo d] by (simp add: time_Date_def)
  moreover have "go_div (w_Start w) 60 * 3600 + go_mod (w_Start w) 60 * 60 = w_Start w * 60"
    using go_div_mod [of "w_Start w" 60] by (simp add: algebra_simps)
  ultimately show ?thesis
    by (simp add: opening_on_def c date_time_def resolve_local_fixed [OF assms] open_sec_def)
qed

lemma sec_after_iff: "t < s * 1000000000 \<longleftrightarrow> unix_sec t < s"
  unfolding unix_sec_def by (rule iffI; linarith)

lemma local_sec_fixed: "fixed_zone l off \<Longrightarrow> local_sec l t = unix_sec t + off"
  by (simp add: local_sec_def fixed_zone_def)

lemma opening_after_fixed:
  assumes "fixed_zone (w_Loc w) off"
  shows "t < (open_sec w D - off) * 1000000000 \<longleftrightarrow> local_sec (w_Loc w) t < open_sec w D"
  by (simp only: sec_after_iff local_sec_fixed [OF assms] less_diff_eq)

lemma nextOpening_loop_fixed:
  fixes t :: time
  assumes "fixed_zone (w_Loc w) off"
  defines "D \<equiv> local_day (w_Loc w) t"
  defines "good \<equiv> \<lambda>k. wd_of_int (D + k + 4) \<in> w_Days w \<and> local_sec (w_Loc w) t < open_sec w (D + k)"
  shows "nextOpening_loop w t ks =
    (case find good ks of None \<Rightarrow> zero_time | Some k \<Rightarrow> (open_sec w (D + k) - off) * 1000000000)"
proof (induction ks)
  case (Cons k ks)
  have day: "local_day (w_Loc w) (time_AddDate_days (w_Loc w) t k) = D + k"
    by (simp only: AddDate_fixed [OF assms(1)] local_day_fixed_add [OF assms(1)] D_def)
  have op: "opening_on w (time_AddDate_days (w_Loc w) t k) = (open_sec w (D + k) - off) * 1000000000"
    by (simp only: opening_on_fixed [OF assms(1)] day)
  have aft: "time_After ((open_sec w (D + k) - off) * 1000000000) t \<longleftrightarrow> local_sec (w_Loc w) t < open_sec w (D + k)"
    by (simp only: time_After_def opening_after_fixed [OF assms(1)])
  show ?case
    unfolding nextOpening_loop.simps Let_def op aft time_Weekday_def day Cons.IH find.simps good_def
    by simp
qed simp

lemma local_sec_day: "local_day l t * 86400 \<le> local_sec l t \<and> local_sec l t < (local_day l t + 1) * 86400"
proof -
  have a: "local_day l t * 86400 + local_sec l t mod 86400 = local_sec l t" by (simp add: local_day_def)
  have b: "0 \<le> local_sec l t mod 86400" "local_sec l t mod 86400 < 86400" by simp_all
  have "(local_day l t + 1) * 86400 = local_day l t * 86400 + 86400" by simp
  with a b show ?thesis by linarith
qed

lemma local_sec_split: "local_sec l t = local_day l t * 86400 + local_sec l t mod 86400"
  by (simp add: local_day_def)

lemma open_sec_parts:
  assumes "0 \<le> w_Start w" "w_Start w < w_End w" "w_End w < 1440"
  shows "open_sec w d div 86400 = d \<and> open_sec w d mod 86400 = w_Start w * 60"
proof -
  have "open_sec w d = w_Start w * 60 + d * 86400" by (simp add: open_sec_def)
  moreover have "0 \<le> w_Start w * 60" "w_Start w * 60 < 86400" using assms by simp_all
  ultimately show ?thesis by (simp only: div_mult_self1 mod_mult_self1 div_pos_pos_trivial mod_pos_pos_trivial) simp
qed

lemma weekday_in_week: "\<exists>k \<in> {1, 2, 3, 4, 5, 6, 7}. wd_of_int (n + k) = (v :: weekday)"
proof -
  define k where "k = (wd_int v - n - 1) mod 7 + 1"
  have "0 \<le> (wd_int v - n - 1) mod 7" "(wd_int v - n - 1) mod 7 < 7" by simp_all
  then have "1 \<le> k" "k \<le> 7" unfolding k_def by linarith+
  then have k: "k \<in> {1, 2, 3, 4, 5, 6, 7}" by auto
  have "(n + k) mod 7 = (n + 1 + (wd_int v - n - 1)) mod 7"
    unfolding k_def by (metis add.assoc add.commute mod_add_right_eq)
  also have "\<dots> = wd_int v" using wd_int_range [of v] by simp
  finally have "wd_of_int (n + k) = v" by (metis wd_of_int_mod wd_of_int_of_wd)
  with k show ?thesis by blast
qed

lemma find_offsets_Some:
  assumes "find P [0, 1, 2, 3, 4, 5, 6, 7 :: int] = Some k"
  shows "P k \<and> 0 \<le> k \<and> k \<le> 7 \<and> (\<forall>j. 0 \<le> j \<and> j < k \<longrightarrow> \<not> P j)"
proof -
  have "[0, 1, 2, 3, 4, 5, 6, 7 :: int] = map int [0..<8]" by (simp add: upt_rec)
  then have "find P (map int [0..<8]) = Some k" using assms by (simp only:)
  then obtain i where i: "i < 8" "P (int i)" "k = int i" and first: "\<forall>j<i. \<not> P (int j)"
    unfolding find_Some_iff by force
  have "\<not> P j" if "0 \<le> j" "j < k" for j
    using first i(3) that by (metis nat_0_le nat_less_iff)
  with i show ?thesis by auto
qed

text \<open>
  In a fixed zone the next opening of a closed window is after now, inside the window, less than
  eight days away, and no instant before it is inside the window.
\<close>

lemma nextOpening_fixed:
  assumes z: "fixed_zone (w_Loc w) off" and ok: "window_ok w" and closed: "\<not> contains w t"
  shows "t < nextOpening w t \<and> contains w (nextOpening w t)
    \<and> nextOpening w t - t < 8 * 86400 * 1000000000
    \<and> (\<forall>u. t < u \<and> u < nextOpening w t \<longrightarrow> \<not> contains w u)"
proof -
  define l where "l = w_Loc w"
  define D where "D = local_day l t"
  define good where "good = (\<lambda>k. wd_of_int (D + k + 4) \<in> w_Days w \<and> local_sec l t < open_sec w (D + k))"
  have S: "0 \<le> w_Start w" "w_Start w < w_End w" "w_End w < 1440" using ok by (simp_all add: window_ok_def)
  have loop: "nextOpening w t =
    (case find good [0, 1, 2, 3, 4, 5, 6, 7] of None \<Rightarrow> zero_time
     | Some k \<Rightarrow> (open_sec w (D + k) - off) * 1000000000)"
    unfolding nextOpening_def nextOpening_loop_fixed [OF z] good_def D_def l_def ..
  obtain v where "v \<in> w_Days w" using ok by (auto simp: window_ok_def)
  moreover obtain k1 where k1: "k1 \<in> {1, 2, 3, 4, 5, 6, 7}" "wd_of_int ((D + 4) + k1) = v"
    using weekday_in_week by blast
  moreover have "local_sec l t < open_sec w (D + k1)"
    using local_sec_day [of l t] S k1(1) by (auto simp: open_sec_def D_def)
  ultimately have "good k1" by (simp add: good_def algebra_simps)
  then have "find good [0, 1, 2, 3, 4, 5, 6, 7] \<noteq> None"
    using k1(1) by (auto simp: find_None_iff)
  then obtain k where fk: "find good [0, 1, 2, 3, 4, 5, 6, 7] = Some k" by blast
  note fs = find_offsets_Some [OF fk]
  have gk: "good k" and kr: "0 \<le> k" "k \<le> 7" and first: "\<And>j. 0 \<le> j \<Longrightarrow> j < k \<Longrightarrow> \<not> good j"
    using fs by blast+
  define n where "n = (open_sec w (D + k) - off) * 1000000000"
  have n: "nextOpening w t = n" by (simp only: loop fk option.case n_def)
  have after: "t < n" using gk opening_after_fixed [OF z, of t "D + k"] by (simp only: good_def n_def l_def)
  have un: "unix_sec n = open_sec w (D + k) - off" by (simp add: n_def unix_sec_def)
  have ln: "local_sec l n = open_sec w (D + k)" unfolding l_def by (simp add: local_sec_fixed [OF z] un)
  have dn: "local_day l n = D + k" "local_sec l n mod 86400 = w_Start w * 60"
    unfolding local_day_def ln using open_sec_parts [OF S, of "D + k"] by simp_all
  have inn: "contains w n" using gk S by (simp add: contains_iff l_def [symmetric] dn good_def)
  have near: "n - t < 8 * 86400 * 1000000000"
  proof -
    have "open_sec w (D + k) < local_sec l t + 8 * 86400"
      using local_sec_day [of l t] kr S by (simp add: open_sec_def D_def)
    then have "open_sec w (D + k) - off < unix_sec t + 8 * 86400"
      by (simp add: l_def local_sec_fixed [OF z])
    then have "n < (unix_sec t + 8 * 86400) * 1000000000" by (simp add: n_def)
    then show ?thesis by (simp add: unix_sec_def)
  qed
  have none: "\<not> contains w u" if u: "t < u" "u < n" for u
  proof
    assume cu: "contains w u"
    define Du where "Du = local_day l u"
    have ord: "local_sec l t \<le> local_sec l u"
      using u(1) by (simp add: l_def local_sec_fixed [OF z] unix_sec_def zdiv_mono1)
    then have "D \<le> Du" by (simp add: D_def Du_def local_day_def zdiv_mono1)
    have su: "local_sec l u < open_sec w (D + k)"
      using u(2) unfolding n_def l_def by (simp only: opening_after_fixed [OF z])
    have cu': "wd_of_int (Du + 4) \<in> w_Days w" "w_Start w \<le> (local_sec l u mod 86400) div 60"
      "(local_sec l u mod 86400) div 60 < w_End w"
      using cu by (simp_all add: contains_iff l_def Du_def)
    have opu: "open_sec w Du \<le> local_sec l u"
      using cu'(2) local_sec_split [of l u] by (simp add: open_sec_def Du_def)
    show False
    proof (cases "local_sec l t < open_sec w Du")
      case True
      define j where "j = Du - D"
      have "good j" using True cu'(1) by (simp add: good_def j_def add.commute)
      moreover have "0 \<le> j" using \<open>D \<le> Du\<close> by (simp add: j_def)
      moreover have "j < k" using opu su by (simp add: open_sec_def j_def)
      ultimately show False using first by blast
    next
      case False
      then have "Du \<le> D" using local_sec_day [of l t] S by (simp add: open_sec_def D_def)
      with \<open>D \<le> Du\<close> have DD: "Du = D" by simp
      have "w_Start w * 60 \<le> local_sec l t mod 86400"
        using False local_sec_split [of l t] by (simp add: DD open_sec_def D_def)
      moreover have "local_sec l t mod 86400 \<le> local_sec l u mod 86400"
        using ord local_sec_split [of l t] local_sec_split [of l u] DD by (simp add: D_def Du_def)
      ultimately have "contains w t"
        using cu' DD by (simp add: contains_iff l_def [symmetric] D_def [symmetric]) linarith
      with closed show False by simp
    qed
  qed
  show ?thesis unfolding n using after inn near none by blast
qed

section \<open>The earliest opening of several windows\<close>

definition fixed_loc :: "location \<Rightarrow> bool" where
  "fixed_loc l \<longleftrightarrow> (\<exists>off. fixed_zone l off)"

definition calendar_ok :: "windows \<Rightarrow> bool" where
  "calendar_ok ws \<longleftrightarrow> (\<forall>w \<in> set ws. window_ok w \<and> fixed_loc (w_Loc w))"

lemma fold_better:
  assumes "\<forall>w \<in> set ws. zero_time < nextOpening w t" and "b = zero_time \<or> zero_time < b"
  defines "r \<equiv> fold (better_opening t) ws b"
  shows "(r = b \<or> r \<in> (\<lambda>w. nextOpening w t) ` set ws)
    \<and> (\<forall>w \<in> set ws. r \<le> nextOpening w t) \<and> (b \<noteq> zero_time \<longrightarrow> r \<le> b) \<and> (ws \<noteq> [] \<longrightarrow> r \<noteq> zero_time)"
  using assms(1,2) unfolding r_def
proof (induction ws arbitrary: b)
  case (Cons w ws)
  let ?b = "better_opening t w b"
  have b: "?b = b \<or> ?b = nextOpening w t" "?b \<noteq> zero_time" "?b \<le> nextOpening w t" "b \<noteq> zero_time \<Longrightarrow> ?b \<le> b"
    "zero_time < ?b"
    using Cons.prems by (auto simp: better_opening_def Let_def time_IsZero_def time_Before_def)
  note IH = Cons.IH [of ?b]
  show ?case using IH b Cons.prems by (auto dest: order_trans)
qed simp

lemma NextOpening_fixed:
  assumes ok: "calendar_ok ws" and ne: "ws \<noteq> []" and closed: "\<not> IsAllowed ws t" and z: "zero_time \<le> t"
  shows "t < NextOpening ws t \<and> IsAllowed ws (NextOpening ws t)
    \<and> NextOpening ws t - t < 8 * 86400 * 1000000000
    \<and> (\<forall>u. t < u \<and> u < NextOpening ws t \<longrightarrow> \<not> IsAllowed ws u)"
proof -
  have single: "t < nextOpening w t \<and> contains w (nextOpening w t)
      \<and> nextOpening w t - t < 8 * 86400 * 1000000000
      \<and> (\<forall>u. t < u \<and> u < nextOpening w t \<longrightarrow> \<not> contains w u)" if win: "w \<in> set ws" for w
  proof -
    obtain off where "fixed_zone (w_Loc w) off" "window_ok w"
      using win ok by (auto simp: calendar_ok_def fixed_loc_def)
    moreover have "\<not> contains w t" using win closed by (auto simp: IsAllowed_iff)
    ultimately show ?thesis by (rule nextOpening_fixed)
  qed
  define r where "r = NextOpening ws t"
  have "\<forall>w \<in> set ws. zero_time < nextOpening w t" using single z by fastforce
  from fold_better [OF this, of zero_time] ne
  have r: "r \<in> (\<lambda>w. nextOpening w t) ` set ws" "\<forall>w \<in> set ws. r \<le> nextOpening w t"
    by (auto simp: r_def NextOpening_def)
  from r(1) obtain w where w: "w \<in> set ws" "r = nextOpening w t" by blast
  have "\<not> IsAllowed ws u" if "t < u" "u < r" for u
    using that single r(2) ne by (fastforce simp: IsAllowed_iff)
  with single [OF w(1)] w show ?thesis unfolding r_def [symmetric] by (auto simp: IsAllowed_iff)
qed

section \<open>The calendar a deferral relies on\<close>

text \<open>
  What the restart loop asks of a calendar: whether an instant is allowed, and a next instant that is
  later, allowed, and the first one allowed. A deferral sleeps for the difference.
\<close>

locale deferral_calendar =
  fixes valid :: "'c \<Rightarrow> time \<Rightarrow> bool"
    and allowed :: "'c \<Rightarrow> time \<Rightarrow> bool"
    and next_open :: "'c \<Rightarrow> time \<Rightarrow> time"
    and horizon :: duration
  assumes next_later: "valid c t \<Longrightarrow> \<not> allowed c t \<Longrightarrow> t < next_open c t"
    and next_allowed: "valid c t \<Longrightarrow> \<not> allowed c t \<Longrightarrow> allowed c (next_open c t)"
    and next_first: "valid c t \<Longrightarrow> \<not> allowed c t \<Longrightarrow> t < u \<Longrightarrow> u < next_open c t \<Longrightarrow> \<not> allowed c u"
    and next_near: "valid c t \<Longrightarrow> \<not> allowed c t \<Longrightarrow> next_open c t - t < horizon"
    and valid_later: "valid c t \<Longrightarrow> t \<le> u \<Longrightarrow> valid c u"
    and horizon_small: "horizon \<le> maxDuration"
begin

lemma wait_exact:
  assumes "valid c t" "\<not> allowed c t"
  shows "time_Sub (next_open c t) t = next_open c t - t"
  using next_later [OF assms] next_near [OF assms] horizon_small
  by (simp add: time_Sub_def maxDuration_def minDuration_def)

lemma wait_positive: "valid c t \<Longrightarrow> \<not> allowed c t \<Longrightarrow> 0 < time_Sub (next_open c t) t"
  using wait_exact next_later by simp

lemma woken_when_allowed:
  "valid c t \<Longrightarrow> \<not> allowed c t \<Longrightarrow> allowed c (time_Add t (time_Sub (next_open c t) t))"
  using wait_exact next_allowed by (simp add: time_Add_def)

lemma next_stable:
  assumes "valid c t" "\<not> allowed c t" "t \<le> u" "u < next_open c t"
  shows "\<not> allowed c u \<and> next_open c u = next_open c t"
proof -
  have nu: "\<not> allowed c u" using next_first [OF assms(1,2)] assms by (cases "u = t") auto
  note vu = valid_later [OF assms(1,3)]
  have "next_open c t \<le> next_open c u"
    using next_first [OF assms(1,2), of "next_open c u"] next_allowed [OF vu nu] next_later [OF vu nu] assms(3)
    by fastforce
  moreover have "next_open c u \<le> next_open c t"
    using next_first [OF vu nu, of "next_open c t"] next_allowed [OF assms(1,2)] assms(4) by fastforce
  ultimately show ?thesis using nu by simp
qed

end

definition calendar_at :: "windows \<Rightarrow> time \<Rightarrow> bool" where
  "calendar_at ws t \<longleftrightarrow> calendar_ok ws \<and> zero_time \<le> t"

interpretation cal: deferral_calendar calendar_at IsAllowed NextOpening "8 * 86400 * 1000000000"
proof
  fix c t u
  assume v: "calendar_at c t" and n: "\<not> IsAllowed c t"
  then have "c \<noteq> []" by (auto simp: IsAllowed_iff)
  with v n have *: "t < NextOpening c t \<and> IsAllowed c (NextOpening c t)
    \<and> NextOpening c t - t < 8 * 86400 * 1000000000
    \<and> (\<forall>u. t < u \<and> u < NextOpening c t \<longrightarrow> \<not> IsAllowed c u)"
    by (intro NextOpening_fixed) (auto simp: calendar_at_def)
  show "t < NextOpening c t" "IsAllowed c (NextOpening c t)" "NextOpening c t - t < 8 * 86400 * 1000000000"
    using * by auto
  show "\<not> IsAllowed c u" if "t < u" "u < NextOpening c t" using * that by blast
qed (auto simp: calendar_at_def maxDuration_def)

section \<open>Reading back what was rendered\<close>

lemma ToLower_append [simp]: "ToLower (s @ t) = ToLower s @ ToLower t"
  by (simp add: ToLower_def)

lemma ToLower_Join: "ToLower (Join '','' xs) = Join '','' (map ToLower xs)"
  by (induction "'',''" xs rule: Join.induct) (simp_all add: ToLower_def to_lower_def)

fun wd_lower :: "weekday \<Rightarrow> string" where
  "wd_lower Sunday = ''sun''" | "wd_lower Monday = ''mon''" | "wd_lower Tuesday = ''tue''"
| "wd_lower Wednesday = ''wed''" | "wd_lower Thursday = ''thu''" | "wd_lower Friday = ''fri''"
| "wd_lower Saturday = ''sat''"

lemma ToLower_wd_short: "ToLower (wd_short wd) = wd_lower wd"
  by (cases wd; hypsubst; code_simp)

lemma wd_short_props:
  "no_space (wd_short wd)" "wd_short wd \<noteq> []" "CHR '';'' \<notin> set (wd_short wd)"
  by (cases wd; simp add: is_space_def)+

lemma wd_lower_props:
  "CHR '','' \<notin> set (wd_lower wd)" "CHR ''-'' \<notin> set (wd_lower wd)" "wd_lower wd \<noteq> []"
  "no_space (wd_lower wd)" "weekdays (wd_lower wd) = Some wd"
  "wd_lower wd \<notin> {''*'', ''daily'', ''all'', ''everyday''}"
  by (cases wd; simp add: is_space_def weekdays_def)+

lemma no_space_Join: "\<forall>x \<in> set xs. no_space x \<Longrightarrow> no_space (Join '','' xs)"
  by (induction "'',''" xs rule: Join.induct) (auto simp: is_space_def)

lemma parse_day_tokens_short:
  "parse_day_tokens out (map wd_lower xs) = Inr (out \<union> set xs)"
  by (induction xs arbitrary: out)
     (simp_all add: wd_lower_props SplitN2_no_sep TrimSpace_no_space Let_def)

lemma not_every_day:
  assumes "ds \<noteq> []"
  shows "Join '','' (map wd_lower ds) \<notin> {''*'', ''daily'', ''all'', ''everyday''}"
proof (cases "tl ds")
  case Nil
  then obtain wd where "ds = [wd]" using assms by (cases ds) auto
  then show ?thesis using wd_lower_props(6) by simp
next
  case (Cons y ys)
  then obtain x where "ds = x # y # ys" by (cases ds) auto
  then have "CHR '','' \<in> set (Join '','' (map wd_lower ds))" by simp
  moreover have "CHR '','' \<notin> set ''*''" "CHR '','' \<notin> set ''daily''" "CHR '','' \<notin> set ''all''"
    "CHR '','' \<notin> set ''everyday''" by simp_all
  ultimately show ?thesis by (metis empty_iff insert_iff)
qed

lemma parseDays_render:
  assumes "D \<noteq> {}"
  shows "parseDays (render_days D) = Inr D"
proof -
  define ds where "ds = filter (\<lambda>wd. wd \<in> D) weekdayOrder"
  have all: "wd \<in> set weekdayOrder" for wd by (cases wd) (simp_all add: weekdayOrder_def)
  have D: "set ds = D" using all by (auto simp: ds_def)
  with assms have ne: "ds \<noteq> []" by auto
  define s where "s = ToLower (TrimSpace (render_days D))"
  have s: "s = Join '','' (map wd_lower ds)"
    by (simp add: s_def ToLower_wd_short render_days_def ds_def [symmetric] TrimSpace_no_space no_space_Join wd_short_props
        ToLower_Join comp_def)
  have "s \<notin> {''*'', ''daily'', ''all'', ''everyday''}"
    unfolding s using ne by (rule not_every_day)
  moreover have "Split (CHR '','') s = map wd_lower ds"
    unfolding s using ne by (intro Split_Join) (auto simp: wd_lower_props)
  ultimately show ?thesis
    using assms by (simp add: parseDays_def s_def [symmetric] Let_def parse_day_tokens_short D)
qed

lemma render_clock_digits:
  assumes "0 \<le> m" "m < 1440"
  obtains a b c d where "is_digit a" "is_digit b" "is_digit c" "is_digit d"
    "render_clock m = [a, b, CHR '':'', c, d]"
    "digit_val a * 10 + digit_val b = m div 60" "digit_val c * 10 + digit_val d = m mod 60"
proof -
  define a b c d where "a = m div 60 div 10" and "b = m div 60 mod 10"
    and "c = m mod 60 div 10" and "d = m mod 60 mod 10"
  have rng: "0 \<le> a" "a \<le> 9" "0 \<le> b" "b \<le> 9" "0 \<le> c" "c \<le> 9" "0 \<le> d" "d \<le> 9"
    using assms by (simp_all add: a_def b_def c_def d_def)
  have hm: "a * 10 + b = m div 60" "c * 10 + d = m mod 60" by (simp_all add: a_def b_def c_def d_def)
  have lim: "m div 60 < 24" "0 \<le> m div 60" "m mod 60 < 60" using assms by simp_all
  have r: "render_clock m = [digit_char a, digit_char b, CHR '':'', digit_char c, digit_char d]"
    using assms lim by (simp add: render_clock_def go_div_nonneg itoa2_two a_def b_def c_def d_def go_mod_nonneg)
  show thesis
    using that [of "digit_char a" "digit_char b" "digit_char c" "digit_char d"] r hm
      digit_char_val [OF rng(1,2)] digit_char_val [OF rng(3,4)] digit_char_val [OF rng(5,6)]
      digit_char_val [OF rng(7,8)] by simp
qed

lemma parseHHMM_render:
  assumes "0 \<le> m" "m < 1440"
  shows "parseHHMM (render_clock m) = Inr m"
proof -
  from assms obtain a b c d where r: "is_digit a" "is_digit b" "is_digit c" "is_digit d"
    "render_clock m = [a, b, CHR '':'', c, d]"
    "digit_val a * 10 + digit_val b = m div 60" "digit_val c * 10 + digit_val d = m mod 60"
    by (rule render_clock_digits)
  have lim: "m div 60 < 24" "m mod 60 < 60" using assms by simp_all
  have "TrimSpace (render_clock m) = render_clock m"
    unfolding r(5) by (rule TrimSpace_no_space) (simp add: r(1-4) is_digit_not, simp add: is_space_def)
  moreover have "parse_clock (render_clock m) = Some (m div 60, m mod 60)"
    using r(1-4) lim by (simp add: r(5) parse_clock_def getnum_def r(6,7))
  ultimately show ?thesis by (simp add: parseHHMM_def)
qed

text \<open>The locations that print as a name the parser resolves to them.\<close>

definition loc_readable :: "tzdb \<Rightarrow> location \<Rightarrow> bool" where
  "loc_readable tzdb l \<longleftrightarrow> loc_name l \<noteq> '''' \<and> no_space (loc_name l) \<and> CHR '';'' \<notin> set (loc_name l)
     \<and> (if loc_name l = ''UTC'' then l = loc_UTC else tzdb (loc_name l) = Inr l)"

definition window_readable :: "tzdb \<Rightarrow> window \<Rightarrow> bool" where
  "window_readable tzdb w \<longleftrightarrow> window_ok w \<and> loc_readable tzdb (w_Loc w)"

lemma render_clock_props:
  assumes "0 \<le> m" "m < 1440"
  shows "no_space (render_clock m) \<and> render_clock m \<noteq> [] \<and> CHR ''-'' \<notin> set (render_clock m)
    \<and> CHR '';'' \<notin> set (render_clock m)"
proof -
  from assms obtain a b c d where r: "is_digit a" "is_digit b" "is_digit c" "is_digit d"
    "render_clock m = [a, b, CHR '':'', c, d]" by (rule render_clock_digits)
  show ?thesis using r(1-4) [THEN is_digit_not] unfolding r(5) by (auto simp: is_space_def)
qed

lemma Join_no_char: "c \<notin> set sep \<Longrightarrow> \<forall>x \<in> set xs. c \<notin> set x \<Longrightarrow> c \<notin> set (Join sep xs)"
  by (induction sep xs rule: Join.induct) auto

lemma render_days_props:
  "D \<noteq> {} \<Longrightarrow> no_space (render_days D) \<and> render_days D \<noteq> [] \<and> CHR '';'' \<notin> set (render_days D)"
proof -
  assume ne: "D \<noteq> {}"
  have semi: "CHR '';'' \<notin> set (Join '','' (map wd_short xs))" for xs
    by (rule Join_no_char) (auto simp: wd_short_props)
  obtain wd where "wd \<in> D" using ne by blast
  moreover have "wd \<in> set weekdayOrder" by (cases wd) (simp_all add: weekdayOrder_def)
  ultimately have "filter (\<lambda>wd. wd \<in> D) weekdayOrder \<noteq> []" by (auto simp: filter_empty_conv)
  then obtain y ys where "filter (\<lambda>wd. wd \<in> D) weekdayOrder = y # ys" by (cases "filter (\<lambda>wd. wd \<in> D) weekdayOrder") auto
  moreover have "Join '','' (map wd_short (y # ys)) \<noteq> []" by (cases ys) (simp_all add: wd_short_props)
  ultimately show ?thesis using semi [of "y # ys"]
    by (auto simp: render_days_def wd_short_props intro!: no_space_Join)
qed

lemma window_readable_loc:
  assumes "window_readable tzdb w"
  shows "parseWindow tzdb (render_days (w_Days w)) (render_clock (w_Start w)) (render_clock (w_End w))
    (loc_name (w_Loc w)) = Inr w"
  using assms
  by (auto simp: window_readable_def loc_readable_def window_ok_def parseWindow_def parseDays_render
      parseHHMM_render)

lemma parse_part_render:
  assumes "window_readable tzdb w"
  shows "parse_part tzdb (render_window w) = Inr w"
proof -
  let ?d = "render_days (w_Days w)" and ?s = "render_clock (w_Start w)" and ?e = "render_clock (w_End w)"
    and ?l = "loc_name (w_Loc w)"
  have ok: "window_ok w" and lr: "loc_readable tzdb (w_Loc w)" using assms by (simp_all add: window_readable_def)
  have d: "no_space ?d" "?d \<noteq> []" using ok render_days_props by (simp_all add: window_ok_def)
  have se: "no_space (?s @ CHR ''-'' # ?e)" "?s @ CHR ''-'' # ?e \<noteq> []" "CHR ''-'' \<notin> set ?s"
    using ok render_clock_props [of "w_Start w"] render_clock_props [of "w_End w"]
    by (simp_all add: window_ok_def is_space_def)
  have l: "no_space ?l" "?l \<noteq> []" using lr by (simp_all add: loc_readable_def)
  have rw: "render_window w = ?d @ CHR '' '' # (?s @ CHR ''-'' # ?e) @ CHR '' '' # ?l"
    by (simp add: render_window_def)
  have "Fields (render_window w) = [?d, ?s @ CHR ''-'' # ?e, ?l]"
    unfolding rw by (simp only: Fields_word [OF d] Fields_word [OF se(1,2)] Fields_last [OF l])
  then show ?thesis
    using window_readable_loc [OF assms] by (simp add: parse_part_def SplitN2_append [OF se(3)])
qed

lemma render_window_props:
  assumes "window_readable tzdb w"
  shows "render_window w \<noteq> []" "TrimSpace (render_window w) = render_window w"
    "CHR '';'' \<notin> set (render_window w)" "\<not> is_space (hd (render_window w))" "\<not> is_space (last (render_window w))"
proof -
  have ok: "window_ok w" and lr: "loc_readable tzdb (w_Loc w)" using assms by (simp_all add: window_readable_def)
  have d: "no_space (render_days (w_Days w))" "render_days (w_Days w) \<noteq> []" "CHR '';'' \<notin> set (render_days (w_Days w))"
    using ok render_days_props by (simp_all add: window_ok_def)
  have l: "no_space (loc_name (w_Loc w))" "loc_name (w_Loc w) \<noteq> []" "CHR '';'' \<notin> set (loc_name (w_Loc w))"
    using lr by (simp_all add: loc_readable_def)
  show "render_window w \<noteq> []" by (simp add: render_window_def)
  show h: "\<not> is_space (hd (render_window w))"
    using d(1,2) by (cases "render_days (w_Days w)") (simp_all add: render_window_def)
  show t: "\<not> is_space (last (render_window w))"
    using no_space_set [OF l(1), of "last (loc_name (w_Loc w))"] l(2) by (simp add: render_window_def)
  show "TrimSpace (render_window w) = render_window w" using h t by (intro TrimSpace_id) simp
  show "CHR '';'' \<notin> set (render_window w)"
    using d(3) l(3) ok render_clock_props [of "w_Start w"] render_clock_props [of "w_End w"]
    by (simp add: render_window_def window_ok_def)
qed

lemma TrimSpace_space: "TrimSpace (CHR '' '' # s) = TrimSpace s"
  by (simp add: TrimSpace_def is_space_def)

lemma Split_joined:
  "xs \<noteq> [] \<Longrightarrow> \<forall>x \<in> set xs. CHR '';'' \<notin> set x \<Longrightarrow>
   Split (CHR '';'') (Join ''; '' xs) = hd xs # map ((#) (CHR '' '')) (tl xs)"
proof (induction "''; ''" xs rule: Join.induct)
  case (3 x y ys)
  have c: "Split (CHR '';'') (CHR '' '' # s) = (CHR '' '' # hd (Split (CHR '';'') s)) # tl (Split (CHR '';'') s)" for s
    by (cases "Split (CHR '';'') s") simp_all
  show ?case using 3 by (simp add: Split_append_sep c del: Split.simps)
qed (simp_all add: Split_no_sep)

lemma parse_parts_render:
  "\<forall>w \<in> set ws. window_readable tzdb w \<Longrightarrow>
   parse_parts tzdb acc (map (\<lambda>w. render_window w) ws) = Inr (acc @ ws) \<and>
   parse_parts tzdb acc (map (\<lambda>w. CHR '' '' # render_window w) ws) = Inr (acc @ ws)"
proof (induction ws arbitrary: acc)
  case (Cons w ws)
  then have w: "window_readable tzdb w" by simp
  show ?case
    using Cons by (simp add: render_window_props [OF w] TrimSpace_space parse_part_render [OF w])
qed simp

lemma sort_map_render: "sort (map render_window ws) = map render_window (sort_key render_window ws)"
  by (rule properties_for_sort) simp_all

lemma Join_ends:
  assumes "xs \<noteq> []" "\<forall>x \<in> set xs. x \<noteq> [] \<and> \<not> is_space (hd x) \<and> \<not> is_space (last x)"
  shows "Join sep xs \<noteq> [] \<and> \<not> is_space (hd (Join sep xs)) \<and> \<not> is_space (last (Join sep xs))"
  using assms by (induction sep xs rule: Join.induct) auto

text \<open>
  C32: rendering a non-empty list of windows and parsing the text gives the same windows back, sorted by
  their text. It holds for every window a parser can produce whose location prints as the name it was
  loaded under (a name without blanks and without a semicolon). The empty list prints as the word
  always, which the parser rejects, so it is left out.
\<close>

theorem windows_string_roundtrip:
  assumes "ws \<noteq> []" and "\<forall>w \<in> set ws. window_readable tzdb w"
  shows "ParseString tzdb (Windows_String ws) = Inr (sort_key render_window ws)
    \<and> mset (sort_key render_window ws) = mset ws"
proof -
  define vs where "vs = sort_key render_window ws"
  have set_vs: "set vs = set ws" and ne: "vs \<noteq> []"
    using assms(1) by (simp_all add: vs_def) (metis set_empty set_sort)
  have r: "\<forall>w \<in> set vs. window_readable tzdb w" using assms(2) set_vs by simp
  define s where "s = Join ''; '' (map render_window vs)"
  have s: "Windows_String ws = s"
    using assms(1) by (simp add: Windows_String_def s_def vs_def sort_map_render)
  have ends: "s \<noteq> [] \<and> \<not> is_space (hd s) \<and> \<not> is_space (last s)"
    unfolding s_def using r ne by (intro Join_ends) (auto simp: render_window_props)
  have trim: "TrimSpace s = s" using ends by (intro TrimSpace_id) simp
  obtain v vs' where vs: "vs = v # vs'" using ne by (cases vs) auto
  have "Split (CHR '';'') s = render_window v # map (\<lambda>w. CHR '' '' # render_window w) vs'"
    unfolding s_def using r by (subst Split_joined) (auto simp: vs render_window_props)
  moreover have "parse_parts tzdb [] (render_window v # map (\<lambda>w. CHR '' '' # render_window w) vs') = Inr vs"
    using r parse_parts_render [of "[v]" tzdb "[]"] parse_parts_render [of vs' tzdb "[v]"]
    by (auto simp: vs Let_def split: sum.splits if_splits)
  ultimately have "ParseString tzdb s = Inr vs" using ends by (simp add: ParseString_def trim)
  then show ?thesis by (simp add: s vs_def)
qed

definition weekend_window :: window where
  "weekend_window = \<lparr>w_Days = {Saturday, Sunday}, w_Start = 60, w_End = 330, w_Loc = loc_UTC\<rparr>"

lemma windows_string_roundtrip_witness:
  "ParseString (\<lambda>n. Inl (ErrMsg n)) (Windows_String [weekend_window]) = Inr [weekend_window]"
  using windows_string_roundtrip [of "[weekend_window]" "\<lambda>n. Inl (ErrMsg n)"]
  by (simp add: weekend_window_def window_readable_def window_ok_def loc_readable_def loc_UTC_def is_space_def)

text \<open>
  C17: a deferral sleeps exactly to the first opening. With windows the parser accepts, in zones whose
  offset does not change, at an instant outside all of them: the delay to the next opening is positive,
  waking after it lands in a window, no instant before that was in one, and re-evaluating at any such
  instant computes the same opening again.
\<close>

theorem deferral_wakes_at_first_opening:
  assumes "calendar_ok ws" "zero_time \<le> t" "\<not> IsAllowed ws t"
  shows "0 < time_Sub (NextOpening ws t) t
    \<and> IsAllowed ws (time_Add t (time_Sub (NextOpening ws t) t))
    \<and> (\<forall>u. t \<le> u \<and> u < NextOpening ws t \<longrightarrow> \<not> IsAllowed ws u \<and> NextOpening ws u = NextOpening ws t)"
proof -
  have v: "calendar_at ws t" using assms by (simp add: calendar_at_def)
  show ?thesis
    using cal.wait_positive [OF v assms(3)] cal.woken_when_allowed [OF v assms(3)]
      cal.next_stable [OF v assms(3)] by blast
qed

text \<open>Thursday 1 January 1970 at noon: the next opening is Saturday at 01:00, 37 hours later.\<close>

lemma fixed_loc_UTC: "fixed_loc loc_UTC"
  by (auto simp: fixed_loc_def fixed_zone_def loc_UTC_def loc_offset_def)

lemma deferral_wakes_at_first_opening_witness:
  "NextOpening [weekend_window] 43200000000000 = 176400000000000
   \<and> IsAllowed [weekend_window] 176400000000000 \<and> \<not> IsAllowed [weekend_window] 176399999999999"
proof -
  have n: "NextOpening [weekend_window] 43200000000000 = 176400000000000" by code_simp
  have a: "zero_time \<le> 43200000000000" "\<not> IsAllowed [weekend_window] 43200000000000" by code_simp+
  have c: "calendar_ok [weekend_window]"
    using fixed_loc_UTC by (simp add: calendar_ok_def weekend_window_def window_ok_def)
  have d: "time_Sub 176400000000000 43200000000000 = 133200000000000" by code_simp
  show ?thesis
    using deferral_wakes_at_first_opening [OF c a] unfolding n d by (simp add: n)
qed

text \<open>
  No configured window ever admits the last minute of a local day: the end of a parsed window is a
  clock time, at most 23:59, and it is exclusive. Every window that a parser returns, from the
  controller's text, from specs or from a policy's maintenance windows, is well formed.
\<close>

theorem parsed_windows_skip_last_minute:
  assumes "ParseString tzdb s = Inr ws \<or> ParseSpecs tzdb specs = Inr ws \<or> FromWindows tzdb ms = Inr ws"
    and "w \<in> set ws"
  shows "window_ok w \<and> (time_Hour (w_Loc w) t = 23 \<and> time_Minute (w_Loc w) t = 59 \<longrightarrow> \<not> contains w t)"
proof -
  have "window_ok w" using assms ParseString_ok ParseSpecs_ok FromWindows_ok by blast
  then show ?thesis by (auto simp: window_ok_def contains_def Let_def)
qed

lemma parsed_windows_skip_last_minute_witness:
  "\<exists>w. ParseString (\<lambda>n. Inl (ErrMsg n)) ''daily 00:00-23:59 UTC'' = Inr [w]
     \<and> \<not> contains w 86399000000000 \<and> contains w 86339000000000"
proof -
  have e: "case ParseString (\<lambda>n. Inl (ErrMsg n)) ''daily 00:00-23:59 UTC'' of
      Inr [w] \<Rightarrow> contains w 86339000000000 \<and> time_Hour (w_Loc w) 86399000000000 = 23
        \<and> time_Minute (w_Loc w) 86399000000000 = 59
    | _ \<Rightarrow> False" by code_simp
  then obtain w where p: "ParseString (\<lambda>n. Inl (ErrMsg n)) ''daily 00:00-23:59 UTC'' = Inr [w]"
    and w: "contains w 86339000000000" "time_Hour (w_Loc w) 86399000000000 = 23"
      "time_Minute (w_Loc w) 86399000000000 = 59"
    by (auto split: sum.splits list.splits)
  then have "\<not> contains w 86399000000000"
    using parsed_windows_skip_last_minute [of "\<lambda>n. Inl (ErrMsg n)" "''daily 00:00-23:59 UTC''" "[w]" "[]" "[]" w]
    by simp
  with p w show ?thesis by blast
qed

lemma expandRange_days:
  "set (expandRange a b) = {d. (wd_int d - wd_int a) mod 7 \<le> (wd_int b - wd_int a) mod 7}
   \<and> distinct (expandRange a b) \<and> last (expandRange a b) = b"
proof -
  have "d \<in> set (expandRange a b) \<longleftrightarrow> (wd_int d - wd_int a) mod 7 \<le> (wd_int b - wd_int a) mod 7" for d
    by (cases a; cases b; cases d; simp add: expandRange_def wd_of_int_def Let_def)
  moreover have "distinct (expandRange a b) \<and> last (expandRange a b) = b"
    by (cases a; cases b; simp add: expandRange_def wd_of_int_def Let_def)
  ultimately show ?thesis by blast
qed

end
