(* ===== verification/GoFloat.thy ===== *)
theory GoFloat
  imports GoTime "HOL-Library.Log_Nat" Complex_Main
begin

text \<open>
  IEEE-754 binary64 arithmetic as Go's \<open>float64\<close> has it on the values the detector computes with:
  a finite \<open>float64\<close> is the rational it denotes, and every operation rounds its exact result to 53
  significant bits, ties to even. The exponent is unbounded here: the operands are int64 counts and
  second offsets, whose products, sums and quotients stay between 2 to the -200 and 2 to the 400,
  inside binary64's normal range. Conversion to \<open>int64\<close> truncates; outside the int64 range the
  language leaves the result to the implementation, and the value of amd64 is taken.
\<close>

section \<open>Rounding\<close>

text \<open>Round half to even, on the rationals.\<close>

definition rhe :: "rat \<Rightarrow> int" where
  "rhe q = (let f = \<lfloor>q\<rfloor>; r = q - of_int f in
     if r < 1 / 2 then f else if r > 1 / 2 then f + 1 else if even f then f else f + 1)"

text \<open>The binary exponent of a positive rational: the greatest \<open>e\<close> with \<open>2\<close> to the \<open>e\<close> at most \<open>x\<close>.\<close>

definition pow2 :: "int \<Rightarrow> rat" where
  "pow2 e = (if e \<ge> 0 then 2 ^ nat e else 1 / 2 ^ nat (- e))"

definition flog2 :: "rat \<Rightarrow> int" where
  "flog2 x = (case quotient_of x of (a, b) \<Rightarrow>
     let k = bitlen a - bitlen b in if pow2 k \<le> x then k else k - 1)"

definition rnd64 :: "rat \<Rightarrow> rat" where
  "rnd64 x = (if x = 0 then 0
     else let e = flog2 \<bar>x\<bar> - 52 in of_int (rhe (x / pow2 e)) * pow2 e)"

definition f64_of_int :: "int \<Rightarrow> rat" where
  "f64_of_int n = rnd64 (of_int n)"

text \<open>\<open>int64(f)\<close>.\<close>

definition f64_trunc :: "rat \<Rightarrow> int" where
  "f64_trunc f = (if f < 0 then \<lceil>f\<rceil> else \<lfloor>f\<rfloor>)"

definition i64_of_f64 :: "rat \<Rightarrow> int" where
  "i64_of_f64 f = (if in_i64 (f64_trunc f) then f64_trunc f else - (2 ^ 63))"

section \<open>Facts about rounding\<close>

lemma rhe_of_int [simp]: "rhe (of_int n) = n"
  by (simp add: rhe_def)

lemma rhe_error: "\<bar>of_int (rhe q) - q\<bar> \<le> 1 / 2"
proof -
  have "of_int \<lfloor>q\<rfloor> \<le> q" "q < of_int \<lfloor>q\<rfloor> + 1" by linarith+
  then show ?thesis by (auto simp: rhe_def Let_def abs_le_iff)
qed

lemma rhe_ge: "of_int n \<le> q \<Longrightarrow> n \<le> rhe q"
proof -
  assume "of_int n \<le> q"
  then have "n \<le> \<lfloor>q\<rfloor>" by (simp add: le_floor_iff)
  then show ?thesis by (auto simp: rhe_def Let_def)
qed

lemma pow2_pos [simp]: "0 < pow2 e"
  by (simp add: pow2_def)

lemma pow2_nonzero [simp]: "pow2 e \<noteq> 0"
  by (metis pow2_pos less_irrefl)

lemma pow2_powi: "pow2 e = 2 powi e"
  by (simp add: pow2_def power_int_def power_one_over inverse_eq_divide)

lemma pow2_add: "pow2 (a + b) = pow2 a * pow2 b"
  by (simp add: pow2_powi power_int_add)

lemma pow2_nat: "pow2 (int n) = 2 ^ n"
  by (simp add: pow2_def)

lemma pow2_mono: "a \<le> b \<Longrightarrow> pow2 a \<le> pow2 b"
  by (simp add: pow2_powi power_int_increasing)

lemma bitlen_pos_bounds:
  assumes "0 < n"
  shows "0 \<le> bitlen n" and "pow2 (bitlen n - 1) \<le> of_int n" and "of_int n < pow2 (bitlen n)"
proof -
  show nn: "0 \<le> bitlen n" by (rule bitlen_nonneg)
  have b: "2 ^ nat (bitlen n - 1) \<le> n" "n < 2 ^ nat (bitlen n)"
    using bitlen_bounds [OF assms] by auto
  have "1 \<le> bitlen n" using assms bitlen_le_iff_power [of n 0] by (cases "bitlen n = 0") (use nn in auto)
  then have "pow2 (bitlen n - 1) = of_int (2 ^ nat (bitlen n - 1))" by (simp add: pow2_def)
  then show "pow2 (bitlen n - 1) \<le> of_int n" using b(1) by (simp only: of_int_le_iff)
  have "pow2 (bitlen n) = of_int (2 ^ nat (bitlen n))" using nn by (simp add: pow2_def)
  then show "of_int n < pow2 (bitlen n)" using b(2) by (simp only: of_int_less_iff)
qed

lemma flog2_bounds:
  assumes "0 < x"
  shows "pow2 (flog2 x) \<le> x \<and> x < pow2 (flog2 x + 1)"
proof -
  obtain a b where q: "quotient_of x = (a, b)" by (cases "quotient_of x")
  then have b: "0 < b" by (rule quotient_of_denom_pos)
  have x: "x = of_int a / of_int b" by (rule quotient_of_div [OF q])
  have a: "0 < a" using assms b x by (simp add: zero_less_divide_iff)
  define k where "k = bitlen a - bitlen b"
  note A = bitlen_pos_bounds [OF a] and B = bitlen_pos_bounds [OF b]
  have "of_int a * pow2 (bitlen b - 1) \<le> of_int a * of_int b"
    using A B a by (intro mult_left_mono) auto
  have up: "x < pow2 (k + 1)"
  proof -
    have "of_int a < pow2 (bitlen a)" by (rule A)
    also have "\<dots> = pow2 (k + 1) * pow2 (bitlen b - 1)" by (simp add: k_def flip: pow2_add)
    also have "\<dots> \<le> pow2 (k + 1) * of_int b" using B(2) by (simp add: less_imp_le)
    finally show ?thesis using b by (simp add: x divide_less_eq)
  qed
  have lo: "pow2 (k - 1) \<le> x"
  proof -
    have "pow2 (k - 1) * of_int b \<le> pow2 (k - 1) * pow2 (bitlen b)"
      using B(3) by (simp add: less_imp_le)
    also have "\<dots> = pow2 (bitlen a - 1)" by (simp add: k_def flip: pow2_add)
    also have "\<dots> \<le> of_int a" by (rule A)
    finally show ?thesis using b by (simp add: x le_divide_eq)
  qed
  show ?thesis using up lo by (auto simp: flog2_def q Let_def k_def)
qed

lemma pow2_less_imp: "pow2 a < pow2 b \<Longrightarrow> a < b"
  using pow2_mono [of b a] by (meson not_le not_less)

lemma rnd64_zero [simp]: "rnd64 0 = 0"
  by (simp add: rnd64_def)

text \<open>Rounding is exact on the integers of at most 53 bits.\<close>

lemma rnd64_int:
  assumes "\<bar>n\<bar> \<le> 2 ^ 53"
  shows "rnd64 (of_int n) = of_int n"
proof (cases "n = 0")
  case False
  define x :: rat where "x = of_int n"
  define e where "e = flog2 \<bar>x\<bar> - 52"
  have x0: "0 < \<bar>x\<bar>" using False by (simp add: x_def)
  note fb = flog2_bounds [OF x0]
  have "\<bar>x\<bar> = of_int \<bar>n\<bar>" by (simp add: x_def)
  also have "\<dots> \<le> of_int (2 ^ 53)" using assms by (simp only: of_int_le_iff)
  finally have x53: "\<bar>x\<bar> \<le> 2 ^ 53" by simp
  have ex: "\<exists>m. x / pow2 e = of_int m"
  proof (cases "e \<le> 0")
    case True
    then have "x / pow2 e = of_int (n * 2 ^ nat (- e))"
      by (auto simp: pow2_def x_def)
    then show ?thesis by blast
  next
    case False
    have "pow2 (flog2 \<bar>x\<bar>) \<le> pow2 53" using fb x53 by (simp add: pow2_def)
    then have "\<not> flog2 \<bar>x\<bar> > 53" using pow2_mono [of 54 "flog2 \<bar>x\<bar>"] by (auto simp: pow2_def)
    with False have e1: "e = 1" "flog2 \<bar>x\<bar> = 53" by (auto simp: e_def)
    with fb x53 have "\<bar>x\<bar> = 2 ^ 53" by (simp add: pow2_def)
    then have "x = of_int (2 ^ 53) \<or> x = of_int (- (2 ^ 53))" by auto
    then have "x / pow2 e = of_int (2 ^ 52) \<or> x / pow2 e = of_int (- (2 ^ 52))"
      by (auto simp: e1 pow2_def)
    then show ?thesis by blast
  qed
  then obtain m where m: "x / pow2 e = of_int m" by blast
  then have "x = of_int m * pow2 e" by (simp add: field_simps)
  moreover have "rnd64 x = of_int (rhe (x / pow2 e)) * pow2 e"
    using x0 by (simp add: rnd64_def e_def Let_def)
  ultimately show ?thesis using m by (simp add: x_def)
qed simp

text \<open>The sign survives rounding.\<close>

lemma rnd64_pos: "0 < x \<Longrightarrow> 0 < rnd64 x"
proof -
  assume x: "0 < x"
  define e where "e = flog2 x - 52"
  have "pow2 52 * pow2 e = pow2 (flog2 x)" by (simp add: e_def flip: pow2_add)
  then have "pow2 52 * pow2 e \<le> x" using flog2_bounds [OF x] by simp
  then have "of_int (2 ^ 52) \<le> x / pow2 e" by (simp add: le_divide_eq pow2_def)
  then have "2 ^ 52 \<le> rhe (x / pow2 e)" by (rule rhe_ge)
  then have "0 < rhe (x / pow2 e)" by simp
  then show ?thesis using x by (simp add: rnd64_def Let_def e_def)
qed

lemma rhe_neg: "q \<le> - 1 \<Longrightarrow> rhe q < 0"
proof -
  assume "q \<le> - 1"
  then have "\<lfloor>q\<rfloor> \<le> -1 " by (simp add: floor_le_iff)
  moreover have "of_int \<lfloor>q\<rfloor> \<le> q" by simp
  ultimately show ?thesis using \<open>q \<le> - 1\<close> by (auto simp: rhe_def Let_def) 
qed

lemma rnd64_neg: "x < 0 \<Longrightarrow> rnd64 x < 0"
proof -
  assume x: "x < 0"
  then have ax: "0 < \<bar>x\<bar>" by simp
  define e where "e = flog2 \<bar>x\<bar> - 52"
  have "pow2 52 * pow2 e = pow2 (flog2 \<bar>x\<bar>)" by (simp add: e_def flip: pow2_add)
  then have "pow2 52 * pow2 e \<le> - x" using flog2_bounds [OF ax] x by simp
  then have le: "x / pow2 e \<le> - (2 ^ 52)" by (simp add: divide_le_eq pow2_def)
  have "- (2 ^ 52) \<le> (- 1 :: rat)" by simp
  with le have "rhe (x / pow2 e) < 0" by (intro rhe_neg) (rule order_trans)
  then show ?thesis using x by (simp add: rnd64_def Let_def e_def mult_neg_pos)
qed

lemma rnd64_sgn: "rnd64 x \<le> 0 \<longleftrightarrow> x \<le> 0"
  using rnd64_pos [of x] rnd64_neg [of x] by (cases x "0 :: rat" rule: linorder_cases) auto

text \<open>The relative error is at most half a unit in the last of 53 places.\<close>

lemma rnd64_error: "\<bar>rnd64 x - x\<bar> \<le> \<bar>x\<bar> / 2 ^ 53"
proof (cases "x = 0")
  case False
  then have x0: "0 < \<bar>x\<bar>" by simp
  define e where "e = flog2 \<bar>x\<bar> - 52"
  have "rnd64 x - x = (of_int (rhe (x / pow2 e)) - x / pow2 e) * pow2 e"
    using False by (simp add: rnd64_def Let_def e_def left_diff_distrib)
  then have "\<bar>rnd64 x - x\<bar> = \<bar>of_int (rhe (x / pow2 e)) - x / pow2 e\<bar> * pow2 e"
    by (simp add: abs_mult abs_of_pos)
  also have "\<dots> \<le> 1 / 2 * pow2 e"
    by (intro mult_right_mono rhe_error) (simp add: less_imp_le)
  also have "\<dots> = pow2 (flog2 \<bar>x\<bar>) / 2 ^ 53"
    using pow2_add [of e 52] by (simp add: e_def pow2_def [of 52])
  also have "\<dots> \<le> \<bar>x\<bar> / 2 ^ 53"
    using flog2_bounds [OF x0] by (intro divide_right_mono) auto
  finally show ?thesis .
qed simp

lemma f64_of_int_exact: "\<bar>n\<bar> \<le> 2 ^ 53 \<Longrightarrow> f64_of_int n = of_int n"
  by (simp add: f64_of_int_def rnd64_int)

section \<open>Durations in seconds\<close>

text \<open>\<open>Duration.Seconds\<close>: whole seconds plus the fraction, each converted and the sum rounded.\<close>

definition dur_Seconds :: "(rat \<Rightarrow> rat) \<Rightarrow> duration \<Rightarrow> rat" where
  "dur_Seconds r d =
     (let sec = go_div d Second; nsec = d - sec * Second
      in r (r (of_int sec) + r (r (of_int nsec) / 1000000000)))"

text \<open>Without rounding it is the exact quotient.\<close>

lemma dur_Seconds_exact: "dur_Seconds id d = of_int d / 1000000000"
  by (simp add: dur_Seconds_def Let_def Second_def field_simps)

lemma go_div_mult [simp]: "0 < b \<Longrightarrow> go_div (k * b) b = k"
proof (cases k "0 :: int" rule: linorder_cases)
  case less
  assume b: "0 < b"
  have "- (k * b) div b = - k" using b by (metis mult_minus_left nonzero_mult_div_cancel_right less_irrefl)
  with less b show ?thesis by (simp add: go_div_def abs_mult sgn_mult)
qed (simp_all add: go_div_def abs_mult sgn_mult)

lemma dur_Seconds_whole: "\<bar>k\<bar> \<le> 2 ^ 53 \<Longrightarrow> dur_Seconds rnd64 (k * Second) = of_int k"
  by (simp add: dur_Seconds_def Second_def rnd64_int)

end
