(* ===== verification/GoFormat.thy ===== *)
theory GoFormat
  imports GoTime GoStrings GoFloat
begin

text \<open>
  The formatting of the standard library that the program prints with: times in UTC under the RFC 3339
  layout and the compact layout of profile keys, durations, fixed-precision floats, base64 and hex.
\<close>

section \<open>Padding and times\<close>

definition pad0 :: "nat \<Rightarrow> int \<Rightarrow> string" where
  "pad0 w n =
     (let s = itoa \<bar>n\<bar>; z = replicate (w - length s) CHR ''0''
      in if n < 0 then CHR ''-'' # z @ s else z @ s)"

text \<open>\<open>t.UTC().Format(time.RFC3339)\<close> and \<open>t.UTC().Format("20060102T150405Z")\<close>.\<close>

definition format_RFC3339_UTC :: "time \<Rightarrow> string" where
  "format_RFC3339_UTC t = (case time_Date loc_UTC t of (y, mo, d) \<Rightarrow>
     pad0 4 y @ ''-'' @ pad0 2 mo @ ''-'' @ pad0 2 d @ ''T'' @ pad0 2 (time_Hour loc_UTC t) @ '':''
       @ pad0 2 (time_Minute loc_UTC t) @ '':'' @ pad0 2 (time_Second loc_UTC t) @ ''Z'')"

definition format_compact_UTC :: "time \<Rightarrow> string" where
  "format_compact_UTC t = (case time_Date loc_UTC t of (y, mo, d) \<Rightarrow>
     pad0 4 y @ pad0 2 mo @ pad0 2 d @ ''T'' @ pad0 2 (time_Hour loc_UTC t)
       @ pad0 2 (time_Minute loc_UTC t) @ pad0 2 (time_Second loc_UTC t) @ ''Z'')"

section \<open>Durations\<close>

text \<open>A number of \<open>unit\<close>s with at most \<open>prec\<close> decimals, trailing zeros dropped.\<close>

definition frac_str :: "nat \<Rightarrow> int \<Rightarrow> int \<Rightarrow> string" where
  "frac_str prec v unit =
     (let ds = rev (dropWhile (\<lambda>c. c = CHR ''0'') (rev (pad0 prec (v mod unit))))
      in itoa (v div unit) @ (if ds = [] then [] else CHR ''.'' # ds))"

text \<open>\<open>Duration.String\<close>: the sub-second forms, else hours, minutes and fractional seconds.\<close>

definition dur_String :: "duration \<Rightarrow> string" where
  "dur_String d =
     (let u = \<bar>d\<bar>;
          s = (if u = 0 then ''0s''
               else if u < 1000 then itoa u @ ''ns''
               else if u < 1000000 then frac_str 3 u 1000 @ [CHR 0xC2, CHR 0xB5, CHR ''s'']
               else if u < 1000000000 then frac_str 6 u 1000000 @ ''ms''
               else let m = u div (60 * 1000000000); sec = frac_str 9 (u mod (60 * 1000000000)) 1000000000 @ ''s''
                    in if m = 0 then sec
                       else let h = m div 60; ms = itoa (m mod 60) @ ''m'' @ sec
                            in if h = 0 then ms else itoa h @ ''h'' @ ms)
      in if d < 0 then CHR ''-'' # s else s)"

text \<open>\<open>Duration.Round\<close> to a positive multiple, halves away from zero, saturating.\<close>

definition dur_Round :: "duration \<Rightarrow> duration \<Rightarrow> duration" where
  "dur_Round d m =
     (if m \<le> 0 then d
      else let r = \<bar>d\<bar> mod m; lo = \<bar>d\<bar> - r;
               v = (if r + r < m then lo else lo + m);
               s = (if d < 0 then - v else v)
           in if s < minDuration then minDuration else if maxDuration < s then maxDuration else s)"

section \<open>Floats, hex and base64\<close>

text \<open>\<open>%.1f\<close> of a non-negative float: its value to the nearest tenth, ties to the even tenth.\<close>

definition format_f1 :: "rat \<Rightarrow> string" where
  "format_f1 r = (let n = rhe (r * 10) in itoa (n div 10) @ ''.'' @ itoa (n mod 10))"

definition hex_digit :: "nat \<Rightarrow> char" where
  "hex_digit n = ''0123456789abcdef'' ! n"

definition hex_encode :: "nat list \<Rightarrow> string" where
  "hex_encode bs = concat (map (\<lambda>b. [hex_digit ((b div 16) mod 16), hex_digit (b mod 16)]) bs)"

definition base64_alphabet :: string where
  "base64_alphabet = ''ABCDEFGHIJKLMNOPQRSTUVWXYZabcdefghijklmnopqrstuvwxyz0123456789+/''"

definition base64_char :: "nat \<Rightarrow> char" where
  "base64_char n = base64_alphabet ! (n mod 64)"

fun base64_encode :: "nat list \<Rightarrow> string" where
  "base64_encode [] = []"
| "base64_encode [a] = [base64_char (a div 4), base64_char ((a mod 4) * 16), CHR ''='', CHR ''='']"
| "base64_encode [a, b] =
     [base64_char (a div 4), base64_char ((a mod 4) * 16 + b div 16), base64_char ((b mod 16) * 4), CHR ''='']"
| "base64_encode (a # b # c # r) =
     [base64_char (a div 4), base64_char ((a mod 4) * 16 + b div 16),
      base64_char ((b mod 16) * 4 + c div 64), base64_char (c mod 64)] @ base64_encode r"

section \<open>Concrete values\<close>

lemma format_examples:
  "format_RFC3339_UTC 1709210096000000000 = ''2024-02-29T12:34:56Z''"
  "format_compact_UTC 1709210096000000000 = ''20240229T123456Z''"
  by code_simp+

lemma format_f1_half: "format_f1 (9 / 4) = ''2.2''"
  by code_simp

lemma base64_length: "length (base64_encode bs) = 4 * ((length bs + 2) div 3)"
proof (induction bs rule: base64_encode.induct)
  case (4 a b c r)
  have "(5 + length r) div 3 = Suc ((2 + length r) div 3)" by (simp add: div_add_self2 flip: add.assoc)
  then show ?case using 4 by simp
qed simp_all

end
