(* ===== verification/Gate.thy ===== *)
theory Gate
  imports GoTime
begin

text \<open>
  \<open>internal/gate/gate.go\<close>: the in-memory concurrency control of restarts, a set of in-flight slots keyed
  by workload with a global cap. Every operation holds the mutex, so an operation is one atomic
  function on the gate; interleavings of the reconciler, the finalizer and the expirer are sequences
  of operations.
\<close>

section \<open>The code\<close>

datatype gate_outcome = Acquired | AlreadyInF | CapReached

record gate =
  g_cap :: int
  g_inflight :: "(string, time) fmap"

definition NewGate :: "int \<Rightarrow> gate" where
  "NewGate capacity = \<lparr>g_cap = capacity, g_inflight = fmempty\<rparr>"

definition TryAcquire :: "gate \<Rightarrow> string \<Rightarrow> time \<Rightarrow> gate_outcome \<times> gate" where
  "TryAcquire g key now =
     (case fmlookup (g_inflight g) key of
        Some _ \<Rightarrow> (AlreadyInF, g)
      | None \<Rightarrow>
          if g_cap g > 0 \<and> int (fcard (fmdom (g_inflight g))) \<ge> g_cap g then (CapReached, g)
          else (Acquired, g\<lparr>g_inflight := fmupd key now (g_inflight g)\<rparr>))"

definition Release :: "gate \<Rightarrow> string \<Rightarrow> gate" where
  "Release g key = g\<lparr>g_inflight := fmdrop key (g_inflight g)\<rparr>"

definition Holds :: "gate \<Rightarrow> string \<Rightarrow> bool" where
  "Holds g key = (case fmlookup (g_inflight g) key of Some _ \<Rightarrow> True | None \<Rightarrow> False)"

definition Inflight :: "gate \<Rightarrow> nat" where
  "Inflight g = fcard (fmdom (g_inflight g))"

text \<open>The released keys come in the iteration order of a Go map, which is unspecified: a set.\<close>

definition ExpireOlderThan :: "gate \<Rightarrow> time \<Rightarrow> duration \<Rightarrow> string fset \<times> gate" where
  "ExpireOlderThan g now timeout =
     (let old = (\<lambda>k. case fmlookup (g_inflight g) k of None \<Rightarrow> False
                     | Some t \<Rightarrow> time_Sub now t \<ge> timeout)
      in (ffilter old (fmdom (g_inflight g)),
          g\<lparr>g_inflight := fmfilter (\<lambda>k. \<not> old k) (g_inflight g)\<rparr>))"

definition GateReconcile :: "gate \<Rightarrow> (string, time) fmap \<Rightarrow> gate" where
  "GateReconcile g active = g\<lparr>g_inflight := active\<rparr>"

section \<open>Lookups after each operation\<close>

lemma Holds_iff: "Holds g k \<longleftrightarrow> fmlookup (g_inflight g) k \<noteq> None"
  by (simp add: Holds_def split: option.splits)

lemma Holds_fmdom: "Holds g k \<longleftrightarrow> k |\<in>| fmdom (g_inflight g)"
  by (auto simp: Holds_iff fmlookup_dom_iff)

lemma NewGate_simps [simp]: "\<not> Holds (NewGate c) k" "Inflight (NewGate c) = 0" "g_cap (NewGate c) = c"
  by (simp_all add: Holds_def NewGate_def Inflight_def)

lemma TryAcquire_cap [simp]: "g_cap (snd (TryAcquire g k t)) = g_cap g"
  by (simp add: TryAcquire_def split: option.splits)

lemma Release_cap [simp]: "g_cap (Release g k) = g_cap g"
  by (simp add: Release_def)

lemma Expire_cap [simp]: "g_cap (snd (ExpireOlderThan g now to)) = g_cap g"
  by (simp add: ExpireOlderThan_def Let_def)

lemma Holds_Release [simp]: "Holds (Release g k) k' \<longleftrightarrow> k' \<noteq> k \<and> Holds g k'"
  by (simp add: Holds_iff Release_def)

lemma Holds_TryAcquire:
  "Holds (snd (TryAcquire g k t)) k' \<longleftrightarrow> Holds g k' \<or> (k' = k \<and> fst (TryAcquire g k t) = Acquired)"
  by (auto simp: TryAcquire_def Holds_iff split: option.splits)

lemma TryAcquire_Acquired_iff:
  "fst (TryAcquire g k t) = Acquired \<longleftrightarrow> \<not> Holds g k \<and> \<not> (g_cap g > 0 \<and> int (Inflight g) \<ge> g_cap g)"
  by (auto simp: TryAcquire_def Holds_def Inflight_def split: option.splits)

lemma TryAcquire_AlreadyInF_iff: "fst (TryAcquire g k t) = AlreadyInF \<longleftrightarrow> Holds g k"
  by (auto simp: TryAcquire_def Holds_def split: option.splits)

lemma TryAcquire_not_acquired: "fst (TryAcquire g k t) \<noteq> Acquired \<Longrightarrow> snd (TryAcquire g k t) = g"
  by (auto simp: TryAcquire_def split: option.splits if_splits)

lemma Inflight_TryAcquire:
  "Inflight (snd (TryAcquire g k t)) = (if fst (TryAcquire g k t) = Acquired then Suc (Inflight g) else Inflight g)"
  by (auto simp: TryAcquire_def Inflight_def fmlookup_dom_iff fcard_finsert_disjoint split: option.splits)

lemma Inflight_Release: "Inflight (Release g k) \<le> Inflight g"
  unfolding Inflight_def Release_def by (simp add: fcard_mono fsubset_iff)

lemma Inflight_Expire: "Inflight (snd (ExpireOlderThan g now to)) \<le> Inflight g"
  unfolding Inflight_def ExpireOlderThan_def Let_def
  by (auto simp: fmdom_filter intro!: fcard_mono)

lemma Holds_Expire:
  "Holds (snd (ExpireOlderThan g now to)) k \<longleftrightarrow> Holds g k \<and> k |\<notin>| fst (ExpireOlderThan g now to)"
  by (auto simp: ExpireOlderThan_def Let_def Holds_iff fmlookup_dom_iff split: option.splits)

section \<open>The slot contract\<close>

text \<open>
  What the clients of the gate rely on, as an interface: a set of held slots that only a successful
  acquire extends, that a release or an expiry shrinks, and whose size an acquire keeps within a
  positive capacity.
\<close>

locale slot_pool =
  fixes acquire :: "'g \<Rightarrow> 'k \<Rightarrow> time \<Rightarrow> gate_outcome \<times> 'g"
    and release :: "'g \<Rightarrow> 'k \<Rightarrow> 'g"
    and expire :: "'g \<Rightarrow> time \<Rightarrow> duration \<Rightarrow> 'g"
    and holds :: "'g \<Rightarrow> 'k \<Rightarrow> bool"
    and count :: "'g \<Rightarrow> nat"
    and capacity :: "'g \<Rightarrow> int"
  assumes acquire_holds: "holds (snd (acquire g k t)) k' \<longleftrightarrow>
      holds g k' \<or> (k' = k \<and> fst (acquire g k t) = Acquired)"
    and acquire_fresh: "fst (acquire g k t) = Acquired \<Longrightarrow> \<not> holds g k"
    and acquire_room: "fst (acquire g k t) = Acquired \<Longrightarrow> capacity g > 0 \<Longrightarrow> int (count g) < capacity g"
    and acquire_count: "count (snd (acquire g k t)) =
      (if fst (acquire g k t) = Acquired then Suc (count g) else count g)"
    and release_holds: "holds (release g k) k' \<longleftrightarrow> k' \<noteq> k \<and> holds g k'"
    and release_count: "count (release g k) \<le> count g"
    and expire_holds: "holds (expire g now to) k \<Longrightarrow> holds g k"
    and expire_count: "count (expire g now to) \<le> count g"
    and capacity_fixed: "capacity (snd (acquire g k t)) = capacity g" "capacity (release g k) = capacity g"
      "capacity (expire g now to) = capacity g"
begin

definition within :: "'g \<Rightarrow> bool" where
  "within g \<longleftrightarrow> (capacity g > 0 \<longrightarrow> int (count g) \<le> capacity g)"

lemma within_acquire: "within g \<Longrightarrow> within (snd (acquire g k t))"
  using acquire_room [of g k t] by (auto simp: within_def acquire_count capacity_fixed)

lemma within_release: "within g \<Longrightarrow> within (release g k)"
  using release_count [of g k] by (auto simp: within_def capacity_fixed)

lemma within_expire: "within g \<Longrightarrow> within (expire g now to)"
  using expire_count [of g now to] by (auto simp: within_def capacity_fixed)

lemma acquire_release: "holds (release (snd (acquire g k t)) k) k' \<longleftrightarrow> k' \<noteq> k \<and> holds g k'"
  by (auto simp: release_holds acquire_holds)

lemma no_double_acquire: "fst (acquire g k t) = Acquired \<Longrightarrow> fst (acquire (snd (acquire g k t)) k t') \<noteq> Acquired"
  using acquire_fresh [of "snd (acquire g k t)" k t'] by (auto simp: acquire_holds)

end

interpretation gp: slot_pool TryAcquire Release "\<lambda>g now to. snd (ExpireOlderThan g now to)" Holds Inflight g_cap
proof
  show "Holds (snd (TryAcquire g k t)) k' \<longleftrightarrow> Holds g k' \<or> (k' = k \<and> fst (TryAcquire g k t) = Acquired)"
    for g k t k' by (rule Holds_TryAcquire)
qed (auto simp: TryAcquire_Acquired_iff Inflight_TryAcquire Inflight_Release Inflight_Expire Holds_Expire)

section \<open>Runs of operations\<close>

datatype gate_op = OpAcquire string time | OpRelease string | OpExpire time duration

fun gate_step :: "gate \<Rightarrow> gate_op \<Rightarrow> gate" where
  "gate_step g (OpAcquire k t) = snd (TryAcquire g k t)"
| "gate_step g (OpRelease k) = Release g k"
| "gate_step g (OpExpire now to) = snd (ExpireOlderThan g now to)"

definition gate_run :: "gate \<Rightarrow> gate_op list \<Rightarrow> gate" where
  "gate_run g ops = foldl gate_step g ops"

lemma gate_run_simps [simp]: "gate_run g [] = g" "gate_run g (x # xs) = gate_run (gate_step g x) xs"
  by (simp_all add: gate_run_def)

lemma gate_run_within: "gp.within g \<Longrightarrow> gp.within (gate_run g ops) \<and> g_cap (gate_run g ops) = g_cap g"
proof (induction ops arbitrary: g)
  case (Cons x ops)
  have "gp.within (gate_step g x)"
    using Cons.prems by (cases x) (auto intro: gp.within_acquire gp.within_release gp.within_expire)
  moreover have "g_cap (gate_step g x) = g_cap g" by (cases x) auto
  ultimately show ?case using Cons.IH [of "gate_step g x"] by simp
qed simp

section \<open>Properties\<close>

text \<open>
  The global cap holds in every interleaving. Starting from a new gate with a positive capacity,
  whatever sequence of acquires, releases and expiries the reconciler, the finalizer and the expirer
  perform, never more slots are held than the capacity.
\<close>

theorem gate_cap_invariant:
  assumes "0 < c"
  shows "int (Inflight (gate_run (NewGate c) ops)) \<le> c"
proof -
  have "gp.within (NewGate c)" using assms by (simp add: gp.within_def)
  then show ?thesis using gate_run_within [of "NewGate c" ops] assms by (auto simp: gp.within_def)
qed

lemma gate_cap_invariant_witness:
  "int (Inflight (gate_run (NewGate 1) [OpAcquire ''a'' 0, OpAcquire ''b'' 1, OpExpire 20 5, OpAcquire ''b'' 21])) \<le> 1"
  by (rule gate_cap_invariant) simp

text \<open>
  An acquire is granted exactly when the workload holds no slot and the cap leaves room (a cap of
  zero or less is no cap); a refusal says which of the two failed, the workload's own slot first,
  and changes nothing; a grant adds this one slot with its acquire time and touches no other.
\<close>

theorem try_acquire_cases:
  "TryAcquire g key now =
     (if Holds g key then (AlreadyInF, g)
      else if 0 < g_cap g \<and> g_cap g \<le> int (Inflight g) then (CapReached, g)
      else (Acquired, g\<lparr>g_inflight := fmupd key now (g_inflight g)\<rparr>))
   \<and> (fst (TryAcquire g key now) = Acquired \<longleftrightarrow> \<not> Holds g key \<and> Holds (snd (TryAcquire g key now)) key)
   \<and> (\<forall>k. k \<noteq> key \<longrightarrow> fmlookup (g_inflight (snd (TryAcquire g key now))) k = fmlookup (g_inflight g) k)"
  by (auto simp: TryAcquire_def Holds_def Inflight_def split: option.splits)

lemma try_acquire_cases_witness:
  "fst (TryAcquire \<lparr>g_cap = 1, g_inflight = fmupd ''a'' 0 fmempty\<rparr> ''b'' 1) = CapReached"
  by (subst try_acquire_cases [THEN conjunct1]) (simp add: Holds_def Inflight_def)

text \<open>
  Expiry releases exactly the slots held for at least the timeout. The reported keys are those
  slots, every other slot keeps its acquire time, and a second pass at the same time releases
  nothing more; a slot that stays is younger than the timeout.
\<close>

theorem expire_exactly_old:
  assumes "minDuration < timeout" and "timeout \<le> maxDuration"
  shows "(\<forall>k. k |\<in>| fst (ExpireOlderThan g now timeout) \<longleftrightarrow>
            (\<exists>t. fmlookup (g_inflight g) k = Some t \<and> now - t \<ge> timeout))
    \<and> (\<forall>k. fmlookup (g_inflight (snd (ExpireOlderThan g now timeout))) k =
            (case fmlookup (g_inflight g) k of None \<Rightarrow> None
             | Some t \<Rightarrow> if now - t \<ge> timeout then None else Some t))
    \<and> fst (ExpireOlderThan (snd (ExpireOlderThan g now timeout)) now timeout) = {||}"
proof -
  note ge = time_Sub_ge_iff [OF assms, of now]
  have 1: "\<forall>k. k |\<in>| fst (ExpireOlderThan g now timeout) \<longleftrightarrow>
            (\<exists>t. fmlookup (g_inflight g) k = Some t \<and> now - t \<ge> timeout)"
    by (auto simp: ExpireOlderThan_def Let_def fmlookup_dom_iff ge split: option.splits)
  have 2: "fmlookup (g_inflight (snd (ExpireOlderThan g now timeout))) k =
            (case fmlookup (g_inflight g) k of None \<Rightarrow> None
             | Some t \<Rightarrow> if now - t \<ge> timeout then None else Some t)" for k
    by (auto simp: ExpireOlderThan_def Let_def ge split: option.splits)
  have 3: "fst (ExpireOlderThan (snd (ExpireOlderThan g now timeout)) now timeout) = {||}"
  proof -
    have "k |\<notin>| fst (ExpireOlderThan (snd (ExpireOlderThan g now timeout)) now timeout)" for k
    proof -
      have "\<not> (\<exists>t. fmlookup (g_inflight (snd (ExpireOlderThan g now timeout))) k = Some t \<and> now - t \<ge> timeout)"
        by (auto simp: 2 split: option.splits if_splits)
      then show ?thesis
        unfolding ExpireOlderThan_def [of "snd (ExpireOlderThan g now timeout)"] Let_def
        by (auto simp: fmlookup_dom_iff ge split: option.splits)
    qed
    then show ?thesis by auto
  qed
  show ?thesis using 1 2 3 by blast
qed

lemma expire_exactly_old_witness:
  "''a'' |\<in>| fst (ExpireOlderThan (snd (TryAcquire (NewGate 1) ''a'' 0)) 15 15)"
proof -
  have "minDuration < 15" "(15::int) \<le> maxDuration" by (simp_all add: minDuration_def maxDuration_def)
  from expire_exactly_old [OF this, of "snd (TryAcquire (NewGate 1) ''a'' 0)" 15]
  show ?thesis by (simp add: TryAcquire_def NewGate_def)
qed

section \<open>Rebuilding the gate\<close>

text \<open>
  After \<open>Reconcile\<close> the in-flight set is exactly the supplied one, with the supplied times: a key that
  was already tracked takes the new time, it does not keep the one it was acquired at.
\<close>

lemma gate_reconcile_replaces:
  "fmlookup active k = Some t \<Longrightarrow> fmlookup (g_inflight (GateReconcile g active)) k = Some t"
  "Holds (GateReconcile g active) k \<longleftrightarrow> k |\<in>| fmdom active"
  by (auto simp: GateReconcile_def Holds_fmdom)

end
