(* ===== verification/SampleStore.thy ===== *)
theory SampleStore
  imports GoTime
begin

text \<open>
  \<open>internal/sampling/buffer.go\<close>: the bounded per-container sample histories. A Go map is a finite map;
  the mutex makes every operation atomic, so an operation is a function on the store.
\<close>

section \<open>Data\<close>

record key =
  k_Namespace :: string
  k_Pod :: string
  k_Container :: string

record sample =
  s_Time :: time
  s_WorkingSet :: int
  s_Limit :: int

record series =
  ser_samples :: "sample list"
  ser_lastRestarts :: int

record sample_store =
  sto_data :: "(key, series) fmap"
  sto_retention :: duration
  sto_maxLen :: int

section \<open>Operations\<close>

definition NewStore :: "duration \<Rightarrow> int \<Rightarrow> sample_store" where
  "NewStore retention maxLen =
     \<lparr>sto_data = fmempty, sto_retention = retention,
      sto_maxLen = (if maxLen < 2 then 2 else maxLen)\<rparr>"

text \<open>The loop that counts the samples at the front that are before the cutoff.\<close>

fun count_stale :: "time \<Rightarrow> sample list \<Rightarrow> nat" where
  "count_stale cutoff [] = 0"
| "count_stale cutoff (x # xs) =
     (if time_Before (s_Time x) cutoff then Suc (count_stale cutoff xs) else 0)"

definition Observe :: "sample_store \<Rightarrow> key \<Rightarrow> sample \<Rightarrow> int \<Rightarrow> sample_store" where
  "Observe s key smp restartCount =
     (let ser = (case fmlookup (sto_data s) key of
            None \<Rightarrow> \<lparr>ser_samples = [], ser_lastRestarts = restartCount\<rparr>
          | Some ser \<Rightarrow> ser);
          samples = (if restartCount > ser_lastRestarts ser then [] else ser_samples ser) @ [smp];
          cutoff = time_Add (s_Time smp) (dur_neg (sto_retention s));
          drop0 = int (count_stale cutoff samples);
          over = int (length samples) - sto_maxLen s;
          drop1 = (if over > drop0 then over else drop0);
          samples' = (if drop1 > 0 then drop (nat drop1) samples else samples)
      in s\<lparr>sto_data := fmupd key
            \<lparr>ser_samples = samples', ser_lastRestarts = restartCount\<rparr> (sto_data s)\<rparr>)"

definition StoreWindowCovered :: "sample_store \<Rightarrow> key \<Rightarrow> duration \<Rightarrow> time \<Rightarrow> bool" where
  "StoreWindowCovered s key window now =
     (case fmlookup (sto_data s) key of
        None \<Rightarrow> False
      | Some ser \<Rightarrow>
          if length (ser_samples ser) < 2 then False
          else \<not> time_After (s_Time (ser_samples ser ! 0)) (time_Add now (dur_neg window)))"

definition Samples :: "sample_store \<Rightarrow> key \<Rightarrow> sample list" where
  "Samples s key = (case fmlookup (sto_data s) key of None \<Rightarrow> [] | Some ser \<Rightarrow> ser_samples ser)"

definition Reset :: "sample_store \<Rightarrow> key \<Rightarrow> sample_store" where
  "Reset s key = s\<lparr>sto_data := fmdrop key (sto_data s)\<rparr>"

definition Prune :: "sample_store \<Rightarrow> key fset \<Rightarrow> sample_store \<times> nat" where
  "Prune s live =
     (let d = fmfilter (\<lambda>k. k |\<in>| live) (sto_data s)
      in (s\<lparr>sto_data := d\<rparr>, fcard (fmdom d)))"

definition Len :: "sample_store \<Rightarrow> nat" where
  "Len s = fcard (fmdom (sto_data s))"

section \<open>Reference behaviour and invariant\<close>

text \<open>What a series should hold after an observation: the samples inside the retention window, at most \<open>maxLen\<close>.\<close>

definition keep_recent :: "time \<Rightarrow> int \<Rightarrow> sample list \<Rightarrow> sample list" where
  "keep_recent cutoff maxLen xs =
     (let ys = filter (\<lambda>x. \<not> time_Before (s_Time x) cutoff) xs
      in drop (length ys - nat maxLen) ys)"

definition times_sorted :: "sample list \<Rightarrow> bool" where
  "times_sorted xs \<longleftrightarrow> sorted (map s_Time xs)"

definition series_ok :: "sample_store \<Rightarrow> series \<Rightarrow> bool" where
  "series_ok s ser \<longleftrightarrow> ser_samples ser \<noteq> [] \<and> times_sorted (ser_samples ser)
     \<and> int (length (ser_samples ser)) \<le> sto_maxLen s
     \<and> s_Time (last (ser_samples ser)) - s_Time (hd (ser_samples ser)) \<le> sto_retention s"

definition store_ok :: "sample_store \<Rightarrow> bool" where
  "store_ok s \<longleftrightarrow> 2 \<le> sto_maxLen s \<and> 0 \<le> sto_retention s \<and> sto_retention s \<le> maxDuration
     \<and> (\<forall>k ser. fmlookup (sto_data s) k = Some ser \<longrightarrow> series_ok s ser)"

text \<open>The samples of a key are no later than \<open>t\<close>: what a clock that does not run backwards gives.\<close>

definition seen_before :: "sample_store \<Rightarrow> key \<Rightarrow> time \<Rightarrow> bool" where
  "seen_before s k t \<longleftrightarrow> (\<forall>x \<in> set (Samples s k). s_Time x \<le> t)"

lemma store_okD:
  assumes "store_ok s"
  shows "2 \<le> sto_maxLen s" "0 \<le> sto_retention s" "sto_retention s \<le> maxDuration"
    and "fmlookup (sto_data s) k = Some ser \<Longrightarrow> series_ok s ser"
  using assms by (auto simp: store_ok_def)

lemma Samples_sorted: "store_ok s \<Longrightarrow> times_sorted (Samples s k)"
  by (auto simp: store_ok_def series_ok_def Samples_def times_sorted_def split: option.splits)

section \<open>Observe\<close>

lemma count_stale_dropWhile: "drop (count_stale c xs) xs = dropWhile (\<lambda>x. time_Before (s_Time x) c) xs"
  by (induction xs) auto

lemma count_stale_filter:
  "times_sorted xs \<Longrightarrow> drop (count_stale c xs) xs = filter (\<lambda>x. \<not> time_Before (s_Time x) c) xs"
proof (induction xs)
  case (Cons x xs)
  have s: "times_sorted xs" and le: "\<forall>y \<in> set xs. s_Time x \<le> s_Time y"
    using Cons.prems by (auto simp: times_sorted_def)
  show ?case
  proof (cases "time_Before (s_Time x) c")
    case True
    with Cons.IH [OF s] show ?thesis by simp
  next
    case False
    with le have "filter (\<lambda>x. \<not> time_Before (s_Time x) c) xs = xs"
      by (intro filter_True) auto
    with False show ?thesis by simp
  qed
qed simp

lemma count_stale_le: "count_stale c xs \<le> length xs"
  by (induction xs) auto

lemma count_stale_snoc_less: "\<not> time_Before (s_Time x) c \<Longrightarrow> count_stale c (xs @ [x]) \<le> length xs"
  by (induction xs) auto

text \<open>The single front shift of the code is the reference: filter by age, then cap.\<close>

lemma drop_is_keep_recent:
  fixes c :: time
  assumes "times_sorted xs" and "0 \<le> m"
  defines "d0 \<equiv> int (count_stale c xs)" and "ov \<equiv> int (length xs) - m"
  shows "(if (if ov > d0 then ov else d0) > 0 then drop (nat (if ov > d0 then ov else d0)) xs else xs)
         = keep_recent c m xs"
proof -
  define n where "n = nat (if ov > d0 then ov else d0)"
  define ys where "ys = drop (count_stale c xs) xs"
  have ys: "ys = filter (\<lambda>x. \<not> time_Before (s_Time x) c) xs"
    unfolding ys_def by (rule count_stale_filter [OF assms(1)])
  have len: "length ys = length xs - count_stale c xs" by (simp add: ys_def)
  have n: "n = count_stale c xs + (length ys - nat m)"
    using assms(2) count_stale_le [of c xs] by (auto simp: n_def d0_def ov_def len nat_diff_distrib)
  have "drop n xs = drop (length ys - nat m) ys" by (simp add: n ys_def add.commute)
  then have "drop n xs = keep_recent c m xs" by (simp add: keep_recent_def ys Let_def)
  moreover have "(if (if ov > d0 then ov else d0) > 0 then drop n xs else xs) = drop n xs"
    by (auto simp: n_def)
  ultimately show ?thesis by (simp only: n_def)
qed

definition pending_samples :: "sample_store \<Rightarrow> key \<Rightarrow> int \<Rightarrow> sample list" where
  "pending_samples s k rc = (case fmlookup (sto_data s) k of None \<Rightarrow> []
     | Some ser \<Rightarrow> if rc > ser_lastRestarts ser then [] else ser_samples ser)"

lemma pending_sorted: "store_ok s \<Longrightarrow> times_sorted (pending_samples s k rc)"
  by (auto simp: pending_samples_def store_ok_def series_ok_def times_sorted_def split: option.splits)

lemma pending_subset: "set (pending_samples s k rc) \<subseteq> set (Samples s k)"
  by (auto simp: pending_samples_def Samples_def split: option.splits)

lemma times_sorted_snoc:
  "times_sorted (xs @ [x]) \<longleftrightarrow> times_sorted xs \<and> (\<forall>y \<in> set xs. s_Time y \<le> s_Time x)"
  by (auto simp: times_sorted_def sorted_append)

lemma Observe_lookup:
  assumes "store_ok s" and "seen_before s k (s_Time x)"
  shows "fmlookup (sto_data (Observe s k x rc)) k = Some
    \<lparr>ser_samples = keep_recent (s_Time x - sto_retention s) (sto_maxLen s) (pending_samples s k rc @ [x]),
     ser_lastRestarts = rc\<rparr>"
proof -
  have srt: "times_sorted (pending_samples s k rc @ [x])"
    using assms pending_sorted [OF assms(1)] pending_subset
    by (fastforce simp: times_sorted_snoc seen_before_def)
  have m: "0 \<le> sto_maxLen s" using store_okD(1) [OF assms(1)] by simp
  have c: "time_Add (s_Time x) (dur_neg (sto_retention s)) = s_Time x - sto_retention s"
    using store_okD(2,3) [OF assms(1)] by simp
  define ser where "ser = (case fmlookup (sto_data s) k of
      None \<Rightarrow> \<lparr>ser_samples = [], ser_lastRestarts = rc\<rparr> | Some ser \<Rightarrow> ser)"
  have p: "(if rc > ser_lastRestarts ser then [] else ser_samples ser) = pending_samples s k rc"
    by (auto simp: ser_def pending_samples_def split: option.splits)
  show ?thesis
    unfolding Observe_def Let_def ser_def [symmetric] p c drop_is_keep_recent [OF srt m]
    by simp
qed

lemma Observe_other:
  "k' \<noteq> k \<Longrightarrow> fmlookup (sto_data (Observe s k x rc)) k' = fmlookup (sto_data s) k'"
  by (simp add: Observe_def Let_def)

lemma Observe_frame [simp]:
  "sto_retention (Observe s k x rc) = sto_retention s"
  "sto_maxLen (Observe s k x rc) = sto_maxLen s"
  by (simp_all add: Observe_def Let_def)

lemma Observe_dom: "fmdom (sto_data (Observe s k x rc)) = finsert k (fmdom (sto_data s))"
  by (simp add: Observe_def Let_def)

lemma hd_drop_mem: "n < length xs \<Longrightarrow> hd (drop n xs) \<in> set xs"
  by (simp add: hd_drop_conv_nth)

lemma keep_recent_ok:
  assumes "times_sorted (xs @ [x])" and "2 \<le> m" and "0 \<le> r"
  defines "ys \<equiv> keep_recent (s_Time x - r) m (xs @ [x])"
  shows "ys \<noteq> []" "last ys = x" "times_sorted ys" "int (length ys) \<le> m"
    "s_Time (last ys) - s_Time (hd ys) \<le> r" "set ys \<subseteq> set (xs @ [x])"
proof -
  define zs where "zs = filter (\<lambda>y. \<not> time_Before (s_Time y) (s_Time x - r)) (xs @ [x])"
  have zs: "zs = filter (\<lambda>y. \<not> time_Before (s_Time y) (s_Time x - r)) xs @ [x]"
    using assms(3) by (simp add: zs_def)
  have ys: "ys = drop (length zs - nat m) zs" by (simp add: ys_def keep_recent_def zs_def)
  have lt: "length zs - nat m < length zs" using assms(2) by (simp add: zs)
  then show ne: "ys \<noteq> []" by (simp add: ys)
  show "last ys = x" using lt by (simp add: ys zs)
  have "times_sorted zs" unfolding zs_def times_sorted_def
    using assms(1) unfolding times_sorted_def by (rule sorted_filter)
  then show "times_sorted ys" by (simp add: ys times_sorted_def drop_map [symmetric] sorted_wrt_drop)
  show "int (length ys) \<le> m" using assms(2) by (simp add: ys)
  have "hd ys \<in> set zs" unfolding ys using lt by (rule hd_drop_mem)
  then have "\<not> time_Before (s_Time (hd ys)) (s_Time x - r)" unfolding zs_def set_filter by blast
  then show "s_Time (last ys) - s_Time (hd ys) \<le> r" using \<open>last ys = x\<close> by simp
  show "set ys \<subseteq> set (xs @ [x])" unfolding ys zs_def by (rule order_trans [OF set_drop_subset filter_is_subset])
qed

lemma series_ok_frame: "sto_maxLen t = sto_maxLen s \<Longrightarrow> sto_retention t = sto_retention s \<Longrightarrow>
    series_ok t ser = series_ok s ser"
  by (simp add: series_ok_def)

lemma pending_snoc_sorted:
  assumes "store_ok s" and "seen_before s k (s_Time x)"
  shows "times_sorted (pending_samples s k rc @ [x])"
  using assms pending_sorted [OF assms(1)] pending_subset
  by (fastforce simp: times_sorted_snoc seen_before_def)

lemma Observe_ok:
  assumes "store_ok s" and "seen_before s k (s_Time x)"
  shows "store_ok (Observe s k x rc)"
proof -
  note kr = keep_recent_ok [OF pending_snoc_sorted [OF assms], of "sto_maxLen s" "sto_retention s"]
  note d = store_okD(1,2,3) [OF assms(1)]
  have "series_ok (Observe s k x rc) ser" if l: "fmlookup (sto_data (Observe s k x rc)) k' = Some ser" for k' ser
  proof (cases "k' = k")
    case True
    with l have "ser = \<lparr>ser_samples = keep_recent (s_Time x - sto_retention s) (sto_maxLen s)
        (pending_samples s k rc @ [x]), ser_lastRestarts = rc\<rparr>"
      using Observe_lookup [OF assms] by simp
    then show ?thesis using kr d by (simp add: series_ok_def)
  next
    case False
    then show ?thesis using l store_okD(4) [OF assms(1)] by (simp add: Observe_other series_ok_def)
  qed
  then show ?thesis using d by (auto simp: store_ok_def)
qed

lemma NewStore_ok: "0 \<le> r \<Longrightarrow> r \<le> maxDuration \<Longrightarrow> store_ok (NewStore r m)"
  by (simp add: store_ok_def NewStore_def)

lemma Samples_Observe:
  assumes "store_ok s" and "seen_before s k (s_Time x)"
  shows "Samples (Observe s k x rc) k =
    keep_recent (s_Time x - sto_retention s) (sto_maxLen s) (pending_samples s k rc @ [x])"
  by (simp add: Samples_def Observe_lookup [OF assms])

lemma Samples_Observe_other: "k' \<noteq> k \<Longrightarrow> Samples (Observe s k x rc) k' = Samples s k'"
  by (simp add: Samples_def Observe_other)

section \<open>Prune and Reset\<close>

lemma Prune_lookup [simp]:
  "fmlookup (sto_data (fst (Prune s live))) k = (if k |\<in>| live then fmlookup (sto_data s) k else None)"
  by (simp add: Prune_def Let_def)

lemma Prune_frame [simp]:
  "sto_retention (fst (Prune s live)) = sto_retention s"
  "sto_maxLen (fst (Prune s live)) = sto_maxLen s"
  by (simp_all add: Prune_def Let_def)

lemma Prune_ok: "store_ok s \<Longrightarrow> store_ok (fst (Prune s live))"
  by (auto simp: store_ok_def series_ok_def split: if_splits)

lemma Prune_count: "snd (Prune s live) = Len (fst (Prune s live))"
  by (simp add: Prune_def Len_def Let_def)

lemma Reset_ok: "store_ok s \<Longrightarrow> store_ok (Reset s k)"
  by (auto simp: store_ok_def series_ok_def Reset_def split: if_splits)

section \<open>Properties\<close>

text \<open>
  C18: an observation keeps the store's invariant (every series non-empty, in time order, capped at
  \<open>maxLen\<close> and spanning at most the retention), leaves every other series alone, and leaves the
  observed series equal to the reference: the pre-restart samples dropped if the restart count grew,
  the new sample appended, then filtered by age and capped. The one-shift trimming loop of the code
  is therefore the filter it means to be. The clock must not run backwards for this key.
\<close>

theorem observe_reference:
  assumes "store_ok s" and "seen_before s k (s_Time x)"
  shows "store_ok (Observe s k x rc)
    \<and> Samples (Observe s k x rc) k =
        keep_recent (s_Time x - sto_retention s) (sto_maxLen s) (pending_samples s k rc @ [x])
    \<and> last (Samples (Observe s k x rc) k) = x
    \<and> (\<forall>k'. k' \<noteq> k \<longrightarrow> Samples (Observe s k x rc) k' = Samples s k')"
proof -
  have "last (Samples (Observe s k x rc) k) = x"
    unfolding Samples_Observe [OF assms]
    by (rule keep_recent_ok(2) [OF pending_snoc_sorted [OF assms]]) (use store_okD(1,2) [OF assms(1)] in auto)
  then show ?thesis
    using Observe_ok [OF assms] Samples_Observe [OF assms] Samples_Observe_other by simp
qed

definition demo_key :: key where
  "demo_key = \<lparr>k_Namespace = ''ns'', k_Pod = ''p'', k_Container = ''c''\<rparr>"

definition demo_sample :: "time \<Rightarrow> int \<Rightarrow> sample" where
  "demo_sample t ws = \<lparr>s_Time = t, s_WorkingSet = ws, s_Limit = 1000\<rparr>"

lemma observe_reference_witness:
  "Samples (Observe (NewStore 100 3) demo_key (demo_sample 5 7) 0) demo_key = [demo_sample 5 7]"
proof -
  have ok: "store_ok (NewStore 100 3)" by (rule NewStore_ok) (simp_all add: maxDuration_def)
  have seen: "seen_before (NewStore 100 3) demo_key (s_Time (demo_sample 5 7))"
    by (simp add: seen_before_def Samples_def NewStore_def)
  show ?thesis
    using observe_reference [OF ok seen, of 0]
    by (simp add: pending_samples_def NewStore_def keep_recent_def demo_sample_def)
qed

text \<open>
  A container restart discards the pre-restart history. When the restart count grew since the
  last observation, the series afterwards is exactly the new sample, so samples from before and
  after an OOM kill are never evaluated together, and the window has to be covered afresh.
\<close>

theorem observe_restart_resets:
  assumes "store_ok s" and "seen_before s k (s_Time x)"
    and "fmlookup (sto_data s) k = Some ser" and "rc > ser_lastRestarts ser"
  shows "Samples (Observe s k x rc) k = [x]
    \<and> (\<forall>w now. \<not> StoreWindowCovered (Observe s k x rc) k w now)"
proof -
  have p: "pending_samples s k rc = []" using assms(3,4) by (simp add: pending_samples_def)
  have "Samples (Observe s k x rc) k = [x]"
    using store_okD(1,2) [OF assms(1)]
    by (simp add: Samples_Observe [OF assms(1,2)] p keep_recent_def)
  then show ?thesis by (auto simp: StoreWindowCovered_def Samples_def split: option.splits)
qed

lemma observe_restart_resets_witness:
  "Samples (Observe (Observe (NewStore 100 3) demo_key (demo_sample 5 7) 0) demo_key (demo_sample 9 8) 1)
     demo_key = [demo_sample 9 8]"
proof -
  define s where "s = Observe (NewStore 100 3) demo_key (demo_sample 5 7) 0"
  have ok0: "store_ok (NewStore 100 3)" by (rule NewStore_ok) (simp_all add: maxDuration_def)
  have seen0: "seen_before (NewStore 100 3) demo_key (s_Time (demo_sample 5 7))"
    by (simp add: seen_before_def Samples_def NewStore_def)
  have l: "fmlookup (sto_data s) demo_key = Some \<lparr>ser_samples = [demo_sample 5 7], ser_lastRestarts = 0\<rparr>"
    unfolding s_def Observe_lookup [OF ok0 seen0]
    by (simp add: pending_samples_def NewStore_def keep_recent_def demo_sample_def)
  have ok: "store_ok s" unfolding s_def by (rule Observe_ok [OF ok0 seen0])
  have seen: "seen_before s demo_key (s_Time (demo_sample 9 8))"
    by (simp add: seen_before_def Samples_def l demo_sample_def)
  show ?thesis using observe_restart_resets [OF ok seen l, of 1] by (simp add: s_def)
qed

text \<open>
  C31: a detection window longer than the retention is never covered. The retention is fixed at
  start-up from the controller-wide window; a policy may set a longer one. Whatever has been
  observed, such a policy's containers never count as warm at the time of their latest sample (nor
  until the excess of the window over the retention has passed without a sample), so it can never
  fire.
\<close>

theorem window_beyond_retention_never_covered:
  assumes "store_ok s" and "w \<le> maxDuration"
    and "sto_retention s < w" and "Samples s k \<noteq> []"
    and "now < s_Time (last (Samples s k)) + (w - sto_retention s)"
  shows "\<not> StoreWindowCovered s k w now"
proof -
  from assms(4) obtain ser where l: "fmlookup (sto_data s) k = Some ser" and sm: "Samples s k = ser_samples ser"
    by (auto simp: Samples_def split: option.splits)
  have "series_ok s ser" by (rule store_okD(4) [OF assms(1) l])
  then have ne: "ser_samples ser \<noteq> []"
    and span: "s_Time (last (ser_samples ser)) - s_Time (hd (ser_samples ser)) \<le> sto_retention s"
    by (auto simp: series_ok_def)
  have "0 \<le> w" using assms(3) store_okD(2) [OF assms(1)] by simp
  then have "time_Add now (dur_neg w) = now - w" using assms(2) by simp
  moreover have "now - w < s_Time (hd (ser_samples ser))" using assms(5) span sm by simp
  ultimately show ?thesis using ne by (simp add: StoreWindowCovered_def l hd_conv_nth)
qed

lemma window_beyond_retention_never_covered_witness:
  "\<not> StoreWindowCovered (Observe (NewStore 100 3) demo_key (demo_sample 5 7) 0) demo_key 101 5"
proof -
  define s where "s = Observe (NewStore 100 3) demo_key (demo_sample 5 7) 0"
  have ok0: "store_ok (NewStore 100 3)" by (rule NewStore_ok) (simp_all add: maxDuration_def)
  have seen0: "seen_before (NewStore 100 3) demo_key (s_Time (demo_sample 5 7))"
    by (simp add: seen_before_def Samples_def NewStore_def)
  have ok: "store_ok s" unfolding s_def by (rule Observe_ok [OF ok0 seen0])
  have sm: "Samples s demo_key = [demo_sample 5 7]"
    unfolding s_def Samples_Observe [OF ok0 seen0]
    by (simp add: pending_samples_def NewStore_def keep_recent_def demo_sample_def)
  have r: "sto_retention s = 100" by (simp add: s_def NewStore_def)
  have "\<not> StoreWindowCovered s demo_key 101 5"
    by (rule window_beyond_retention_never_covered [OF ok])
       (simp_all add: sm r maxDuration_def demo_sample_def)
  then show ?thesis unfolding s_def .
qed

end
