(* ===== verification/Platform.thy ===== *)
theory Platform
  imports ApiTypes Maintenance GoFormat Gate SampleStore
begin

text \<open>
  The platform the controller runs on, seen through what it uses of it: the Kubernetes objects (the
  fields the code reads), the API server, clock and network as the functions of a record \<open>api\<close> over an
  opaque world, the third-party library functions as the record \<open>lib\<close>, and the state of the controller
  process with the trace of its effects. Nothing here is code of the repository: the operations of the
  program, in the other theories, are parameterised over \<open>api\<close> and \<open>lib\<close>.
\<close>

section \<open>JSON values\<close>

text \<open>
  Unstructured objects and bodies of requests and responses: nested maps, slices and scalars. A number of a
  decoded body that is not an integer is a rational.
\<close>

datatype json =
    JNull
  | JBool bool
  | JInt int
  | JNum rat
  | JStr string
  | JArr "json list"
  | JObj "(string \<times> json) list"

section \<open>Objects\<close>

type_synonym labels = "(string, string) fmap"

text \<open>A read of a Go map of strings: the empty string when the key is absent or the map is nil.\<close>

definition map_get :: "labels \<Rightarrow> string \<Rightarrow> string" where
  "map_get m k = (case fmlookup m k of None \<Rightarrow> '''' | Some v \<Rightarrow> v)"

record owner_ref =
  or_Kind :: string
  or_Name :: string
  or_Controller :: bool

text \<open>
  A container's \<open>Resources.Limits\<close>: \<open>None\<close> is the nil map, \<open>Some q\<close> a map whose \<open>Memory()\<close> is \<open>q\<close>.
\<close>

record container =
  ct_Name :: string
  ct_RestartPolicy :: "string option"
  ct_Limits :: "quantity option option"

record container_status =
  cs_Name :: string
  cs_RestartCount :: int

record pod_condition =
  pc_Type :: string
  pc_Status :: string

record pod =
  pod_Namespace :: string
  pod_Name :: string
  pod_UID :: string
  pod_Labels :: labels
  pod_Annotations :: labels
  pod_Owners :: "owner_ref list"
  pod_CreationTimestamp :: time
  pod_StartTime :: "time option"
  pod_Containers :: "container list"
  pod_InitContainers :: "container list"
  pod_Conditions :: "pod_condition list"
  pod_ContainerStatuses :: "container_status list"
  pod_InitContainerStatuses :: "container_status list"
  pod_IP :: string

text \<open>
  A pod template: its annotation map, which may be nil, and the rest of it, of which the code only takes
  the serialised form.
\<close>

record pod_template =
  tm_Annotations :: "labels option"
  tm_Rest :: string

type_synonym label_selector = json

record deployment =
  dp_Namespace :: string
  dp_Name :: string
  dp_UID :: string
  dp_Annotations :: labels
  dp_Generation :: int
  dp_Replicas :: "int option"
  dp_Selector :: "label_selector option"
  dp_Template :: pod_template
  dp_ObservedGeneration :: int
  dp_UpdatedReplicas :: int
  dp_StatusReplicas :: int
  dp_AvailableReplicas :: int
  dp_UnavailableReplicas :: int

record statefulset =
  ss_Namespace :: string
  ss_Name :: string
  ss_UID :: string
  ss_Generation :: int
  ss_UpdateStrategy :: string
  ss_Replicas :: "int option"
  ss_Selector :: "label_selector option"
  ss_Template :: pod_template
  ss_ObservedGeneration :: int
  ss_CurrentRevision :: string
  ss_UpdateRevision :: string
  ss_UpdatedReplicas :: int
  ss_StatusReplicas :: int
  ss_ReadyReplicas :: int

record replicaset =
  rs_Namespace :: string
  rs_Name :: string
  rs_Annotations :: labels
  rs_Labels :: labels
  rs_Owners :: "owner_ref list"

text \<open>An unstructured Rollout: its metadata accessors and its content.\<close>

record rollout =
  ro_Namespace :: string
  ro_Name :: string
  ro_UID :: string
  ro_Generation :: int
  ro_Object :: json

datatype wobject = WDeployment deployment | WStatefulSet statefulset | WRollout rollout

fun wobject_UID :: "wobject \<Rightarrow> string" where
  "wobject_UID (WDeployment d) = dp_UID d"
| "wobject_UID (WStatefulSet s) = ss_UID s"
| "wobject_UID (WRollout r) = ro_UID r"

type_synonym selector = "labels \<Rightarrow> bool"

section \<open>Third-party library functions\<close>

text \<open>
  \<open>l_NestedString obj path\<close> and its siblings return the value (the zero value when it is absent or of
  another type), whether it was found, and the error.
\<close>

record lib =
  l_Marshal :: "pod_template \<Rightarrow> string result"
  l_Sum256 :: "string \<Rightarrow> nat list"
  l_NestedString :: "json \<Rightarrow> string list \<Rightarrow> string \<times> bool \<times> err option"
  l_NestedInt64 :: "json \<Rightarrow> string list \<Rightarrow> int \<times> bool \<times> err option"
  l_NestedMap :: "json \<Rightarrow> string list \<Rightarrow> json \<times> bool \<times> err option"
  l_SetNestedField :: "json \<Rightarrow> string \<Rightarrow> string list \<Rightarrow> json result"
  l_FromUnstructured :: "json \<Rightarrow> label_selector result"
  l_LabelSelectorAsSelector :: "label_selector option \<Rightarrow> selector result"
  l_ControllerOf :: "owner_ref list \<Rightarrow> owner_ref option"
  l_SetStatusCondition :: "condition list \<Rightarrow> condition \<Rightarrow> condition list"
  l_ContainsFinalizer :: "string list \<Rightarrow> string \<Rightarrow> bool"
  l_AddFinalizer :: "string list \<Rightarrow> string \<Rightarrow> string list \<times> bool"
  l_RemoveFinalizer :: "string list \<Rightarrow> string \<Rightarrow> string list"
  l_Plot :: "rat list \<Rightarrow> nat option \<Rightarrow> string \<Rightarrow> string"
  l_tzdb :: tzdb

section \<open>The API server, the clock and the network\<close>

record http_request =
  hq_Method :: string
  hq_URL :: string
  hq_Headers :: "(string \<times> string) list"
  hq_Body :: "json option"

text \<open>A response: its status code, and what reading and what decoding its body gives.\<close>

record http_response =
  hr_StatusCode :: int
  hr_Bytes :: "nat list result"
  hr_Json :: "json result"

record 'w api =
  a_Now :: "'w \<Rightarrow> time \<times> 'w"
  a_GetPolicy :: "string \<Rightarrow> string \<Rightarrow> 'w \<Rightarrow> policy result \<times> 'w"
  a_GetDeployment :: "string \<Rightarrow> string \<Rightarrow> 'w \<Rightarrow> deployment result \<times> 'w"
  a_GetStatefulSet :: "string \<Rightarrow> string \<Rightarrow> 'w \<Rightarrow> statefulset result \<times> 'w"
  a_GetReplicaSet :: "string \<Rightarrow> string \<Rightarrow> 'w \<Rightarrow> replicaset result \<times> 'w"
  a_GetRollout :: "string \<Rightarrow> string \<Rightarrow> 'w \<Rightarrow> rollout result \<times> 'w"
  a_ListPods :: "string \<Rightarrow> selector \<Rightarrow> 'w \<Rightarrow> pod list result \<times> 'w"
  a_ListPolicies :: "string \<Rightarrow> 'w \<Rightarrow> policy list result \<times> 'w"
  a_UpdatePolicy :: "policy \<Rightarrow> 'w \<Rightarrow> policy result \<times> 'w"
  a_UpdateStatus :: "policy \<Rightarrow> 'w \<Rightarrow> policy result \<times> 'w"
  a_PatchDeployment :: "deployment \<Rightarrow> deployment \<Rightarrow> 'w \<Rightarrow> deployment result \<times> 'w"
  a_PatchStatefulSet :: "statefulset \<Rightarrow> statefulset \<Rightarrow> 'w \<Rightarrow> statefulset result \<times> 'w"
  a_PatchRollout :: "rollout \<Rightarrow> rollout \<Rightarrow> 'w \<Rightarrow> rollout result \<times> 'w"
  a_Do :: "http_request \<Rightarrow> 'w \<Rightarrow> http_response result \<times> 'w"
  a_WriteFile :: "string \<Rightarrow> nat list \<Rightarrow> 'w \<Rightarrow> unit result \<times> 'w"
  a_Upload :: "string \<Rightarrow> string \<Rightarrow> nat list \<Rightarrow> 'w \<Rightarrow> unit result \<times> 'w"

section \<open>Effects and the state of the process\<close>

text \<open>
  The effects a step leaves behind, newest first in the trace: writes to the API server with whether
  they succeeded, events with the object they are recorded on, counters, gauges, log lines, requests
  sent, and policies put on the reconcile queue.
\<close>

datatype target_ref = RefPod string string | RefPolicy string string | RefWorkload "wobject option"

datatype effect =
    EUpdatePolicy policy bool
  | EUpdateStatus policy bool
  | EPatch wobject wobject bool
  | EEvent target_ref string string string string
  | ECounter string "string list"
  | EGauge string "string list" int
  | EGaugeReset string
  | ELog string
  | EHTTP http_request
  | EStore string nat
  | EEnqueue string string

record 'w sys =
  sy_World :: 'w
  sy_Gate :: gate
  sy_Samples :: sample_store
  sy_Warned :: "string fset"
  sy_WouldRestart :: "(string, time) fmap"
  sy_Trace :: "effect list"

type_synonym ('w, 'a) op = "('w sys, 'a) state"

text \<open>A call to the platform acts on the world alone.\<close>

definition call :: "('w \<Rightarrow> 'a \<times> 'w) \<Rightarrow> ('w, 'a) op" where
  "call f = State (\<lambda>s. case f (sy_World s) of (a, w) \<Rightarrow> (a, s\<lparr>sy_World := w\<rparr>))"

definition emit :: "effect \<Rightarrow> ('w, unit) op" where
  "emit e = State (\<lambda>s. ((), s\<lparr>sy_Trace := e # sy_Trace s\<rparr>))"

definition get_gate :: "('w, gate) op" where
  "get_gate = State (\<lambda>s. (sy_Gate s, s))"

definition put_gate :: "gate \<Rightarrow> ('w, unit) op" where
  "put_gate g = State (\<lambda>s. ((), s\<lparr>sy_Gate := g\<rparr>))"

definition get_samples :: "('w, sample_store) op" where
  "get_samples = State (\<lambda>s. (sy_Samples s, s))"

definition put_samples :: "sample_store \<Rightarrow> ('w, unit) op" where
  "put_samples st = State (\<lambda>s. ((), s\<lparr>sy_Samples := st\<rparr>))"

lemma wp_call [wp_simps, simp]:
  "wp (call f) Q s = (case f (sy_World s) of (a, w) \<Rightarrow> Q a (s\<lparr>sy_World := w\<rparr>))"
  by (simp add: call_def split: prod.splits)

lemma wp_emit [wp_simps, simp]: "wp (emit e) Q s = Q () (s\<lparr>sy_Trace := e # sy_Trace s\<rparr>)"
  by (simp add: emit_def)

lemma wp_gets [wp_simps, simp]:
  "wp get_gate P s = P (sy_Gate s) s" "wp get_samples Q s = Q (sy_Samples s) s"
  by (simp_all add: get_gate_def get_samples_def)

lemma wp_puts [wp_simps, simp]:
  "wp (put_gate g) Q s = Q () (s\<lparr>sy_Gate := g\<rparr>)" "wp (put_samples st) Q s = Q () (s\<lparr>sy_Samples := st\<rparr>)"
  by (simp_all add: put_gate_def put_samples_def)

text \<open>The writes, with their record in the trace.\<close>

definition update_policy :: "'w api \<Rightarrow> policy \<Rightarrow> ('w, policy result) op" where
  "update_policy A p = do {
     r \<leftarrow> call (a_UpdatePolicy A p);
     emit (EUpdatePolicy p (is_ok r));
     ret r }"

definition update_status :: "'w api \<Rightarrow> policy \<Rightarrow> ('w, policy result) op" where
  "update_status A p = do {
     r \<leftarrow> call (a_UpdateStatus A p);
     emit (EUpdateStatus p (is_ok r));
     ret r }"

definition patch_object :: "('w \<Rightarrow> 'a result \<times> 'w) \<Rightarrow> wobject \<Rightarrow> wobject \<Rightarrow> ('w, 'a result) op" where
  "patch_object f old new = do {
     r \<leftarrow> call f;
     emit (EPatch old new (is_ok r));
     ret r }"

definition http_do :: "'w api \<Rightarrow> http_request \<Rightarrow> ('w, http_response result) op" where
  "http_do A q = do {
     emit (EHTTP q);
     call (a_Do A q) }"

text \<open>
  Two notions every component is proved against: keeping a view of the state unchanged whatever
  happens, and only adding effects of one sort to the trace.
\<close>

definition keeps :: "('w sys \<Rightarrow> 'v) \<Rightarrow> ('w, 'a) op \<Rightarrow> bool" where
  "keeps v m \<longleftrightarrow> (\<forall>s. wp m (\<lambda>_ t. v t = v s) s)"

definition adds :: "(effect \<Rightarrow> bool) \<Rightarrow> ('w, 'a) op \<Rightarrow> bool" where
  "adds P m \<longleftrightarrow> (\<forall>s. wp m (\<lambda>_ t. \<exists>es. sy_Trace t = es @ sy_Trace s \<and> list_all P es) s)"

named_theorems keeping \<open>operations that leave a view of the state unchanged\<close>
named_theorems adding \<open>operations that only add effects of one sort\<close>

lemma keepsD: "keeps v m \<Longrightarrow> wp m (\<lambda>_ t. v t = v s) s"
  by (simp add: keeps_def)

lemma keepsI: "(\<And>s. wp m (\<lambda>_ t. v t = v s) s) \<Longrightarrow> keeps v m"
  by (simp add: keeps_def)

lemma addsI: "(\<And>s. wp m (\<lambda>_ t. \<exists>es. sy_Trace t = es @ sy_Trace s \<and> list_all P es) s) \<Longrightarrow> adds P m"
  by (simp add: adds_def)

lemma addsD: "adds P m \<Longrightarrow> wp m (\<lambda>_ t. \<exists>es. sy_Trace t = es @ sy_Trace s \<and> list_all P es) s"
  by (simp add: adds_def)

lemma keeps_run: "keeps v m \<Longrightarrow> run_state m s = (a, t) \<Longrightarrow> v t = v s"
  by (auto simp: keeps_def dest: spec [of _ s] wp_run)

lemma adds_run:
  "adds P m \<Longrightarrow> run_state m s = (a, t) \<Longrightarrow> \<exists>es. sy_Trace t = es @ sy_Trace s \<and> list_all P es"
  by (auto simp: adds_def dest!: spec [of _ s] dest: wp_run)

lemma keeps_return [keeping]: "keeps v (ret a)"
  by (simp add: keeps_def)

lemma adds_return [adding]: "adds P (ret a)"
  by (simp add: adds_def)

lemma keeps_bind [keeping]:
  assumes "keeps v m" and "\<And>a. keeps v (f a)"
  shows "keeps v (State_Monad.bind m f)"
proof (rule keepsI)
  fix s
  obtain a t where m: "run_state m s = (a, t)" by (cases "run_state m s")
  have "wp (f a) (\<lambda>_ u. v u = v t) t" using assms(2) by (rule keepsD)
  then show "wp (State_Monad.bind m f) (\<lambda>_ t. v t = v s) s"
    using keeps_run [OF assms(1) m] by (simp add: wp_def m)
qed

lemma adds_bind [adding]:
  assumes "adds P m" and "\<And>a. adds P (f a)"
  shows "adds P (State_Monad.bind m f)"
proof (rule addsI)
  fix s
  obtain a t where m: "run_state m s = (a, t)" by (cases "run_state m s")
  obtain b u where f: "run_state (f a) t = (b, u)" by (cases "run_state (f a) t")
  obtain es fs where "sy_Trace t = es @ sy_Trace s" "list_all P es"
    "sy_Trace u = fs @ sy_Trace t" "list_all P fs"
    using adds_run [OF assms(1) m] adds_run [OF assms(2) f] by blast
  then show "wp (State_Monad.bind m f) (\<lambda>_ t. \<exists>es. sy_Trace t = es @ sy_Trace s \<and> list_all P es) s"
    by (auto simp: wp_def m f intro!: exI [of _ "fs @ es"])
qed

lemma keeps_branch [keeping]:
  "(b \<Longrightarrow> keeps v m) \<Longrightarrow> (\<not> b \<Longrightarrow> keeps v n) \<Longrightarrow> keeps v (if b then m else n)"
  "(\<And>e. r = Inl e \<Longrightarrow> keeps v (f e)) \<Longrightarrow> (\<And>x. r = Inr x \<Longrightarrow> keeps v (g x)) \<Longrightarrow>
   keeps v (case r of Inl e \<Rightarrow> f e | Inr x \<Rightarrow> g x)"
  "(opt = None \<Longrightarrow> keeps v h) \<Longrightarrow> (\<And>y. opt = Some y \<Longrightarrow> keeps v (k y)) \<Longrightarrow>
   keeps v (case opt of None \<Rightarrow> h | Some y \<Rightarrow> k y)"
  "(\<And>a c. p = (a, c) \<Longrightarrow> keeps v (q a c)) \<Longrightarrow> keeps v (case p of (a, c) \<Rightarrow> q a c)"
  "(\<And>z. z = t \<Longrightarrow> keeps v (w z)) \<Longrightarrow> keeps v (Let t w)"
  by (cases b; cases r; cases opt; cases p; simp add: Let_def)+

lemma adds_branch [adding]:
  "(b \<Longrightarrow> adds P m) \<Longrightarrow> (\<not> b \<Longrightarrow> adds P n) \<Longrightarrow> adds P (if b then m else n)"
  "(\<And>e. r = Inl e \<Longrightarrow> adds P (f e)) \<Longrightarrow> (\<And>x. r = Inr x \<Longrightarrow> adds P (g x)) \<Longrightarrow>
   adds P (case r of Inl e \<Rightarrow> f e | Inr x \<Rightarrow> g x)"
  "(opt = None \<Longrightarrow> adds P h) \<Longrightarrow> (\<And>y. opt = Some y \<Longrightarrow> adds P (k y)) \<Longrightarrow>
   adds P (case opt of None \<Rightarrow> h | Some y \<Rightarrow> k y)"
  "(\<And>a c. p = (a, c) \<Longrightarrow> adds P (q a c)) \<Longrightarrow> adds P (case p of (a, c) \<Rightarrow> q a c)"
  "(\<And>z. z = t \<Longrightarrow> adds P (w z)) \<Longrightarrow> adds P (Let t w)"
  by (cases b; cases r; cases opt; cases p; simp add: Let_def)+

lemma adds_call [adding]: "adds P (call f)"
  by (auto simp: adds_def call_def split: prod.splits)

lemma adds_emit [adding]: "P e \<Longrightarrow> adds P (emit e)"
  by (auto simp: adds_def intro!: exI [of _ "[e]"])

lemma adds_state [adding]: "adds P get_gate" "adds P (put_gate g)" "adds P get_samples" "adds P (put_samples st)"
  by (auto simp: adds_def)

lemma adds_mono: "adds P m \<Longrightarrow> (\<And>e. P e \<Longrightarrow> Q e) \<Longrightarrow> adds Q m"
  unfolding adds_def by (blast intro: wp_mono list.pred_mono_strong)

lemma keeps_gate_call [keeping]: "keeps sy_Gate (call f)" "keeps sy_Samples (call f)" "keeps sy_Trace (call f)"
  by (auto simp: keeps_def call_def split: prod.splits)

lemma keeps_gate_emit [keeping]: "keeps sy_Gate (emit e)" "keeps sy_Samples (emit e)" "keeps sy_World (emit e)"
  by (auto simp: keeps_def)

lemma keeps_gets [keeping]: "keeps v get_gate" "keeps v get_samples"
  by (auto simp: keeps_def)

end
