(* ===== verification/Demo.thy ===== *)
theory Demo
  imports Platform "HOL-Library.AList"
begin

text \<open>
  A concrete platform for the witnesses: library functions that behave as documented on small inputs,
  a cluster of constant objects whose world counts the writes, and the laws of the library that some
  properties assume, proved for it.
\<close>

section \<open>Unstructured objects\<close>

fun json_get :: "json \<Rightarrow> string list \<Rightarrow> json option" where
  "json_get j [] = Some j"
| "json_get (JObj kvs) (k # ks) = (case map_of kvs k of None \<Rightarrow> None | Some j \<Rightarrow> json_get j ks)"
| "json_get j (k # ks) = None"

fun json_set :: "json \<Rightarrow> json \<Rightarrow> string list \<Rightarrow> json result" where
  "json_set j v [] = Inr v"
| "json_set (JObj kvs) v (k # ks) =
     (case json_set (case map_of kvs k of None \<Rightarrow> JObj [] | Some j \<Rightarrow> j) v ks of
        Inl e \<Rightarrow> Inl e
      | Inr j \<Rightarrow> Inr (JObj (AList.update k j kvs)))"
| "json_set j v (k # ks) = Inl (ErrMsg ''value is not a map'')"

definition json_NestedString :: "json \<Rightarrow> string list \<Rightarrow> string \<times> bool \<times> err option" where
  "json_NestedString j p = (case json_get j p of
      None \<Rightarrow> ('''', False, None)
    | Some (JStr s) \<Rightarrow> (s, True, None)
    | Some _ \<Rightarrow> ('''', False, Some (ErrMsg ''not a string'')))"

definition json_NestedInt64 :: "json \<Rightarrow> string list \<Rightarrow> int \<times> bool \<times> err option" where
  "json_NestedInt64 j p = (case json_get j p of
      None \<Rightarrow> (0, False, None)
    | Some (JInt n) \<Rightarrow> (n, True, None)
    | Some _ \<Rightarrow> (0, False, Some (ErrMsg ''not an integer'')))"

definition json_NestedMap :: "json \<Rightarrow> string list \<Rightarrow> json \<times> bool \<times> err option" where
  "json_NestedMap j p = (case json_get j p of
      None \<Rightarrow> (JNull, False, None)
    | Some (JObj kvs) \<Rightarrow> (JObj kvs, True, None)
    | Some _ \<Rightarrow> (JNull, False, Some (ErrMsg ''not a map'')))"

section \<open>The library\<close>

definition demo_marshal :: "pod_template \<Rightarrow> string result" where
  "demo_marshal t = Inr (tm_Rest t @ (case tm_Annotations t of None \<Rightarrow> '''' | Some m \<Rightarrow> map_get m ''team''))"

fun demo_set_condition :: "condition list \<Rightarrow> condition \<Rightarrow> condition list" where
  "demo_set_condition [] c = [c]"
| "demo_set_condition (d # ds) c =
     (if cond_Type d = cond_Type c
      then (if cond_Status d = cond_Status c
            then c\<lparr>cond_LastTransitionTime := cond_LastTransitionTime d\<rparr> else c) # ds
      else d # demo_set_condition ds c)"

definition demo_lib :: lib where
  "demo_lib = \<lparr>l_Marshal = demo_marshal, l_Sum256 = (\<lambda>s. map of_char s @ replicate 32 0),
     l_NestedString = json_NestedString, l_NestedInt64 = json_NestedInt64, l_NestedMap = json_NestedMap,
     l_SetNestedField = (\<lambda>j v p. json_set j (JStr v) p),
     l_FromUnstructured = (\<lambda>j. Inr j), l_LabelSelectorAsSelector = (\<lambda>s. Inr (\<lambda>m. True)),
     l_ControllerOf = (\<lambda>os. find or_Controller os),
     l_SetStatusCondition = demo_set_condition,
     l_ContainsFinalizer = (\<lambda>fs f. f \<in> set fs),
     l_AddFinalizer = (\<lambda>fs f. if f \<in> set fs then (fs, False) else (fs @ [f], True)),
     l_RemoveFinalizer = (\<lambda>fs f. filter (\<lambda>g. g \<noteq> f) fs),
     l_Plot = (\<lambda>data width caption. caption),
     l_tzdb = (\<lambda>n. Inl (ErrMsg n))\<rparr>"



section \<open>The cluster\<close>

record cluster =
  cl_Now :: time
  cl_Policies :: "policy list"
  cl_Deployments :: "deployment list"
  cl_ReplicaSets :: "replicaset list"
  cl_Pods :: "pod list"

definition as_found :: "'a option \<Rightarrow> 'a result" where
  "as_found r = (case r of None \<Rightarrow> Inl ErrNotFound | Some x \<Rightarrow> Inr x)"

text \<open>A write needs the resource version of the stored object and bumps it.\<close>

definition write_policy :: "(policy \<Rightarrow> policy \<Rightarrow> policy) \<Rightarrow> policy \<Rightarrow> cluster \<Rightarrow> policy result \<times> cluster" where
  "write_policy merge p w =
     (case find (\<lambda>q. p_Namespace q = p_Namespace p \<and> p_Name q = p_Name p) (cl_Policies w) of
        None \<Rightarrow> (Inl ErrNotFound, w)
      | Some q \<Rightarrow>
          if p_ResourceVersion q \<noteq> p_ResourceVersion p then (Inl ErrConflict, w)
          else let new = (merge q p)\<lparr>p_ResourceVersion := p_ResourceVersion q @ ''+''\<rparr>
               in (Inr new, w\<lparr>cl_Policies := map (\<lambda>r. if p_Namespace r = p_Namespace p \<and> p_Name r = p_Name p
                                                    then new else r) (cl_Policies w)\<rparr>))"

definition patch_cluster :: "deployment \<Rightarrow> deployment \<Rightarrow> cluster \<Rightarrow> deployment result \<times> cluster" where
  "patch_cluster old d w =
     (Inr d, w\<lparr>cl_Deployments := map (\<lambda>e. if dp_Namespace e = dp_Namespace d \<and> dp_Name e = dp_Name d
                                         then d else e) (cl_Deployments w)\<rparr>)"

definition demo_api :: "cluster api" where
  "demo_api = \<lparr>a_Now = (\<lambda>w. (cl_Now w, w)),
     a_GetPolicy = (\<lambda>ns n w. (as_found (find (\<lambda>p. p_Namespace p = ns \<and> p_Name p = n) (cl_Policies w)), w)),
     a_GetDeployment = (\<lambda>ns n w. (as_found (find (\<lambda>d. dp_Namespace d = ns \<and> dp_Name d = n) (cl_Deployments w)), w)),
     a_GetStatefulSet = (\<lambda>ns n w. (Inl ErrNotFound, w)),
     a_GetReplicaSet = (\<lambda>ns n w. (as_found (find (\<lambda>r. rs_Namespace r = ns \<and> rs_Name r = n) (cl_ReplicaSets w)), w)),
     a_GetRollout = (\<lambda>ns n w. (Inl ErrNotFound, w)),
     a_ListPods = (\<lambda>ns sel w. (Inr (filter (\<lambda>p. pod_Namespace p = ns \<and> sel (pod_Labels p)) (cl_Pods w)), w)),
     a_ListPolicies = (\<lambda>ns w. (Inr (filter (\<lambda>p. (ns = '''' \<or> p_Namespace p = ns)
         \<and> find (\<lambda>q. p_Namespace q = p_Namespace p \<and> p_Name q = p_Name p) (cl_Policies w) = Some p) (cl_Policies w)), w)),
     a_UpdatePolicy = write_policy (\<lambda>q p. p\<lparr>p_Status := p_Status q\<rparr>),
     a_UpdateStatus = write_policy (\<lambda>q p. q\<lparr>p_Status := p_Status p\<rparr>),
     a_PatchDeployment = patch_cluster,
     a_PatchStatefulSet = (\<lambda>x y w. (Inl ErrNotFound, w)),
     a_PatchRollout = (\<lambda>x y w. (Inl ErrNotFound, w)),
     a_Do = (\<lambda>q w. (Inr \<lparr>hr_StatusCode = 200, hr_Bytes = Inr [], hr_Json = Inr (JObj [])\<rparr>, w)),
     a_WriteFile = (\<lambda>path data w. (Inr (), w)),
     a_Upload = (\<lambda>bucket key data w. (Inr (), w))\<rparr>"

definition demo_sys :: "cluster \<Rightarrow> gate \<Rightarrow> sample_store \<Rightarrow> cluster sys" where
  "demo_sys w g st = \<lparr>sy_World = w, sy_Gate = g, sy_Samples = st, sy_Warned = {||}, sy_WouldRestart = fmempty,
     sy_Trace = []\<rparr>"

section \<open>Laws of the library\<close>

text \<open>
  \<open>encoding/json\<close> leaves out an empty map of a field tagged \<open>omitempty\<close>, as the annotations of a template are.
\<close>

definition marshal_omits_empty :: "lib \<Rightarrow> bool" where
  "marshal_omits_empty L \<longleftrightarrow>
     (\<forall>t. l_Marshal L (t\<lparr>tm_Annotations := Some fmempty\<rparr>) = l_Marshal L (t\<lparr>tm_Annotations := None\<rparr>))"

text \<open>Setting a field below \<open>spec\<close> leaves what is read below \<open>status\<close> alone.\<close>

definition set_field_local :: "lib \<Rightarrow> bool" where
  "set_field_local L \<longleftrightarrow> (\<forall>obj v p obj' q.
     l_SetNestedField L obj v (''spec'' # p) = Inr obj' \<longrightarrow>
     l_NestedString L obj' (''status'' # q) = l_NestedString L obj (''status'' # q))"

lemma demo_marshal_omits_empty: "marshal_omits_empty demo_lib"
  by (simp add: marshal_omits_empty_def demo_lib_def demo_marshal_def map_get_def)

lemma demo_set_field_local: "set_field_local demo_lib"
proof -
  have "json_NestedString obj' (''status'' # q) = json_NestedString obj (''status'' # q)"
    if "json_set obj (JStr v) (''spec'' # p) = Inr obj'" for obj v p obj' q
    using that by (cases obj) (auto simp: json_NestedString_def update_conv split: sum.splits)
  then show ?thesis by (simp add: set_field_local_def demo_lib_def)
qed

end
