(* ===== verification/Config.thy ===== *)
theory Config
  imports ApiTypes GoStrings
begin

text \<open>
  \<open>internal/config\<close>: the effective configuration of a workload, from the controller-wide defaults
  overlaid with the policy's specification, and of one container, with its override on top.
\<close>

section \<open>Keys\<close>

definition ContainersAll :: string where "ContainersAll = ''*''"
definition AnnotationDefaultContainer :: string where
  "AnnotationDefaultContainer = ''kubectl.kubernetes.io/default-container''"
definition AnnotationRestartedAt :: string where
  "AnnotationRestartedAt = ''kubectl.kubernetes.io/restartedAt''"
definition AnnotationDeploymentRevision :: string where
  "AnnotationDeploymentRevision = ''deployment.kubernetes.io/revision''"
definition LabelControllerRevHash :: string where
  "LabelControllerRevHash = ''controller-revision-hash''"
definition LabelRolloutPodTemplateHash :: string where
  "LabelRolloutPodTemplateHash = ''rollouts-pod-template-hash''"

section \<open>Modes\<close>

definition ModeSustained :: string where "ModeSustained = ''sustained''"
definition ModeTrend :: string where "ModeTrend = ''trend''"
definition ModeCombined :: string where "ModeCombined = ''combined''"

lemmas mode_defs = ModeSustained_def ModeTrend_def ModeCombined_def

definition ParseMode :: "string \<Rightarrow> string result" where
  "ParseMode s = (if s = ModeSustained \<or> s = ModeTrend \<or> s = ModeCombined then Inr s
                  else Inl (ErrMsg (''invalid mode '' @ quote s @ '' (want sustained|trend|combined)'')))"

section \<open>Configurations\<close>

record detection =
  d_Mode :: string
  d_ThresholdPercent :: int
  d_ThresholdAbsolute :: "quantity option"
  d_Window :: duration
  d_TrendMinGrowth :: quantity

record defaults =
  df_Detection :: detection
  df_SampleInterval :: duration
  df_StartupGrace :: duration
  df_Cooldown :: duration
  df_RestartWindow :: duration
  df_MaxRestartsPerWindow :: int

record pod_config =
  pc_Base :: detection
  pc_StartupGrace :: duration
  pc_Cooldown :: duration
  pc_RestartWindow :: duration
  pc_MaxRestartsPerWindow :: int
  pc_DryRun :: bool
  pc_Containers :: "string list"
  pc_Overrides :: "container_override list"
  pc_ProfileCapture :: "bool option"
  pc_PprofPath :: string
  pc_MaintenanceWindows :: "maintenance_window list"
  pc_NotifyRoutes :: "string list"
  pc_SlackChannel :: string

section \<open>Resolution\<close>

definition resolveDetection :: "detection \<Rightarrow> detection_spec \<Rightarrow> detection" where
  "resolveDetection base s =
     (let d = base;
          d = (if ds_Mode s \<noteq> '''' then d\<lparr>d_Mode := ds_Mode s\<rparr> else d);
          d = (if ds_ThresholdPercent s \<noteq> 0
               then d\<lparr>d_ThresholdPercent := ds_ThresholdPercent s\<rparr> else d);
          d = (case ds_ThresholdAbsolute s of None \<Rightarrow> d
               | Some q \<Rightarrow> d\<lparr>d_ThresholdAbsolute := Some q\<rparr>);
          d = (case ds_Window s of None \<Rightarrow> d | Some w \<Rightarrow> d\<lparr>d_Window := w\<rparr>);
          d = (case ds_TrendMinGrowth s of None \<Rightarrow> d | Some q \<Rightarrow> d\<lparr>d_TrendMinGrowth := q\<rparr>)
      in d)"

definition ResolvePolicy :: "defaults \<Rightarrow> policy_spec \<Rightarrow> pod_config" where
  "ResolvePolicy d spec =
     (let p = \<lparr>pc_Base = resolveDetection (df_Detection d) (sp_Detection spec),
               pc_StartupGrace = df_StartupGrace d,
               pc_Cooldown = df_Cooldown d,
               pc_RestartWindow = df_RestartWindow d,
               pc_MaxRestartsPerWindow = df_MaxRestartsPerWindow d,
               pc_DryRun = True,
               pc_Containers = sp_Containers spec,
               pc_Overrides = sp_ContainerOverrides spec,
               pc_ProfileCapture = sp_ProfileCapture spec,
               pc_PprofPath = sp_PprofPath spec,
               pc_MaintenanceWindows = sp_MaintenanceWindows spec,
               pc_NotifyRoutes = sp_NotifyRoutes spec,
               pc_SlackChannel = sp_SlackChannel spec\<rparr>;
          p = (case sp_Cooldown spec of None \<Rightarrow> p | Some x \<Rightarrow> p\<lparr>pc_Cooldown := x\<rparr>);
          p = (case sp_StartupGrace spec of None \<Rightarrow> p | Some x \<Rightarrow> p\<lparr>pc_StartupGrace := x\<rparr>);
          p = (case sp_RestartWindow spec of None \<Rightarrow> p | Some x \<Rightarrow> p\<lparr>pc_RestartWindow := x\<rparr>);
          p = (case sp_MaxRestartsPerWindow spec of None \<Rightarrow> p
               | Some x \<Rightarrow> p\<lparr>pc_MaxRestartsPerWindow := x\<rparr>);
          p = (case sp_DryRun spec of None \<Rightarrow> p | Some x \<Rightarrow> p\<lparr>pc_DryRun := x\<rparr>)
      in p)"

text \<open>The first override with the container's name wins.\<close>

fun find_override :: "container_override list \<Rightarrow> string \<Rightarrow> container_override option" where
  "find_override [] name = None"
| "find_override (ov # ovs) name = (if co_Name ov = name then Some ov else find_override ovs name)"

definition ForContainer :: "pod_config \<Rightarrow> string \<Rightarrow> detection" where
  "ForContainer p name = (case find_override (pc_Overrides p) name of
      None \<Rightarrow> pc_Base p
    | Some ov \<Rightarrow> resolveDetection (pc_Base p) (co_Detection ov))"

section \<open>Lemmas\<close>

text \<open>Resolution field by field: a set field of the specification wins, an unset one inherits.\<close>

lemma resolveDetection_fields:
  "d_Mode (resolveDetection b s) = (if ds_Mode s = '''' then d_Mode b else ds_Mode s)"
  "d_ThresholdPercent (resolveDetection b s) =
     (if ds_ThresholdPercent s = 0 then d_ThresholdPercent b else ds_ThresholdPercent s)"
  "d_ThresholdAbsolute (resolveDetection b s) =
     (case ds_ThresholdAbsolute s of None \<Rightarrow> d_ThresholdAbsolute b | Some q \<Rightarrow> Some q)"
  "d_Window (resolveDetection b s) = (case ds_Window s of None \<Rightarrow> d_Window b | Some w \<Rightarrow> w)"
  "d_TrendMinGrowth (resolveDetection b s) =
     (case ds_TrendMinGrowth s of None \<Rightarrow> d_TrendMinGrowth b | Some q \<Rightarrow> q)"
  by (simp_all add: resolveDetection_def Let_def split: option.splits)

lemma ResolvePolicy_fields [simp]:
  "pc_Base (ResolvePolicy d s) = resolveDetection (df_Detection d) (sp_Detection s)"
  "pc_StartupGrace (ResolvePolicy d s) = (case sp_StartupGrace s of None \<Rightarrow> df_StartupGrace d | Some x \<Rightarrow> x)"
  "pc_Cooldown (ResolvePolicy d s) = (case sp_Cooldown s of None \<Rightarrow> df_Cooldown d | Some x \<Rightarrow> x)"
  "pc_RestartWindow (ResolvePolicy d s) = (case sp_RestartWindow s of None \<Rightarrow> df_RestartWindow d | Some x \<Rightarrow> x)"
  "pc_MaxRestartsPerWindow (ResolvePolicy d s) =
     (case sp_MaxRestartsPerWindow s of None \<Rightarrow> df_MaxRestartsPerWindow d | Some x \<Rightarrow> x)"
  "pc_DryRun (ResolvePolicy d s) = (sp_DryRun s \<noteq> Some False)"
  "pc_Containers (ResolvePolicy d s) = sp_Containers s"
  "pc_Overrides (ResolvePolicy d s) = sp_ContainerOverrides s"
  "pc_ProfileCapture (ResolvePolicy d s) = sp_ProfileCapture s"
  "pc_PprofPath (ResolvePolicy d s) = sp_PprofPath s"
  "pc_MaintenanceWindows (ResolvePolicy d s) = sp_MaintenanceWindows s"
  "pc_NotifyRoutes (ResolvePolicy d s) = sp_NotifyRoutes s"
  "pc_SlackChannel (ResolvePolicy d s) = sp_SlackChannel s"
  by (auto simp: ResolvePolicy_def Let_def split: option.splits)

lemma find_override_None: "find_override ovs name = None \<longleftrightarrow> name \<notin> co_Name ` set ovs"
  by (induction ovs) auto

lemma find_override_Some:
  "find_override ovs name = Some ov \<Longrightarrow> ov \<in> set ovs \<and> co_Name ov = name"
  by (induction ovs) (auto split: if_splits)

end
