(* ===== verification/Workload.thy ===== *)
theory Workload
  imports Demo Config
begin

text \<open>
  \<open>internal/restart/restart.go\<close> and the version fingerprint and UID of \<open>breaker.go\<close> and \<open>store.go\<close>:
  finding the workload that owns a pod, whether the pod is of its current revision, whether a rollout is
  in progress, and the restart itself. A nil pointer dereference of the source is the result
  \<open>NilDeref\<close>.
\<close>

section \<open>Kinds and workloads\<close>

definition KindDeployment :: string where "KindDeployment = ''Deployment''"
definition KindStatefulSet :: string where "KindStatefulSet = ''StatefulSet''"
definition KindRollout :: string where "KindRollout = ''Rollout''"

lemmas kind_defs = KindDeployment_def KindStatefulSet_def KindRollout_def

record kinds =
  kd_Deployments :: bool
  kd_StatefulSets :: bool
  kd_Rollouts :: bool

record workload =
  wl_Kind :: string
  wl_Namespace :: string
  wl_Name :: string
  wl_dep :: "deployment option"
  wl_sts :: "statefulset option"
  wl_rollout :: "rollout option"
  wl_rs :: "replicaset option"
  wl_pod :: "pod option"

text \<open>A composite literal \<open>&Workload{Kind: k, Ref: {ns, n}}\<close>; the other fields are nil.\<close>

definition bare_workload :: "string \<Rightarrow> string \<Rightarrow> string \<Rightarrow> workload" where
  "bare_workload k ns n = \<lparr>wl_Kind = k, wl_Namespace = ns, wl_Name = n, wl_dep = None, wl_sts = None,
     wl_rollout = None, wl_rs = None, wl_pod = None\<rparr>"

section \<open>Finding the workload\<close>

text \<open>
  \<open>ResolveOwner\<close>: through the controlling owner reference of the pod, and for a ReplicaSet through that
  of the ReplicaSet.
\<close>

definition resolve_statefulset :: "'w api \<Rightarrow> pod \<Rightarrow> owner_ref \<Rightarrow> ('w, workload result) op" where
  "resolve_statefulset A pod owner = do {
     r \<leftarrow> call (a_GetStatefulSet A (pod_Namespace pod) (or_Name owner));
     case r of
       Inl e \<Rightarrow> ret (Inl e)
     | Inr sts \<Rightarrow> ret (Inr ((bare_workload KindStatefulSet (ss_Namespace sts) (ss_Name sts))
                          \<lparr>wl_sts := Some sts, wl_pod := Some pod\<rparr>)) }"

definition resolve_replicaset :: "lib \<Rightarrow> 'w api \<Rightarrow> kinds \<Rightarrow> pod \<Rightarrow> owner_ref \<Rightarrow> ('w, workload result) op" where
  "resolve_replicaset L A kinds pod owner = do {
     r \<leftarrow> call (a_GetReplicaSet A (pod_Namespace pod) (or_Name owner));
     case r of
       Inl e \<Rightarrow> ret (Inl e)
     | Inr rs \<Rightarrow>
        (case l_ControllerOf L (rs_Owners rs) of
           None \<Rightarrow> ret (Inl ErrNoOwner)
         | Some rsOwner \<Rightarrow>
            if or_Kind rsOwner = ''Deployment'' \<and> kd_Deployments kinds then do {
              d \<leftarrow> call (a_GetDeployment A (pod_Namespace pod) (or_Name rsOwner));
              case d of
                Inl e \<Rightarrow> ret (Inl e)
              | Inr dep \<Rightarrow> ret (Inr ((bare_workload KindDeployment (dp_Namespace dep) (dp_Name dep))
                                   \<lparr>wl_dep := Some dep, wl_rs := Some rs, wl_pod := Some pod\<rparr>)) }
            else if or_Kind rsOwner = ''Rollout'' \<and> kd_Rollouts kinds then do {
              d \<leftarrow> call (a_GetRollout A (pod_Namespace pod) (or_Name rsOwner));
              case d of
                Inl e \<Rightarrow> ret (Inl e)
              | Inr ro \<Rightarrow> ret (Inr ((bare_workload KindRollout (pod_Namespace pod) (or_Name rsOwner))
                                  \<lparr>wl_rollout := Some ro, wl_rs := Some rs, wl_pod := Some pod\<rparr>)) }
            else ret (Inl ErrNoOwner)) }"

definition ResolveOwner :: "lib \<Rightarrow> 'w api \<Rightarrow> pod \<Rightarrow> kinds \<Rightarrow> ('w, workload result) op" where
  "ResolveOwner L A pod kinds = (case l_ControllerOf L (pod_Owners pod) of
      None \<Rightarrow> ret (Inl ErrNoOwner)
    | Some owner \<Rightarrow>
        if or_Kind owner = ''StatefulSet'' then
          if \<not> kd_StatefulSets kinds then ret (Inl ErrNoOwner)
          else resolve_statefulset A pod owner
        else if or_Kind owner = ''ReplicaSet'' then resolve_replicaset L A kinds pod owner
        else ret (Inl ErrNoOwner))"

definition GetWorkload :: "'w api \<Rightarrow> string \<Rightarrow> string \<Rightarrow> string \<Rightarrow> ('w, workload result) op" where
  "GetWorkload A kind ns name =
     (if kind = KindDeployment then do {
        r \<leftarrow> call (a_GetDeployment A ns name);
        case r of Inl e \<Rightarrow> ret (Inl e)
        | Inr dep \<Rightarrow> ret (Inr ((bare_workload KindDeployment ns name)\<lparr>wl_dep := Some dep\<rparr>)) }
      else if kind = KindStatefulSet then do {
        r \<leftarrow> call (a_GetStatefulSet A ns name);
        case r of Inl e \<Rightarrow> ret (Inl e)
        | Inr sts \<Rightarrow> ret (Inr ((bare_workload KindStatefulSet ns name)\<lparr>wl_sts := Some sts\<rparr>)) }
      else if kind = KindRollout then do {
        r \<leftarrow> call (a_GetRollout A ns name);
        case r of Inl e \<Rightarrow> ret (Inl e)
        | Inr ro \<Rightarrow> ret (Inr ((bare_workload KindRollout ns name)\<lparr>wl_rollout := Some ro\<rparr>)) }
      else ret (Inl ErrNoOwner))"

section \<open>Identity\<close>

definition WorkloadKey :: "string \<Rightarrow> string \<Rightarrow> string \<Rightarrow> string" where
  "WorkloadKey kind ns name = kind @ ''/'' @ ns @ ''/'' @ name"

text \<open>\<open>NamespacedName.String()\<close> is the namespace, a slash and the name.\<close>

definition Workload_Key :: "workload \<Rightarrow> string" where
  "Workload_Key w = wl_Kind w @ ''/'' @ (wl_Namespace w @ ''/'' @ wl_Name w)"

text \<open>
  \<open>Object()\<close> converts the pointer of the kind to an interface: the outer option is the interface's own
  nil, the inner one a nil pointer inside it, on which \<open>GetUID\<close> panics.
\<close>

definition Workload_Object :: "workload \<Rightarrow> wobject option option" where
  "Workload_Object w =
     (if wl_Kind w = KindDeployment then Some (map_option WDeployment (wl_dep w))
      else if wl_Kind w = KindStatefulSet then Some (map_option WStatefulSet (wl_sts w))
      else if wl_Kind w = KindRollout then Some (map_option WRollout (wl_rollout w))
      else None)"

definition Workload_UID :: "workload \<Rightarrow> string result" where
  "Workload_UID w = (case Workload_Object w of
      None \<Rightarrow> Inr ''''
    | Some None \<Rightarrow> Inl NilDeref
    | Some (Some obj) \<Rightarrow> Inr (wobject_UID obj))"

section \<open>Selector, revision and progress\<close>

definition PodSelector :: "lib \<Rightarrow> workload \<Rightarrow> selector result" where
  "PodSelector L w =
     (if wl_Kind w = KindDeployment then
        (case wl_dep w of None \<Rightarrow> Inl NilDeref
         | Some d \<Rightarrow> l_LabelSelectorAsSelector L (dp_Selector d))
      else if wl_Kind w = KindStatefulSet then
        (case wl_sts w of None \<Rightarrow> Inl NilDeref
         | Some s \<Rightarrow> l_LabelSelectorAsSelector L (ss_Selector s))
      else if wl_Kind w = KindRollout then
        (case wl_rollout w of None \<Rightarrow> Inl NilDeref
         | Some ro \<Rightarrow>
            (case l_NestedMap L (ro_Object ro) [''spec'', ''selector''] of (raw, found, err) \<Rightarrow>
               if err \<noteq> None \<or> \<not> found
               then Inl (ErrMsg (''rollout '' @ wl_Name w @ '': spec.selector not found''))
               else (case l_FromUnstructured L raw of
                       Inl e \<Rightarrow> Inl (ErrWrap (''rollout '' @ wl_Name w @ '': parse selector'') e)
                     | Inr ls \<Rightarrow> l_LabelSelectorAsSelector L (Some ls))))
      else Inl ErrNoOwner)"

definition IsCurrentRevision :: "lib \<Rightarrow> workload \<Rightarrow> bool result" where
  "IsCurrentRevision L w =
     (if wl_Kind w = KindDeployment then
        Inr (case (wl_rs w, wl_dep w) of
               (Some rs, Some dep) \<Rightarrow>
                 map_get (rs_Annotations rs) AnnotationDeploymentRevision \<noteq> '''' \<and>
                 map_get (rs_Annotations rs) AnnotationDeploymentRevision
                   = map_get (dp_Annotations dep) AnnotationDeploymentRevision
             | _ \<Rightarrow> False)
      else if wl_Kind w = KindStatefulSet then
        (case wl_pod w of None \<Rightarrow> Inl NilDeref
         | Some pod \<Rightarrow>
            if map_get (pod_Labels pod) LabelControllerRevHash = '''' then Inr False
            else (case wl_sts w of None \<Rightarrow> Inl NilDeref
                  | Some sts \<Rightarrow> Inr (map_get (pod_Labels pod) LabelControllerRevHash = ss_UpdateRevision sts)))
      else if wl_Kind w = KindRollout then
        (case (wl_rs w, wl_rollout w) of
           (Some rs, Some ro) \<Rightarrow>
             let hash = map_get (rs_Labels rs) LabelRolloutPodTemplateHash;
                 cur = fst (l_NestedString L (ro_Object ro) [''status'', ''currentPodHash'']);
                 stable = fst (l_NestedString L (ro_Object ro) [''status'', ''stableRS''])
             in Inr (hash \<noteq> '''' \<and> (hash = cur \<or> hash = stable))
         | _ \<Rightarrow> Inl NilDeref)
      else Inr False)"

definition deploymentSettled :: "deployment \<Rightarrow> bool" where
  "deploymentSettled d =
     (if dp_ObservedGeneration d < dp_Generation d then False
      else let desired = (case dp_Replicas d of None \<Rightarrow> 1 | Some n \<Rightarrow> n)
           in dp_UpdatedReplicas d = desired \<and> dp_StatusReplicas d = desired
              \<and> dp_AvailableReplicas d = desired \<and> dp_UnavailableReplicas d = 0)"

definition statefulSetSettled :: "statefulset \<Rightarrow> bool" where
  "statefulSetSettled s =
     (if ss_ObservedGeneration s < ss_Generation s then False
      else if ss_CurrentRevision s \<noteq> ss_UpdateRevision s then False
      else let desired = (case ss_Replicas s of None \<Rightarrow> 1 | Some n \<Rightarrow> n)
           in ss_UpdatedReplicas s = desired \<and> ss_StatusReplicas s = desired \<and> ss_ReadyReplicas s = desired)"

definition rolloutSettled :: "lib \<Rightarrow> rollout \<Rightarrow> bool" where
  "rolloutSettled L ro =
     (let gen = ro_Generation ro;
          observed = fst (l_NestedInt64 L (ro_Object ro) [''status'', ''observedGeneration''])
      in if observed \<noteq> 0 \<and> observed < gen then False
         else fst (l_NestedString L (ro_Object ro) [''status'', ''phase'']) = ''Healthy'')"

definition IsSettled :: "lib \<Rightarrow> workload \<Rightarrow> bool result" where
  "IsSettled L w =
     (if wl_Kind w = KindDeployment then
        (case wl_dep w of None \<Rightarrow> Inl NilDeref | Some d \<Rightarrow> Inr (deploymentSettled d))
      else if wl_Kind w = KindStatefulSet then
        (case wl_sts w of None \<Rightarrow> Inl NilDeref
         | Some s \<Rightarrow> if ss_UpdateStrategy s = ''OnDelete'' then Inl ErrNotAutoRestartable
                     else Inr (statefulSetSettled s))
      else if wl_Kind w = KindRollout then
        (case wl_rollout w of None \<Rightarrow> Inl NilDeref | Some ro \<Rightarrow> Inr (rolloutSettled L ro))
      else Inl ErrNoOwner)"

section \<open>The version fingerprint\<close>

text \<open>
  \<open>delete\<close> on a nil map is a no-op, so a template without annotations keeps a nil map; the digest is the
  first eight bytes in hex. A template that does not marshal has the empty fingerprint.
\<close>

definition delete_annotation :: "string \<Rightarrow> pod_template \<Rightarrow> pod_template" where
  "delete_annotation k t = t\<lparr>tm_Annotations := map_option (fmdrop k) (tm_Annotations t)\<rparr>"

definition fingerprintTemplate :: "lib \<Rightarrow> pod_template \<Rightarrow> string" where
  "fingerprintTemplate L tmpl =
     (case l_Marshal L (delete_annotation AnnotationRestartedAt tmpl) of
        Inl e \<Rightarrow> ''''
      | Inr b \<Rightarrow> hex_encode (take 8 (l_Sum256 L b)))"

definition TemplateVersion :: "lib \<Rightarrow> workload \<Rightarrow> string" where
  "TemplateVersion L w =
     (if wl_Kind w = KindDeployment then
        (case wl_dep w of None \<Rightarrow> '''' | Some d \<Rightarrow> fingerprintTemplate L (dp_Template d))
      else if wl_Kind w = KindStatefulSet then
        (case wl_sts w of None \<Rightarrow> '''' | Some s \<Rightarrow> fingerprintTemplate L (ss_Template s))
      else if wl_Kind w = KindRollout then
        (case wl_rollout w of None \<Rightarrow> ''''
         | Some ro \<Rightarrow> fst (l_NestedString L (ro_Object ro) [''status'', ''currentPodHash'']))
      else '''')"

section \<open>The restart\<close>

definition setTemplateRestartedAt :: "pod_template \<Rightarrow> string \<Rightarrow> pod_template" where
  "setTemplateRestartedAt t stamp =
     (let ann = (case tm_Annotations t of None \<Rightarrow> fmempty | Some m \<Rightarrow> m)
      in t\<lparr>tm_Annotations := Some (fmupd AnnotationRestartedAt stamp ann)\<rparr>)"

text \<open>
  \<open>Dispatch\<close> patches the object from its copy before the stamp to the stamped object. The pointer inside the
  workload is mutated: by the stamp, and when the patch succeeds by the client, which decodes the answer of the
  server into it. So the result carries the workload as it is afterwards.
\<close>

definition Dispatch :: "lib \<Rightarrow> 'w api \<Rightarrow> workload \<Rightarrow> time \<Rightarrow> ('w, unit result \<times> workload) op" where
  "Dispatch L A w now =
     (let stamp = format_RFC3339_UTC now
      in if wl_Kind w = KindDeployment then
           (case wl_dep w of
              None \<Rightarrow> ret (Inl NilDeref, w)
            | Some d \<Rightarrow>
                let d' = d\<lparr>dp_Template := setTemplateRestartedAt (dp_Template d) stamp\<rparr>
                in do { r \<leftarrow> patch_object (a_PatchDeployment A d d') (WDeployment d) (WDeployment d');
                        ret (case r of Inl e \<Rightarrow> (Inl e, w\<lparr>wl_dep := Some d'\<rparr>)
                             | Inr answer \<Rightarrow> (Inr (), w\<lparr>wl_dep := Some answer\<rparr>)) })
         else if wl_Kind w = KindStatefulSet then
           (case wl_sts w of
              None \<Rightarrow> ret (Inl NilDeref, w)
            | Some s \<Rightarrow>
                let s' = s\<lparr>ss_Template := setTemplateRestartedAt (ss_Template s) stamp\<rparr>
                in do { r \<leftarrow> patch_object (a_PatchStatefulSet A s s') (WStatefulSet s) (WStatefulSet s');
                        ret (case r of Inl e \<Rightarrow> (Inl e, w\<lparr>wl_sts := Some s'\<rparr>)
                             | Inr answer \<Rightarrow> (Inr (), w\<lparr>wl_sts := Some answer\<rparr>)) })
         else if wl_Kind w = KindRollout then
           (case wl_rollout w of
              None \<Rightarrow> ret (Inl NilDeref, w)
            | Some ro \<Rightarrow>
               (case l_SetNestedField L (ro_Object ro) stamp [''spec'', ''restartAt''] of
                  Inl e \<Rightarrow> ret (Inl e, w)
                | Inr obj \<Rightarrow>
                    let ro' = ro\<lparr>ro_Object := obj\<rparr>
                    in do { r \<leftarrow> patch_object (a_PatchRollout A ro ro') (WRollout ro) (WRollout ro');
                            ret (case r of Inl e \<Rightarrow> (Inl e, w\<lparr>wl_rollout := Some ro'\<rparr>)
                                 | Inr answer \<Rightarrow> (Inr (), w\<lparr>wl_rollout := Some answer\<rparr>)) }))
         else ret (Inl ErrNoOwner, w))"

section \<open>Lemmas\<close>

lemma keeps_patch_object [keeping]:
  "keeps sy_Gate (patch_object f x y)" "keeps sy_Samples (patch_object f x y)"
  by (simp_all add: patch_object_def keeping)

lemma adds_patch_object [adding]: "(\<And>ok. P (EPatch x y ok)) \<Longrightarrow> adds P (patch_object f x y)"
  by (auto simp: patch_object_def intro!: adding)

lemma keeps_GetWorkload [keeping]:
  "keeps sy_Gate (GetWorkload A k ns n)" "keeps sy_Samples (GetWorkload A k ns n)"
  "keeps sy_Trace (GetWorkload A k ns n)"
  unfolding GetWorkload_def by (intro keeping)+

lemma keeps_ResolveOwner [keeping]:
  "keeps sy_Gate (ResolveOwner L A p k)" "keeps sy_Samples (ResolveOwner L A p k)"
  "keeps sy_Trace (ResolveOwner L A p k)"
  unfolding ResolveOwner_def resolve_statefulset_def resolve_replicaset_def by (intro keeping)+

lemma keeps_Dispatch [keeping]:
  "keeps sy_Gate (Dispatch L A w now)" "keeps sy_Samples (Dispatch L A w now)"
  unfolding Dispatch_def by (intro keeping)+

text \<open>The two forms a workload takes, with the pointers its methods dereference.\<close>

definition workload_complete :: "workload \<Rightarrow> bool" where
  "workload_complete w \<longleftrightarrow>
     wl_Kind w = KindDeployment \<and> wl_dep w \<noteq> None
     \<or> wl_Kind w = KindStatefulSet \<and> wl_sts w \<noteq> None
     \<or> wl_Kind w = KindRollout \<and> wl_rollout w \<noteq> None"

definition workload_owned :: "workload \<Rightarrow> bool" where
  "workload_owned w \<longleftrightarrow> workload_complete w \<and> wl_pod w \<noteq> None
     \<and> (wl_Kind w \<noteq> KindStatefulSet \<longrightarrow> wl_rs w \<noteq> None)"

lemma GetWorkload_shape:
  "wp (GetWorkload A k ns n) (\<lambda>r t. \<forall>w. r = Inr w \<longrightarrow>
     workload_complete w \<and> wl_Kind w = k \<and> wl_Namespace w = ns \<and> wl_Name w = n) s"
  by (auto simp: GetWorkload_def bare_workload_def workload_complete_def kind_defs split: prod.splits sum.splits)

lemma ResolveOwner_shape:
  "wp (ResolveOwner L A p k) (\<lambda>r t. \<forall>w. r = Inr w \<longrightarrow> workload_owned w \<and> wl_pod w = Some p) s"
  by (auto simp: ResolveOwner_def resolve_statefulset_def resolve_replicaset_def bare_workload_def
      workload_owned_def workload_complete_def kind_defs split: option.splits prod.splits sum.splits)

lemma patch_object_run:
  "wp (patch_object f x y) (\<lambda>r t. sy_Trace t = EPatch x y (is_ok r) # sy_Trace s) s"
  by (auto simp: patch_object_def split: prod.splits)

section \<open>Properties\<close>

lemma fingerprint_stamped:
  assumes "marshal_omits_empty L"
  shows "fingerprintTemplate L (setTemplateRestartedAt t stamp) = fingerprintTemplate L t"
proof -
  have drop: "fmdrop k (fmupd k v m) = fmdrop k m" for k v :: string and m :: labels by (rule fmap_ext) simp
  show ?thesis
  proof (cases "tm_Annotations t")
    case None
    then have "t\<lparr>tm_Annotations := None\<rparr> = t" by simp
    then show ?thesis using assms None
      by (simp add: fingerprintTemplate_def delete_annotation_def setTemplateRestartedAt_def
          marshal_omits_empty_def drop)
  next
    case (Some m)
    then show ?thesis
      by (simp add: fingerprintTemplate_def delete_annotation_def setTemplateRestartedAt_def drop)
  qed
qed

text \<open>
  What a restart may change of an object: the template of a Deployment or a StatefulSet gets the stamp under its
  annotation and keeps everything else, a Rollout gets it in \<open>spec.restartAt\<close>.
\<close>

definition template_stamped :: "string \<Rightarrow> pod_template \<Rightarrow> pod_template \<Rightarrow> bool" where
  "template_stamped stamp t t' \<longleftrightarrow> tm_Rest t' = tm_Rest t
     \<and> (\<exists>m. tm_Annotations t' = Some m \<and> fmlookup m AnnotationRestartedAt = Some stamp
          \<and> (\<forall>k. k \<noteq> AnnotationRestartedAt \<longrightarrow> fmlookup m k = (case tm_Annotations t of None \<Rightarrow> None | Some m0 \<Rightarrow> fmlookup m0 k)))"

fun stamped :: "lib \<Rightarrow> string \<Rightarrow> wobject \<Rightarrow> wobject \<Rightarrow> bool" where
  "stamped L stamp (WDeployment d) (WDeployment d') \<longleftrightarrow>
     d'\<lparr>dp_Template := dp_Template d\<rparr> = d \<and> template_stamped stamp (dp_Template d) (dp_Template d')"
| "stamped L stamp (WStatefulSet s) (WStatefulSet s') \<longleftrightarrow>
     s'\<lparr>ss_Template := ss_Template s\<rparr> = s \<and> template_stamped stamp (ss_Template s) (ss_Template s')"
| "stamped L stamp (WRollout r) (WRollout r') \<longleftrightarrow>
     r'\<lparr>ro_Object := ro_Object r\<rparr> = r \<and> l_SetNestedField L (ro_Object r) stamp [''spec'', ''restartAt''] = Inr (ro_Object r')"
| "stamped L stamp _ _ \<longleftrightarrow> False"

lemma set_template_stamped: "template_stamped stamp t (setTemplateRestartedAt t stamp)"
  by (simp add: template_stamped_def setTemplateRestartedAt_def split: option.split)

lemma Dispatch_sends:
  "wp (Dispatch L A w now) (\<lambda>(r, w') t.
     (\<exists>old new. Workload_Object w = Some (Some old) \<and> stamped L (format_RFC3339_UTC now) old new
        \<and> sy_Trace t = EPatch old new (is_ok r) # sy_Trace s)
     \<or> sy_Trace t = sy_Trace s \<and> w' = w \<and> \<not> is_ok r) s"
  by (auto simp: Dispatch_def patch_object_def kind_defs Let_def Workload_Object_def set_template_stamped
      split: option.splits prod.splits sum.splits)

text \<open>The version a template gives does not depend on the stamp.\<close>

lemma fingerprint_template_stamped:
  assumes "marshal_omits_empty L" and "template_stamped stamp t t'"
  shows "fingerprintTemplate L t' = fingerprintTemplate L t"
proof -
  obtain m where m: "tm_Annotations t' = Some m" "fmlookup m AnnotationRestartedAt = Some stamp"
    "\<And>k. k \<noteq> AnnotationRestartedAt \<Longrightarrow> fmlookup m k = (case tm_Annotations t of None \<Rightarrow> None | Some m0 \<Rightarrow> fmlookup m0 k)"
    using assms(2) by (auto simp: template_stamped_def)
  have "m = fmupd AnnotationRestartedAt stamp (case tm_Annotations t of None \<Rightarrow> fmempty | Some m0 \<Rightarrow> m0)"
    by (rule fmap_ext) (simp add: m(2,3) split: option.split)
  then have "t' = setTemplateRestartedAt t stamp"
    using m(1) assms(2) by (simp add: template_stamped_def setTemplateRestartedAt_def)
  then show ?thesis by (simp add: fingerprint_stamped [OF assms(1)])
qed

text \<open>The workload with another object of its kind.\<close>

fun with_object :: "workload \<Rightarrow> wobject \<Rightarrow> workload" where
  "with_object w (WDeployment d) = w\<lparr>wl_dep := Some d\<rparr>"
| "with_object w (WStatefulSet s) = w\<lparr>wl_sts := Some s\<rparr>"
| "with_object w (WRollout r) = w\<lparr>wl_rollout := Some r\<rparr>"

lemma TemplateVersion_stamped:
  assumes "marshal_omits_empty L" "set_field_local L" "Workload_Object w = Some (Some old)" "stamped L stamp old new"
  shows "TemplateVersion L (with_object w new) = TemplateVersion L w"
proof -
  have field: "l_NestedString L (ro_Object r') [''status'', ''currentPodHash''] = l_NestedString L (ro_Object r) [''status'', ''currentPodHash'']"
    if "l_SetNestedField L (ro_Object r) stamp [''spec'', ''restartAt''] = Inr (ro_Object r')" for r r'
    using assms(2) that unfolding set_field_local_def by blast
  show ?thesis
    using assms(3,4)
    by (cases old; cases new)
       (auto simp: Workload_Object_def TemplateVersion_def kind_defs fingerprint_template_stamped [OF assms(1)]
         split: if_splits dest!: field)
qed

text \<open>
  C33: the controller's own restart never moves the version its circuit breaker is keyed on. Whatever the kind,
  \<open>Dispatch\<close> makes at most one write. It is a patch from the object of the workload to that object with the time
  of the restart stamped on it and nothing else changed, and the version of the workload with the object it sends
  is the one before it; the identity of the workload stays. Without a patch there is an error.
\<close>

theorem restart_keeps_version:
  assumes "marshal_omits_empty L" and "set_field_local L"
  shows "wp (Dispatch L A w now) (\<lambda>(r, w') t. Workload_Key w' = Workload_Key w
     \<and> ((\<exists>old new. Workload_Object w = Some (Some old) \<and> stamped L (format_RFC3339_UTC now) old new
           \<and> TemplateVersion L (with_object w new) = TemplateVersion L w
           \<and> sy_Trace t = EPatch old new (is_ok r) # sy_Trace s)
        \<or> sy_Trace t = sy_Trace s \<and> \<not> is_ok r)) s"
proof (rule wp_mono [OF wp_conj [OF Dispatch_sends]])
  show "wp (Dispatch L A w now) (\<lambda>(r, w') t. Workload_Key w' = Workload_Key w) s"
    by (auto simp: Dispatch_def patch_object_def Let_def Workload_Key_def split: option.splits prod.splits sum.splits)
qed (use TemplateVersion_stamped [OF assms] in auto)

definition demo_template :: "labels option \<Rightarrow> pod_template" where
  "demo_template ann = \<lparr>tm_Annotations = ann, tm_Rest = ''image:v1''\<rparr>"

definition demo_deployment :: "labels option \<Rightarrow> deployment" where
  "demo_deployment ann = \<lparr>dp_Namespace = ''prod'', dp_Name = ''web'', dp_UID = ''u1'', dp_Annotations = fmempty,
     dp_Generation = 2, dp_Replicas = Some 3, dp_Selector = Some (JObj []), dp_Template = demo_template ann,
     dp_ObservedGeneration = 2, dp_UpdatedReplicas = 3, dp_StatusReplicas = 3, dp_AvailableReplicas = 3,
     dp_UnavailableReplicas = 0\<rparr>"

definition demo_workload :: workload where
  "demo_workload = (bare_workload KindDeployment ''prod'' ''web'')\<lparr>wl_dep := Some (demo_deployment None)\<rparr>"

definition restart_sys :: "cluster sys" where
  "restart_sys = demo_sys \<lparr>cl_Now = 0, cl_Policies = [], cl_Deployments = [demo_deployment None], cl_ReplicaSets = [],
     cl_Pods = []\<rparr> (NewGate 1) (NewStore 60 10)"

lemma restart_keeps_version_witness:
  "wp (Dispatch demo_lib demo_api demo_workload 1709210096000000000) (\<lambda>(r, w') t. \<exists>old new. r = Inr () \<and> old \<noteq> new
     \<and> sy_Trace t = [EPatch old new True] \<and> TemplateVersion demo_lib (with_object demo_workload new) = TemplateVersion demo_lib demo_workload)
     restart_sys"
proof -
  have "wp (Dispatch demo_lib demo_api demo_workload 1709210096000000000) (\<lambda>(r, w') t. r = Inr ()) restart_sys"
    by (simp add: Dispatch_def demo_workload_def bare_workload_def kind_defs patch_object_def Let_def demo_api_def patch_cluster_def
        split: prod.splits)
  then have "wp (Dispatch demo_lib demo_api demo_workload 1709210096000000000) (\<lambda>x t. case x of (r, w') \<Rightarrow> r = Inr ()
      \<and> ((\<exists>old new. Workload_Object demo_workload = Some (Some old) \<and> stamped demo_lib (format_RFC3339_UTC 1709210096000000000) old new
           \<and> TemplateVersion demo_lib (with_object demo_workload new) = TemplateVersion demo_lib demo_workload
           \<and> sy_Trace t = EPatch old new (is_ok r) # sy_Trace restart_sys) \<or> sy_Trace t = sy_Trace restart_sys \<and> \<not> is_ok r)) restart_sys"
    using restart_keeps_version [OF demo_marshal_omits_empty demo_set_field_local, of demo_api demo_workload 1709210096000000000 restart_sys]
    by (auto simp: wp_def split: prod.splits)
  moreover have "old \<noteq> new" if "Workload_Object demo_workload = Some (Some old)" "stamped demo_lib stamp old new" for old new stamp
    using that by (cases new) (auto simp: demo_workload_def bare_workload_def Workload_Object_def kind_defs demo_deployment_def
        demo_template_def template_stamped_def)
  moreover have "sy_Trace restart_sys = []" by (simp add: restart_sys_def demo_sys_def)
  ultimately show ?thesis by (elim wp_mono) fastforce
qed

text \<open>
  C34: distinct workloads never share a concurrency slot. Kinds and namespaces hold no slash, and then
  the slot key determines the kind, the namespace and the name; the key built from a bare reference and
  the one of the resolved workload are the same.
\<close>

theorem workload_key_injective:
  assumes "CHR ''/'' \<notin> set k" "CHR ''/'' \<notin> set k'" "CHR ''/'' \<notin> set ns" "CHR ''/'' \<notin> set ns'"
  shows "(WorkloadKey k ns n = WorkloadKey k' ns' n' \<longleftrightarrow> k = k' \<and> ns = ns' \<and> n = n')
    \<and> Workload_Key (bare_workload k ns n) = WorkloadKey k ns n"
proof -
  have split: "x = y \<and> a = b" if "x @ CHR ''/'' # a = y @ CHR ''/'' # b" "CHR ''/'' \<notin> set x" "CHR ''/'' \<notin> set y"
    for x y a b :: string
  proof -
    have "Cut (CHR ''/'') (x @ CHR ''/'' # a) = Cut (CHR ''/'') (y @ CHR ''/'' # b)" by (simp only: that(1))
    then show ?thesis by (simp only: Cut_append [OF that(2)] Cut_append [OF that(3)] prod.inject)
  qed
  have "WorkloadKey k ns n = WorkloadKey k' ns' n' \<Longrightarrow> k = k' \<and> ns = ns' \<and> n = n'"
    using split [of k "ns @ CHR ''/'' # n" k' "ns' @ CHR ''/'' # n'"] split [of ns n ns' n'] assms
    by (simp add: WorkloadKey_def)
  then show ?thesis by (auto simp: Workload_Key_def bare_workload_def WorkloadKey_def)
qed

lemma workload_key_injective_witness:
  "WorkloadKey ''Deployment'' ''prod'' ''web'' \<noteq> WorkloadKey ''Rollout'' ''prod'' ''web''
   \<and> WorkloadKey ''Deployment'' ''prod'' ''web'' \<noteq> WorkloadKey ''Deployment'' ''prod2'' ''web''"
  using workload_key_injective [of "''Deployment''" "''Rollout''" "''prod''" "''prod''" "''web''" "''web''"]
    workload_key_injective [of "''Deployment''" "''Deployment''" "''prod''" "''prod2''" "''web''" "''web''"]
  by simp

text \<open>
  A panic, bare or carried by a wrapping error; library and platform that never answer with one, as real
  errors do not.
\<close>

definition panicked :: "'a result \<Rightarrow> bool" where
  "panicked r = (case r of Inl e \<Rightarrow> err_is e NilDeref | Inr _ \<Rightarrow> False)"

lemma panicked_simps [simp]:
  "panicked (Inl e) = err_is e NilDeref" "\<not> panicked (Inr x)"
  by (simp_all add: panicked_def)

definition lib_no_panic :: "lib \<Rightarrow> bool" where
  "lib_no_panic L \<longleftrightarrow> (\<forall>s. \<not> panicked (l_LabelSelectorAsSelector L s))
     \<and> (\<forall>j. \<not> panicked (l_FromUnstructured L j))
     \<and> (\<forall>obj v p. \<not> panicked (l_SetNestedField L obj v p))"

definition api_no_panic :: "'w api \<Rightarrow> bool" where
  "api_no_panic A \<longleftrightarrow> (\<forall>ns n w. \<not> panicked (fst (a_GetDeployment A ns n w)))
     \<and> (\<forall>ns n w. \<not> panicked (fst (a_GetStatefulSet A ns n w)))
     \<and> (\<forall>ns n w. \<not> panicked (fst (a_GetReplicaSet A ns n w)))
     \<and> (\<forall>ns n w. \<not> panicked (fst (a_GetRollout A ns n w)))
     \<and> (\<forall>ns sel w. \<not> panicked (fst (a_ListPods A ns sel w)))
     \<and> (\<forall>p w. \<not> panicked (fst (a_UpdateStatus A p w)))
     \<and> (\<forall>p w. \<not> panicked (fst (a_UpdatePolicy A p w)))
     \<and> (\<forall>ns n w. \<not> panicked (fst (a_GetPolicy A ns n w)))
     \<and> (\<forall>old new w. \<not> panicked (fst (a_PatchDeployment A old new w)))
     \<and> (\<forall>old new w. \<not> panicked (fst (a_PatchStatefulSet A old new w)))
     \<and> (\<forall>old new w. \<not> panicked (fst (a_PatchRollout A old new w)))"

lemma lib_no_panicD:
  assumes "lib_no_panic L"
  shows "l_SetNestedField L obj v p = Inl e \<Longrightarrow> \<not> err_is e NilDeref"
    "l_FromUnstructured L j = Inl e \<Longrightarrow> \<not> err_is e NilDeref"
    "\<not> panicked (l_LabelSelectorAsSelector L ls)"
  using assms unfolding lib_no_panic_def by (metis panicked_simps(1))+

lemma complete_no_panic:
  assumes "workload_complete w" "lib_no_panic L"
  shows "\<not> panicked (PodSelector L w)" "\<not> panicked (IsSettled L w)" "\<not> panicked (Workload_UID w)"
  using assms
  by (auto simp: workload_complete_def PodSelector_def IsSettled_def Workload_UID_def Workload_Object_def
      lib_no_panicD kind_defs split: option.splits prod.splits sum.splits)

lemma owned_no_panic: "workload_owned w \<Longrightarrow> \<not> panicked (IsCurrentRevision L w)"
  by (auto simp: workload_owned_def workload_complete_def IsCurrentRevision_def kind_defs Let_def
      split: option.splits)

lemma Dispatch_no_panic:
  assumes "workload_complete w" "lib_no_panic L" "api_no_panic A"
  shows "wp (Dispatch L A w now) (\<lambda>(r, w') t. \<not> panicked r) s"
proof -
  have "\<not> panicked (fst (a_PatchDeployment A d d' v))" "\<not> panicked (fst (a_PatchStatefulSet A x x' v))"
    "\<not> panicked (fst (a_PatchRollout A y y' v))" for d d' x x' y y' v
    using assms(3) by (simp_all add: api_no_panic_def)
  then have "a_PatchDeployment A d d' v = (Inl e, v') \<Longrightarrow> \<not> err_is e NilDeref"
    "a_PatchStatefulSet A x x' v = (Inl e, v') \<Longrightarrow> \<not> err_is e NilDeref"
    "a_PatchRollout A y y' v = (Inl e, v') \<Longrightarrow> \<not> err_is e NilDeref" for d d' x x' y y' v v' e
    by (metis fst_conv panicked_simps(1))+
  then show ?thesis using assms(1,2)
    by (auto simp: workload_complete_def Dispatch_def lib_no_panicD kind_defs patch_object_def Let_def
        split: option.splits prod.splits sum.splits)
qed

text \<open>
  No method panics on a workload the controller resolved. A workload that \<open>GetWorkload\<close> returns has
  the object of its kind, so its UID, its selector, its progress check and the restart itself never
  dereference a nil pointer; one that \<open>ResolveOwner\<close> returns also has what the revision check reads.
\<close>

theorem resolved_workload_nil_safe:
  assumes "lib_no_panic L" and "api_no_panic A"
  shows "wp (GetWorkload A k ns n) (\<lambda>r t. \<forall>w. r = Inr w \<longrightarrow>
       \<not> panicked (PodSelector L w) \<and> \<not> panicked (IsSettled L w) \<and> \<not> panicked (Workload_UID w)
       \<and> (\<forall>now. wp (Dispatch L A w now) (\<lambda>(d, w') u. \<not> panicked d) t)) s
    \<and> wp (ResolveOwner L A p ks) (\<lambda>r t. \<forall>w. r = Inr w \<longrightarrow> \<not> panicked (IsCurrentRevision L w)) s"
proof
  show "wp (GetWorkload A k ns n) (\<lambda>r t. \<forall>w. r = Inr w \<longrightarrow>
       \<not> panicked (PodSelector L w) \<and> \<not> panicked (IsSettled L w) \<and> \<not> panicked (Workload_UID w)
       \<and> (\<forall>now. wp (Dispatch L A w now) (\<lambda>(d, w') u. \<not> panicked d) t)) s"
    by (rule wp_mono [OF GetWorkload_shape])
       (use assms complete_no_panic Dispatch_no_panic in blast)
  show "wp (ResolveOwner L A p ks) (\<lambda>r t. \<forall>w. r = Inr w \<longrightarrow> \<not> panicked (IsCurrentRevision L w)) s"
    by (rule wp_mono [OF ResolveOwner_shape]) (use owned_no_panic in blast)
qed

lemma demo_no_panic: "lib_no_panic demo_lib \<and> api_no_panic demo_api"
proof -
  have set: "\<not> panicked (json_set j v p)" for j v p
    by (induction j v p rule: json_set.induct) (auto split: sum.splits)
  have "lib_no_panic demo_lib" using set by (simp add: lib_no_panic_def demo_lib_def)
  moreover have "api_no_panic demo_api"
    by (auto simp: api_no_panic_def demo_api_def as_found_def write_policy_def patch_cluster_def Let_def
        split: option.splits wobject.splits)
  ultimately show ?thesis by blast
qed

definition demo_cluster :: "deployment \<Rightarrow> policy list \<Rightarrow> cluster" where
  "demo_cluster d ps = \<lparr>cl_Now = 1709210096000000000, cl_Policies = ps, cl_Deployments = [d],
     cl_ReplicaSets = [], cl_Pods = []\<rparr>"

lemma resolved_workload_nil_safe_witness:
  "\<exists>w t. run_state (GetWorkload demo_api KindDeployment ''prod'' ''web'')
      (demo_sys (demo_cluster (demo_deployment None) []) (NewGate 1) (NewStore 60 10)) = (Inr w, t)
    \<and> \<not> panicked (IsSettled demo_lib w) \<and> IsSettled demo_lib w = Inr True"
proof -
  let ?s = "demo_sys (demo_cluster (demo_deployment None) []) (NewGate 1) (NewStore 60 10)"
  obtain w t where r: "run_state (GetWorkload demo_api KindDeployment ''prod'' ''web'') ?s = (Inr w, t)"
    and s: "IsSettled demo_lib w = Inr True"
    by (simp add: GetWorkload_def kind_defs call_def demo_api_def demo_sys_def demo_cluster_def as_found_def
        demo_deployment_def bare_workload_def IsSettled_def deploymentSettled_def)
  moreover have "\<not> panicked (IsSettled demo_lib w)"
    using resolved_workload_nil_safe [of demo_lib demo_api KindDeployment "''prod''" "''web''" ?s]
      demo_no_panic r by (simp add: wp_def)
  ultimately show ?thesis by blast
qed

end
