(* ===== verification/Selection.thy ===== *)
theory Selection
  imports Workload
begin

text \<open>
  \<open>internal/controller/selection.go\<close> and the pod helpers of \<open>helpers.go\<close> and \<open>sampler.go\<close>: which
  containers of a pod are watched, with which detection settings, and the readings of a pod's status.
\<close>

section \<open>Candidates\<close>

record target =
  tg_Name :: string
  tg_LimitBytes :: int
  tg_Det :: detection

datatype candidate = Candidate (cand_name: string) (cand_limit: int)

text \<open>
  The order of the sort in \<open>defaultContainer\<close>: the higher limit first, then the name. Candidates that the
  comparison does not tell apart are equal, so the sorted slice is determined.
\<close>

definition sorts_before :: "candidate \<Rightarrow> candidate \<Rightarrow> bool" where
  "sorts_before a b \<longleftrightarrow>
     (if cand_limit a \<noteq> cand_limit b then cand_limit a > cand_limit b else cand_name a < cand_name b)"

instantiation candidate :: linorder
begin

definition less_candidate :: "candidate \<Rightarrow> candidate \<Rightarrow> bool" where
  "less_candidate = sorts_before"

definition less_eq_candidate :: "candidate \<Rightarrow> candidate \<Rightarrow> bool" where
  "less_eq_candidate a b \<longleftrightarrow> a = b \<or> (a :: candidate) < b"

instance
proof
  fix x y z :: candidate
  show "(x < y) = (x \<le> y \<and> \<not> y \<le> x)"
    by (cases x; cases y) (auto simp: less_candidate_def sorts_before_def less_eq_candidate_def split: if_splits)
  show "x \<le> x" by (simp add: less_eq_candidate_def)
  show "x \<le> y \<Longrightarrow> y \<le> z \<Longrightarrow> x \<le> z"
    by (auto simp: less_candidate_def sorts_before_def less_eq_candidate_def split: if_splits)
  show "x \<le> y \<Longrightarrow> y \<le> x \<Longrightarrow> x = y"
    by (auto simp: less_candidate_def sorts_before_def less_eq_candidate_def split: if_splits)
  show "x \<le> y \<or> y \<le> x"
    by (cases x; cases y) (auto simp: less_candidate_def sorts_before_def less_eq_candidate_def)
qed

end

definition memLimit :: "container \<Rightarrow> int" where
  "memLimit c = (case ct_Limits c of None \<Rightarrow> 0
     | Some m \<Rightarrow> (case m of None \<Rightarrow> 0 | Some q \<Rightarrow> q_Value q))"

definition candidates :: "pod \<Rightarrow> candidate list" where
  "candidates pod =
     map (\<lambda>c. Candidate (ct_Name c) (memLimit c)) (pod_Containers pod)
     @ map (\<lambda>c. Candidate (ct_Name c) (memLimit c))
         (filter (\<lambda>c. ct_RestartPolicy c = Some ''Always'') (pod_InitContainers pod))"

text \<open>\<open>sort.Slice(withLimit, ...)\<close> and its first element.\<close>

definition defaultContainer :: "pod \<Rightarrow> candidate list \<Rightarrow> candidate option" where
  "defaultContainer pod cands =
     (let name = map_get (pod_Annotations pod) AnnotationDefaultContainer;
          named = (if name \<noteq> '''' then find (\<lambda>c. cand_name c = name) cands else None)
      in case named of
           Some c \<Rightarrow> Some c
         | None \<Rightarrow>
             let withLimit = filter (\<lambda>c. cand_limit c > 0) cands
             in if length withLimit = 0 then None else Some (sort withLimit ! 0))"

section \<open>Targets\<close>

definition byName :: "candidate list \<Rightarrow> string \<Rightarrow> candidate option" where
  "byName cands = map_of (rev (map (\<lambda>c. (cand_name c, c)) cands))"

definition selected_candidates :: "pod \<Rightarrow> pod_config \<Rightarrow> candidate list" where
  "selected_candidates pod cfg =
     (let cands = candidates pod
      in if length (pc_Containers cfg) = 0 then
           (case defaultContainer pod cands of Some c \<Rightarrow> [c] | None \<Rightarrow> [])
         else if length (pc_Containers cfg) = 1 \<and> pc_Containers cfg ! 0 = ContainersAll then cands
         else List.map_filter (byName cands) (pc_Containers cfg))"

fun select_loop :: "pod_config \<Rightarrow> candidate list \<Rightarrow> target list \<Rightarrow> nat \<Rightarrow> target list \<times> nat" where
  "select_loop cfg [] targets dropped = (targets, dropped)"
| "select_loop cfg (c # cs) targets dropped =
     (let det = ForContainer cfg (cand_name c)
      in if cand_limit c \<le> 0 \<and> d_ThresholdAbsolute det = None
         then select_loop cfg cs targets (Suc dropped)
         else select_loop cfg cs
                (targets @ [\<lparr>tg_Name = cand_name c, tg_LimitBytes = cand_limit c, tg_Det = det\<rparr>]) dropped)"

definition SelectTargets :: "pod \<Rightarrow> pod_config \<Rightarrow> target list \<times> nat" where
  "SelectTargets pod cfg = select_loop cfg (selected_candidates pod cfg) [] 0"

section \<open>Pod helpers\<close>

definition listWorkloadPods :: "lib \<Rightarrow> 'w api \<Rightarrow> workload \<Rightarrow> ('w, pod list result) op" where
  "listWorkloadPods L A wl = (case PodSelector L wl of
      Inl e \<Rightarrow> ret (Inl e)
    | Inr sel \<Rightarrow> call (a_ListPods A (wl_Namespace wl) sel))"

fun ready_loop :: "pod_condition list \<Rightarrow> bool" where
  "ready_loop [] = False"
| "ready_loop (c # cs) = (if pc_Type c = ''Ready'' then pc_Status c = ''True'' else ready_loop cs)"

definition podReady :: "pod \<Rightarrow> bool" where
  "podReady pod = ready_loop (pod_Conditions pod)"

definition podAge :: "'w api \<Rightarrow> pod \<Rightarrow> ('w, duration) op" where
  "podAge A pod =
     (let start = (case pod_StartTime pod of Some t \<Rightarrow> t | None \<Rightarrow> pod_CreationTimestamp pod)
      in if time_IsZero start then ret 0
         else do { now \<leftarrow> call (a_Now A); ret (time_Sub now start) })"

fun status_count :: "container_status list \<Rightarrow> string \<Rightarrow> int option" where
  "status_count [] name = None"
| "status_count (s # ss) name = (if cs_Name s = name then Some (cs_RestartCount s) else status_count ss name)"

definition restartCount :: "pod \<Rightarrow> string \<Rightarrow> int" where
  "restartCount pod container =
     (case status_count (pod_ContainerStatuses pod) container of
        Some n \<Rightarrow> n
      | None \<Rightarrow> (case status_count (pod_InitContainerStatuses pod) container of Some n \<Rightarrow> n | None \<Rightarrow> 0))"

section \<open>Lemmas\<close>

lemma select_loop_spec:
  "select_loop cfg cs ts n =
    (ts @ map (\<lambda>c. \<lparr>tg_Name = cand_name c, tg_LimitBytes = cand_limit c, tg_Det = ForContainer cfg (cand_name c)\<rparr>)
        (filter (\<lambda>c. \<not> (cand_limit c \<le> 0 \<and> d_ThresholdAbsolute (ForContainer cfg (cand_name c)) = None)) cs),
     n + length (filter (\<lambda>c. cand_limit c \<le> 0 \<and> d_ThresholdAbsolute (ForContainer cfg (cand_name c)) = None) cs))"
  by (induction cs arbitrary: ts n) (simp_all add: Let_def)

lemma find_in: "find P xs = Some x \<Longrightarrow> x \<in> set xs \<and> P x"
  by (induction xs) (auto split: if_splits)

lemma find_none: "find P xs = None \<longleftrightarrow> (\<forall>x \<in> set xs. \<not> P x)"
  by (induction xs) auto

lemma sort_hd:
  assumes "xs \<noteq> []"
  shows "sort xs ! 0 = (c :: candidate) \<longleftrightarrow> c \<in> set xs \<and> (\<forall>d \<in> set xs. c \<le> d)"
proof -
  obtain y ys where s: "sort xs = y # ys" using assms by (metis neq_Nil_conv sort_key_simps(1) set_empty set_sort)
  then have "sorted (y # ys)" by (metis sorted_sort)
  then have "\<forall>d \<in> set (y # ys). y \<le> d" by simp
  moreover have "set xs = set (y # ys)" by (metis s set_sort)
  ultimately show ?thesis unfolding s by (auto intro: antisym)
qed

lemma candidate_le:
  "c \<le> d \<longleftrightarrow> cand_limit d < cand_limit c \<or> cand_limit d = cand_limit c \<and> cand_name c \<le> cand_name d"
  by (cases c; cases d) (auto simp: less_eq_candidate_def less_candidate_def sorts_before_def)

lemma defaultContainer_iff:
  "defaultContainer pod cands = Some c \<longleftrightarrow>
     (let name = map_get (pod_Annotations pod) AnnotationDefaultContainer in
      name \<noteq> '''' \<and> find (\<lambda>d. cand_name d = name) cands = Some c
      \<or> (name = '''' \<or> name \<notin> cand_name ` set cands) \<and> c \<in> set cands \<and> 0 < cand_limit c
         \<and> (\<forall>d \<in> set cands. cand_limit d < cand_limit c \<or> cand_limit d = cand_limit c \<and> cand_name c \<le> cand_name d))"
proof -
  define name where "name = map_get (pod_Annotations pod) AnnotationDefaultContainer"
  define xs where "xs = filter (\<lambda>c. cand_limit c > 0) cands"
  define named where "named = (if name \<noteq> '''' then find (\<lambda>c. cand_name c = name) cands else None)"
  have limit: "(if length xs = 0 then None else Some (sort xs ! 0)) = Some c \<longleftrightarrow>
      c \<in> set cands \<and> 0 < cand_limit c
      \<and> (\<forall>d \<in> set cands. cand_limit d < cand_limit c \<or> cand_limit d = cand_limit c \<and> cand_name c \<le> cand_name d)"
  proof (cases "xs = []")
    case True
    then show ?thesis by (auto simp: xs_def filter_empty_conv)
  next
    case False
    then have "(if length xs = 0 then None else Some (sort xs ! 0)) = Some c \<longleftrightarrow> sort xs ! 0 = c" by simp
    then show ?thesis unfolding sort_hd [OF False] candidate_le by (auto simp: xs_def)
  qed
  have "named = None \<longleftrightarrow> name = '''' \<or> name \<notin> cand_name ` set cands"
    by (auto simp: named_def find_none)
  moreover have "defaultContainer pod cands =
      (case named of Some c \<Rightarrow> Some c | None \<Rightarrow> if length xs = 0 then None else Some (sort xs ! 0))"
    unfolding defaultContainer_def Let_def name_def named_def xs_def by (rule refl)
  ultimately show ?thesis
    unfolding Let_def name_def [symmetric] limit [symmetric]
    by (cases named) (auto simp: named_def split: if_splits)
qed

lemma defaultContainer_in: "defaultContainer pod cands = Some c \<Longrightarrow> c \<in> set cands"
  by (auto simp: defaultContainer_iff Let_def dest: find_in)

lemma set_map_filter: "set (List.map_filter f xs) = {y. \<exists>x \<in> set xs. f x = Some y}"
  by (induction xs) (auto simp: map_filter_simps split: option.splits)

lemma byName_in: "byName cands n = Some c \<Longrightarrow> c \<in> set cands \<and> cand_name c = n"
  by (auto simp: byName_def dest!: map_of_SomeD)

lemma selected_in: "set (selected_candidates pod cfg) \<subseteq> set (candidates pod)"
  by (auto simp: selected_candidates_def Let_def set_map_filter dest: byName_in split: if_splits option.splits)
     (metis defaultContainer_in)+

lemma keeps_listWorkloadPods [keeping]:
  "keeps sy_Gate (listWorkloadPods L A wl)" "keeps sy_Samples (listWorkloadPods L A wl)"
  "keeps sy_Trace (listWorkloadPods L A wl)"
  unfolding listWorkloadPods_def by (intro keeping)+

lemma keeps_podAge [keeping]:
  "keeps sy_Gate (podAge A p)" "keeps sy_Samples (podAge A p)" "keeps sy_Trace (podAge A p)"
  unfolding podAge_def by (intro keeping)+

section \<open>Properties\<close>

text \<open>
  The default container. It is the first candidate that the annotation names; without an annotation
  that names a candidate it is, among those with a memory limit, the one with the highest limit and of
  these the least name. There is none exactly when neither rule gives one, and in the second case the
  order in which the pod lists its containers does not matter.
\<close>

theorem default_container_choice:
  assumes "name = map_get (pod_Annotations pod) AnnotationDefaultContainer" and "mset cands' = mset cands"
  shows "(defaultContainer pod cands = Some c \<longleftrightarrow>
      name \<noteq> '''' \<and> find (\<lambda>d. cand_name d = name) cands = Some c
      \<or> (name = '''' \<or> name \<notin> cand_name ` set cands) \<and> c \<in> set cands \<and> 0 < cand_limit c
         \<and> (\<forall>d \<in> set cands. cand_limit d < cand_limit c \<or> cand_limit d = cand_limit c \<and> cand_name c \<le> cand_name d))
    \<and> (defaultContainer pod cands = None \<longleftrightarrow>
        (name = '''' \<or> name \<notin> cand_name ` set cands) \<and> (\<forall>d \<in> set cands. cand_limit d \<le> 0))
    \<and> (name = '''' \<or> name \<notin> cand_name ` set cands \<longrightarrow> defaultContainer pod cands' = defaultContainer pod cands)"
proof (intro conjI impI)
  show "defaultContainer pod cands = Some c \<longleftrightarrow>
      name \<noteq> '''' \<and> find (\<lambda>d. cand_name d = name) cands = Some c
      \<or> (name = '''' \<or> name \<notin> cand_name ` set cands) \<and> c \<in> set cands \<and> 0 < cand_limit c
         \<and> (\<forall>d \<in> set cands. cand_limit d < cand_limit c \<or> cand_limit d = cand_limit c \<and> cand_name c \<le> cand_name d)"
    by (simp only: defaultContainer_iff Let_def assms(1))
  show "defaultContainer pod cands = None \<longleftrightarrow>
        (name = '''' \<or> name \<notin> cand_name ` set cands) \<and> (\<forall>d \<in> set cands. cand_limit d \<le> 0)"
    unfolding defaultContainer_def Let_def assms(1) [symmetric]
    by (auto simp: find_none filter_empty_conv not_less split: option.split dest: find_in)
  assume n: "name = '''' \<or> name \<notin> cand_name ` set cands"
  have "set cands' = set cands" using assms(2) by (rule mset_eq_setD)
  with n have "defaultContainer pod cands' = Some d \<longleftrightarrow> defaultContainer pod cands = Some d" for d
    unfolding defaultContainer_iff Let_def assms(1) [symmetric] by (auto dest: find_in)
  then show "defaultContainer pod cands' = defaultContainer pod cands"
    by (metis not_None_eq)
qed

definition demo_pod :: pod where
  "demo_pod = \<lparr>pod_Namespace = ''prod'', pod_Name = ''web-1'', pod_UID = ''p1'', pod_Labels = fmempty,
     pod_Annotations = fmempty, pod_Owners = [\<lparr>or_Kind = ''ReplicaSet'', or_Name = ''web-rs'', or_Controller = True\<rparr>],
     pod_CreationTimestamp = 1, pod_StartTime = Some 1,
     pod_Containers = [\<lparr>ct_Name = ''proxy'', ct_RestartPolicy = None, ct_Limits = Some (Some \<lparr>q_Value = 50, q_String = ''50''\<rparr>)\<rparr>,
       \<lparr>ct_Name = ''app'', ct_RestartPolicy = None, ct_Limits = Some (Some \<lparr>q_Value = 100, q_String = ''100''\<rparr>)\<rparr>,
       \<lparr>ct_Name = ''log'', ct_RestartPolicy = None, ct_Limits = None\<rparr>],
     pod_InitContainers = [\<lparr>ct_Name = ''setup'', ct_RestartPolicy = None, ct_Limits = Some (Some \<lparr>q_Value = 900, q_String = ''900''\<rparr>)\<rparr>],
     pod_Conditions = [\<lparr>pc_Type = ''Ready'', pc_Status = ''True''\<rparr>],
     pod_ContainerStatuses = [\<lparr>cs_Name = ''app'', cs_RestartCount = 2\<rparr>],
     pod_InitContainerStatuses = [], pod_IP = ''10.0.0.7''\<rparr>"

lemma default_container_choice_witness:
  "defaultContainer demo_pod (candidates demo_pod) = Some (Candidate ''app'' 100)"
proof -
  have "map_get (pod_Annotations demo_pod) AnnotationDefaultContainer = ''''"
    by (simp add: demo_pod_def map_get_def)
  moreover have "candidates demo_pod = [Candidate ''proxy'' 50, Candidate ''app'' 100, Candidate ''log'' 0]"
    by (simp add: candidates_def demo_pod_def memLimit_def)
  ultimately show ?thesis
    using default_container_choice [of "''''" demo_pod "candidates demo_pod" "candidates demo_pod" "Candidate ''app'' 100"]
    by simp
qed

definition target_of :: "pod_config \<Rightarrow> candidate \<Rightarrow> target" where
  "target_of cfg c = \<lparr>tg_Name = cand_name c, tg_LimitBytes = cand_limit c, tg_Det = ForContainer cfg (cand_name c)\<rparr>"

definition monitorable :: "target \<Rightarrow> bool" where
  "monitorable t \<longleftrightarrow> 0 < tg_LimitBytes t \<or> d_ThresholdAbsolute (tg_Det t) \<noteq> None"

lemma SelectTargets_eq:
  "SelectTargets pod cfg =
     (filter monitorable (map (target_of cfg) (selected_candidates pod cfg)),
      length (filter (\<lambda>c. \<not> monitorable (target_of cfg c)) (selected_candidates pod cfg)))"
proof -
  have bad: "cand_limit c \<le> 0 \<and> d_ThresholdAbsolute (ForContainer cfg (cand_name c)) = None
      \<longleftrightarrow> \<not> monitorable (target_of cfg c)" for c
    by (auto simp: monitorable_def target_of_def)
  show ?thesis
    unfolding SelectTargets_def select_loop_spec bad target_of_def [symmetric] by (simp add: filter_map comp_def)
qed

text \<open>The containers that may be watched: those of the pod, and the init containers that run on as sidecars.\<close>

definition sidecar :: "container \<Rightarrow> bool" where
  "sidecar c \<longleftrightarrow> ct_RestartPolicy c = Some ''Always''"

definition watchable :: "pod \<Rightarrow> container \<Rightarrow> bool" where
  "watchable pod c \<longleftrightarrow> c \<in> set (pod_Containers pod) \<or> c \<in> set (pod_InitContainers pod) \<and> sidecar c"

lemma candidate_watchable:
  "x \<in> set (candidates pod) \<longleftrightarrow> (\<exists>c. watchable pod c \<and> x = Candidate (ct_Name c) (memLimit c))"
  by (auto simp: candidates_def watchable_def sidecar_def)

lemma byName_None: "byName cands n = None \<longleftrightarrow> n \<notin> cand_name ` set cands"
  by (auto simp: byName_def map_of_eq_None_iff image_image)

lemma length_map_filter: "length (List.map_filter f xs) = length (filter (\<lambda>x. f x \<noteq> None) xs)"
  by (induction xs) (auto simp: map_filter_simps)

text \<open>What is selected, for each of the three forms of the container list.\<close>

lemma selected_forms:
  "pc_Containers cfg = [] \<Longrightarrow> length (selected_candidates pod cfg) \<le> 1"
  "pc_Containers cfg = [ContainersAll] \<Longrightarrow> selected_candidates pod cfg = candidates pod"
  "pc_Containers cfg \<notin> {[], [ContainersAll]} \<Longrightarrow>
     length (selected_candidates pod cfg) = length (filter (\<lambda>n. n \<in> cand_name ` set (candidates pod)) (pc_Containers cfg))
     \<and> cand_name ` set (selected_candidates pod cfg) \<subseteq> set (pc_Containers cfg)"
proof -
  show "pc_Containers cfg = [] \<Longrightarrow> length (selected_candidates pod cfg) \<le> 1"
    by (auto simp: selected_candidates_def Let_def split: option.split)
  show "pc_Containers cfg = [ContainersAll] \<Longrightarrow> selected_candidates pod cfg = candidates pod"
    by (simp add: selected_candidates_def Let_def)
  assume "pc_Containers cfg \<notin> {[], [ContainersAll]}"
  then have "selected_candidates pod cfg = List.map_filter (byName (candidates pod)) (pc_Containers cfg)"
    by (auto simp: selected_candidates_def Let_def length_Suc_conv)
  moreover have "byName (candidates pod) n \<noteq> None \<longleftrightarrow> n \<in> cand_name ` set (candidates pod)" for n
    by (simp add: byName_None del: not_None_eq)
  ultimately show "length (selected_candidates pod cfg) = length (filter (\<lambda>n. n \<in> cand_name ` set (candidates pod)) (pc_Containers cfg))
      \<and> cand_name ` set (selected_candidates pod cfg) \<subseteq> set (pc_Containers cfg)"
    by (auto simp: length_map_filter set_map_filter dest: byName_in)
qed

lemma selected_counted:
  assumes "SelectTargets pod cfg = (targets, dropped)"
  shows "length targets + dropped = length (selected_candidates pod cfg)"
proof -
  have "length (filter P xs) + length (filter (\<lambda>c. \<not> P c) xs) = length xs" for P and xs :: "candidate list"
    by (induction xs) auto
  then show ?thesis using assms by (auto simp: SelectTargets_eq filter_map comp_def)
qed

text \<open>
  C35: what a pod's targets are. Each is a container of the pod or an init container that restarts always, never
  a plain init container, with the memory limit of that container and the settings in force for it, and it can be
  judged: it has a limit or an absolute cap. With the list \<open>*\<close> every such container is a target or counted as
  dropped, and none that can be judged is dropped; with names only the named ones are, once for each name that is
  there; with no list at most one is.
\<close>

theorem targets_are_watchable:
  assumes "SelectTargets pod cfg = (targets, dropped)"
  shows "(\<forall>t \<in> set targets. monitorable t \<and> tg_Det t = ForContainer cfg (tg_Name t)
        \<and> (\<exists>c. watchable pod c \<and> ct_Name c = tg_Name t \<and> memLimit c = tg_LimitBytes t))
    \<and> (pc_Containers cfg = [ContainersAll] \<longrightarrow>
         length targets + dropped = length (pod_Containers pod) + length (filter sidecar (pod_InitContainers pod))
         \<and> (\<forall>c. watchable pod c \<and> (0 < memLimit c \<or> d_ThresholdAbsolute (ForContainer cfg (ct_Name c)) \<noteq> None)
              \<longrightarrow> (\<exists>t \<in> set targets. tg_Name t = ct_Name c \<and> tg_LimitBytes t = memLimit c)))
    \<and> (pc_Containers cfg \<notin> {[], [ContainersAll]} \<longrightarrow> tg_Name ` set targets \<subseteq> set (pc_Containers cfg)
         \<and> length targets + dropped = length (filter (\<lambda>n. \<exists>c. watchable pod c \<and> ct_Name c = n) (pc_Containers cfg)))
    \<and> (pc_Containers cfg = [] \<longrightarrow> length targets + dropped \<le> 1)"
proof (intro conjI impI)
  let ?sel = "selected_candidates pod cfg"
  note count = selected_counted [OF assms]
  have targets: "targets = filter monitorable (map (target_of cfg) ?sel)" using assms by (simp add: SelectTargets_eq)
  have names: "n \<in> cand_name ` set (candidates pod) \<longleftrightarrow> (\<exists>c. watchable pod c \<and> ct_Name c = n)" for n
    by (force simp: candidate_watchable)
  show "\<forall>t \<in> set targets. monitorable t \<and> tg_Det t = ForContainer cfg (tg_Name t)
      \<and> (\<exists>c. watchable pod c \<and> ct_Name c = tg_Name t \<and> memLimit c = tg_LimitBytes t)"
  proof
    fix t
    assume "t \<in> set targets"
    then obtain x where x: "monitorable t" "x \<in> set ?sel" "t = target_of cfg x" by (auto simp: targets)
    then have "x \<in> set (candidates pod)" using selected_in by blast
    then show "monitorable t \<and> tg_Det t = ForContainer cfg (tg_Name t)
        \<and> (\<exists>c. watchable pod c \<and> ct_Name c = tg_Name t \<and> memLimit c = tg_LimitBytes t)"
      using x by (auto simp: candidate_watchable target_of_def)
  qed
  show "length targets + dropped \<le> 1" if "pc_Containers cfg = []" using count selected_forms(1) [OF that] by simp
  show "tg_Name ` set targets \<subseteq> set (pc_Containers cfg)" if "pc_Containers cfg \<notin> {[], [ContainersAll]}"
    using selected_forms(3) [OF that, of pod] by (auto simp: targets target_of_def)
  show "length targets + dropped = length (filter (\<lambda>n. \<exists>c. watchable pod c \<and> ct_Name c = n) (pc_Containers cfg))"
    if "pc_Containers cfg \<notin> {[], [ContainersAll]}"
    using count selected_forms(3) [OF that, of pod] by (simp add: names)
  assume all: "pc_Containers cfg = [ContainersAll]"
  show "length targets + dropped = length (pod_Containers pod) + length (filter sidecar (pod_InitContainers pod))"
    using count selected_forms(2) [OF all, of pod] by (simp add: candidates_def sidecar_def [abs_def])
  show "\<forall>c. watchable pod c \<and> (0 < memLimit c \<or> d_ThresholdAbsolute (ForContainer cfg (ct_Name c)) \<noteq> None)
      \<longrightarrow> (\<exists>t \<in> set targets. tg_Name t = ct_Name c \<and> tg_LimitBytes t = memLimit c)"
  proof (intro allI impI)
    fix c
    assume c: "watchable pod c \<and> (0 < memLimit c \<or> d_ThresholdAbsolute (ForContainer cfg (ct_Name c)) \<noteq> None)"
    let ?t = "target_of cfg (Candidate (ct_Name c) (memLimit c))"
    have "Candidate (ct_Name c) (memLimit c) \<in> set (candidates pod)" using c candidate_watchable by blast
    then have "?t \<in> target_of cfg ` set (candidates pod)" by (rule imageI)
    moreover have "monitorable ?t" using c by (auto simp: target_of_def monitorable_def)
    ultimately have "?t \<in> set targets" unfolding targets selected_forms(2) [OF all] by simp
    then show "\<exists>t \<in> set targets. tg_Name t = ct_Name c \<and> tg_LimitBytes t = memLimit c"
      by (rule rev_bexI) (simp add: target_of_def)
  qed
qed

definition plain_config :: pod_config where
  "plain_config = \<lparr>pc_Base = \<lparr>d_Mode = ModeSustained, d_ThresholdPercent = 85, d_ThresholdAbsolute = None, d_Window = 600,
       d_TrendMinGrowth = \<lparr>q_Value = 100, q_String = ''100''\<rparr>\<rparr>, pc_StartupGrace = 0, pc_Cooldown = 60, pc_RestartWindow = 600,
     pc_MaxRestartsPerWindow = 3, pc_DryRun = False, pc_Containers = [], pc_Overrides = [], pc_ProfileCapture = None,
     pc_PprofPath = '''', pc_MaintenanceWindows = [], pc_NotifyRoutes = [], pc_SlackChannel = ''''\<rparr>"

text \<open>With \<open>*\<close> the demo pod, whose init container is a plain one, has its two containers with a limit as targets.\<close>

lemma targets_are_watchable_witness:
  "(\<exists>t \<in> set (fst (SelectTargets demo_pod (plain_config\<lparr>pc_Containers := [ContainersAll]\<rparr>))). tg_Name t = ''app'' \<and> tg_LimitBytes t = 100)
   \<and> length (fst (SelectTargets demo_pod (plain_config\<lparr>pc_Containers := [ContainersAll]\<rparr>)))
       + snd (SelectTargets demo_pod (plain_config\<lparr>pc_Containers := [ContainersAll]\<rparr>)) = 3"
proof -
  let ?cfg = "plain_config\<lparr>pc_Containers := [ContainersAll]\<rparr>"
  let ?c = "\<lparr>ct_Name = ''app'', ct_RestartPolicy = None, ct_Limits = Some (Some \<lparr>q_Value = 100, q_String = ''100''\<rparr>)\<rparr>"
  obtain ts d where sel: "SelectTargets demo_pod ?cfg = (ts, d)" by fastforce
  have "watchable demo_pod ?c" "memLimit ?c = 100" "length (pod_Containers demo_pod) = 3" "filter sidecar (pod_InitContainers demo_pod) = []"
    by (simp_all add: watchable_def memLimit_def demo_pod_def sidecar_def)
  then show ?thesis
    using targets_are_watchable [OF sel] unfolding sel by (force simp: Let_def)
qed

end
