(* ===== verification/Sampler.thy ===== *)
theory Sampler
  imports Selection
begin

text \<open>
  \<open>internal/controller/sampler.go\<close>: the sampling loop. A tick lists the policies, asks the datasource for
  usage, observes every watched container that has a reading, queues the policies with a covered window,
  rewrites the gauges and prunes the series that got no reading. The datasource is the interface
  \<open>datasource.Source\<close>. Gauges are written in the order their labels were first met; the order in which Go
  ranges over a map is unspecified.
\<close>

section \<open>The sampler\<close>

record usage =
  u_Namespace :: string
  u_Pod :: string
  u_Container :: string
  u_WorkingSet :: int

text \<open>\<open>Name\<close>, \<open>Probe\<close> and \<open>ListUsage\<close> of a source.\<close>

record 'w source =
  src_Name :: string
  src_Probe :: "('w, unit result) op"
  src_ListUsage :: "string list \<Rightarrow> ('w, usage list result) op"

record 'w sampler =
  sm_Lib :: lib
  sm_API :: "'w api"
  sm_Source :: "'w source"
  sm_Defaults :: defaults
  sm_Kinds :: kinds
  sm_Namespaces :: "string list"
  sm_Interval :: duration
  sm_Events :: bool

fun listPolicies_loop :: "'w api \<Rightarrow> string list \<Rightarrow> policy list \<Rightarrow> ('w, policy list result) op" where
  "listPolicies_loop A [] out = ret (Inr out)"
| "listPolicies_loop A (ns # nss) out = do {
     r \<leftarrow> call (a_ListPolicies A ns);
     case r of Inl e \<Rightarrow> ret (Inl e) | Inr items \<Rightarrow> listPolicies_loop A nss (out @ items) }"

definition listPolicies :: "'w sampler \<Rightarrow> ('w, policy list result) op" where
  "listPolicies S =
     listPolicies_loop (sm_API S) (if length (sm_Namespaces S) = 0 then [''''] else sm_Namespaces S) []"

section \<open>The tick\<close>

text \<open>A counter per label tuple, a missing one being zero.\<close>

definition bump :: "'k \<Rightarrow> int \<Rightarrow> ('k \<times> int) list \<Rightarrow> ('k \<times> int) list" where
  "bump k n m = AList.update k ((case map_of m k of None \<Rightarrow> 0 | Some i \<Rightarrow> i) + n) m"

definition usage_key :: "usage \<Rightarrow> key" where
  "usage_key u = \<lparr>k_Namespace = u_Namespace u, k_Pod = u_Pod u, k_Container = u_Container u\<rparr>"

text \<open>The later of two readings of one container wins.\<close>

definition usage_map :: "usage list \<Rightarrow> (key, int) fmap" where
  "usage_map us = fmap_of_list (rev (map (\<lambda>u. (usage_key u, u_WorkingSet u)) us))"

text \<open>What a tick accumulates: the live keys and the counts behind the gauges.\<close>

record tick =
  tk_live :: "key fset"
  tk_ignored :: "(string list \<times> int) list"
  tk_monitored :: "(string list \<times> int) list"
  tk_policies :: "(string list \<times> int) list"

definition target_key :: "pod \<Rightarrow> target \<Rightarrow> key" where
  "target_key pod t = \<lparr>k_Namespace = pod_Namespace pod, k_Pod = pod_Name pod, k_Container = tg_Name t\<rparr>"

fun sample_targets ::
  "(key, int) fmap \<Rightarrow> time \<Rightarrow> pod \<Rightarrow> target list \<Rightarrow> key fset \<Rightarrow> bool \<Rightarrow> ('w, key fset \<times> bool) op" where
  "sample_targets byKey now pod [] live enqueue = ret (live, enqueue)"
| "sample_targets byKey now pod (t # ts) live enqueue =
     (case fmlookup byKey (target_key pod t) of
        None \<Rightarrow> sample_targets byKey now pod ts live enqueue
      | Some ws \<Rightarrow> do {
          store \<leftarrow> get_samples;
          let store' = Observe store (target_key pod t)
                \<lparr>s_Time = now, s_WorkingSet = ws, s_Limit = tg_LimitBytes t\<rparr> (restartCount pod (tg_Name t))
          in do {
            put_samples store';
            sample_targets byKey now pod ts (finsert (target_key pod t) live)
              (if StoreWindowCovered store' (target_key pod t) (d_Window (tg_Det t)) now then True else enqueue) } })"

fun sample_pods ::
  "(key, int) fmap \<Rightarrow> time \<Rightarrow> pod_config \<Rightarrow> string list \<Rightarrow> pod list \<Rightarrow> tick \<Rightarrow> bool \<Rightarrow> ('w, tick \<times> bool) op" where
  "sample_pods byKey now cfg wkey [] k enqueue = ret (k, enqueue)"
| "sample_pods byKey now cfg wkey (pod # pods) k enqueue =
     (case SelectTargets pod cfg of (targets, dropped) \<Rightarrow> do {
        r \<leftarrow> sample_targets byKey now pod targets (tk_live k) enqueue;
        sample_pods byKey now cfg wkey pods
          (k\<lparr>tk_live := fst r, tk_monitored := bump wkey 1 (tk_monitored k),
             tk_ignored := bump wkey (int dropped) (tk_ignored k)\<rparr>) (snd r) })"

definition sample_policy ::
  "'w sampler \<Rightarrow> (key, int) fmap \<Rightarrow> time \<Rightarrow> policy \<Rightarrow> tick \<Rightarrow> ('w, tick) op" where
  "sample_policy S byKey now p k0 =
     (let cfg = ResolvePolicy (sm_Defaults S) (p_Spec p);
          k = k0\<lparr>tk_policies := bump [p_Namespace p, bool_str (pc_DryRun cfg)] 1 (tk_policies k0)\<rparr>;
          wkey = [p_Namespace p, wr_Kind (sp_WorkloadRef (p_Spec p)), wr_Name (sp_WorkloadRef (p_Spec p))]
      in do {
        w \<leftarrow> GetWorkload (sm_API S) (wr_Kind (sp_WorkloadRef (p_Spec p))) (p_Namespace p) (wr_Name (sp_WorkloadRef (p_Spec p)));
        case w of
          Inl e \<Rightarrow> if err_is e ErrNotFound then ret k else do { emit (ELog ''resolve workload''); ret k }
        | Inr wl \<Rightarrow> do {
            ps \<leftarrow> listWorkloadPods (sm_Lib S) (sm_API S) wl;
            case ps of
              Inl e \<Rightarrow> do { emit (ELog ''list workload pods''); ret k }
            | Inr pods \<Rightarrow> do {
                r \<leftarrow> sample_pods byKey now cfg wkey pods k False;
                _ \<leftarrow> (if snd r \<and> sm_Events S then emit (EEnqueue (p_Namespace p) (p_Name p)) else ret ());
                ret (fst r) } } })"

fun sample_policies :: "'w sampler \<Rightarrow> (key, int) fmap \<Rightarrow> time \<Rightarrow> policy list \<Rightarrow> tick \<Rightarrow> ('w, tick) op" where
  "sample_policies S byKey now [] k = ret k"
| "sample_policies S byKey now (p # ps) k = do {
     k' \<leftarrow> sample_policy S byKey now p k;
     sample_policies S byKey now ps k' }"

fun set_gauges :: "string \<Rightarrow> string list \<Rightarrow> (string list \<times> int) list \<Rightarrow> ('w, unit) op" where
  "set_gauges name extra [] = ret ()"
| "set_gauges name extra ((ls, n) # m) = do { emit (EGauge name (ls @ extra) n); set_gauges name extra m }"

definition rewrite_gauges :: "tick \<Rightarrow> ('w, unit) op" where
  "rewrite_gauges k = do {
     emit (EGaugeReset ''memreload_pods_monitored'');
     set_gauges ''memreload_pods_monitored'' [] (tk_monitored k);
     emit (EGaugeReset ''memreload_containers_ignored'');
     set_gauges ''memreload_containers_ignored'' [''no_limit''] (tk_ignored k);
     emit (EGaugeReset ''memreload_policies'');
     set_gauges ''memreload_policies'' [] (tk_policies k) }"

definition sampleOnce :: "'w sampler \<Rightarrow> ('w, unit) op" where
  "sampleOnce S = do {
     pr \<leftarrow> listPolicies S;
     case pr of
       Inl e \<Rightarrow> emit (ELog ''list policies'')
     | Inr policies \<Rightarrow> do {
         ur \<leftarrow> src_ListUsage (sm_Source S) (sm_Namespaces S);
         case ur of
           Inl e \<Rightarrow> do {
             emit (ECounter ''memreload_datasource_errors_total'' [src_Name (sm_Source S)]);
             emit (ELog ''datasource list usage'') }
         | Inr usage \<Rightarrow> do {
             now \<leftarrow> call (a_Now (sm_API S));
             k \<leftarrow> sample_policies S (usage_map usage) now policies
                   \<lparr>tk_live = {||}, tk_ignored = [], tk_monitored = [], tk_policies = []\<rparr>;
             rewrite_gauges k;
             store \<leftarrow> get_samples;
             case Prune store (tk_live k) of (store', kept) \<Rightarrow> do {
               put_samples store';
               emit (EGauge ''memreload_sample_buffer_series'' [] (int kept)) } } } }"

text \<open>\<open>Start\<close>: one tick at once, then one for each of the \<open>n\<close> ticks of the interval before the context ends.\<close>

definition sampler_interval :: "'w sampler \<Rightarrow> duration" where
  "sampler_interval S = (if sm_Interval S \<le> 0 then 30 * Second else sm_Interval S)"

fun sampler_ticks :: "'w sampler \<Rightarrow> nat \<Rightarrow> ('w, unit) op" where
  "sampler_ticks S 0 = ret ()"
| "sampler_ticks S (Suc n) = do { sampleOnce S; sampler_ticks S n }"

definition sampler_Start :: "'w sampler \<Rightarrow> nat \<Rightarrow> ('w, unit) op" where
  "sampler_Start S n = do { sampleOnce S; sampler_ticks S n }"

section \<open>Lemmas\<close>

lemma keeps_listPolicies [keeping]:
  "keeps sy_Gate (listPolicies S)" "keeps sy_Samples (listPolicies S)" "keeps sy_Trace (listPolicies S)"
proof -
  have "keeps sy_Gate (listPolicies_loop A nss out)" "keeps sy_Samples (listPolicies_loop A nss out)"
    "keeps sy_Trace (listPolicies_loop A nss out)" for A :: "'a api" and nss out
    by (induction nss arbitrary: out) (auto intro!: keeping)
  then show "keeps sy_Gate (listPolicies S)" "keeps sy_Samples (listPolicies S)" "keeps sy_Trace (listPolicies S)"
    by (simp_all add: listPolicies_def)
qed

text \<open>
  During a tick: the store keeps its invariant, no sample is later than the tick, and a live key is one with
  a reading, whose newest sample is that reading.
\<close>

definition fresh :: "(key, int) fmap \<Rightarrow> time \<Rightarrow> sample_store \<Rightarrow> key \<Rightarrow> bool" where
  "fresh byKey now st k \<longleftrightarrow> Samples st k \<noteq> [] \<and> s_Time (last (Samples st k)) = now
     \<and> fmlookup byKey k = Some (s_WorkingSet (last (Samples st k)))"

definition ticking :: "(key, int) fmap \<Rightarrow> time \<Rightarrow> key fset \<Rightarrow> sample_store \<Rightarrow> bool" where
  "ticking byKey now live st \<longleftrightarrow> store_ok st \<and> (\<forall>k. seen_before st k now) \<and> (\<forall>k. k |\<in>| live \<longrightarrow> fresh byKey now st k)"

lemma ticking_Observe:
  assumes "ticking byKey now live st" and "fmlookup byKey k = Some ws"
  shows "ticking byKey now (finsert k live) (Observe st k \<lparr>s_Time = now, s_WorkingSet = ws, s_Limit = l\<rparr> rc)"
proof -
  let ?x = "\<lparr>s_Time = now, s_WorkingSet = ws, s_Limit = l\<rparr>"
  have ok: "store_ok st" "seen_before st k (s_Time ?x)" using assms(1) by (simp_all add: ticking_def)
  note kr = keep_recent_ok [OF pending_snoc_sorted [OF ok, of rc] store_okD(1,2) [OF ok(1)]]
  note obs = Samples_Observe [OF ok, of rc] Samples_Observe_other [of _ k st ?x rc]
  have "seen_before (Observe st k ?x rc) k' now" for k'
  proof (cases "k' = k")
    case True
    have "set (Samples (Observe st k ?x rc) k) \<subseteq> insert ?x (set (Samples st k))"
      using kr(6) pending_subset [of st k rc] unfolding obs(1) by auto
    then show ?thesis using True ok(2) by (auto simp: seen_before_def)
  next
    case False
    then show ?thesis using assms(1) by (simp add: seen_before_def obs(2) ticking_def)
  qed
  moreover have "fresh byKey now (Observe st k ?x rc) k"
    using kr(1,2) assms(2) by (simp add: fresh_def obs(1))
  moreover have "k' |\<in>| live \<Longrightarrow> fresh byKey now (Observe st k ?x rc) k'" if "k' \<noteq> k" for k'
    using that assms(1) by (simp add: fresh_def obs(2) ticking_def)
  ultimately have "k' |\<in>| finsert k live \<Longrightarrow> fresh byKey now (Observe st k ?x rc) k'"
    and "seen_before (Observe st k ?x rc) k' now" for k'
    by (cases "k' = k", simp_all)
  then show ?thesis
    using Observe_ok [OF ok] unfolding ticking_def by blast
qed

lemma sample_targets_ticking:
  "ticking byKey now live (sy_Samples s) \<Longrightarrow>
   wp (sample_targets byKey now pod ts live enq) (\<lambda>r t. ticking byKey now (fst r) (sy_Samples t)) s"
proof (induction ts arbitrary: live enq s)
  case (Cons t ts)
  show ?case
  proof (cases "fmlookup byKey (target_key pod t)")
    case None
    then show ?thesis using Cons by simp
  next
    case (Some ws)
    from ticking_Observe [OF Cons.prems Some] show ?thesis
      by (simp add: Some Let_def Cons.IH)
  qed
qed simp

lemma sample_pods_ticking:
  "ticking byKey now (tk_live k) (sy_Samples s) \<Longrightarrow>
   wp (sample_pods byKey now cfg wkey pods k enq) (\<lambda>r t. ticking byKey now (tk_live (fst r)) (sy_Samples t)) s"
proof (induction pods arbitrary: k enq s)
  case (Cons pod pods)
  obtain ts d where sel: "SelectTargets pod cfg = (ts, d)" by fastforce
  show ?case unfolding sample_pods.simps sel prod.case wp_bind
    by (rule wp_mono [OF sample_targets_ticking [OF Cons.prems]], rule Cons.IH) simp
qed simp

lemma sample_policy_ticking:
  assumes "ticking byKey now (tk_live k) (sy_Samples s)"
  shows "wp (sample_policy S byKey now p k) (\<lambda>k' t. ticking byKey now (tk_live k') (sy_Samples t)) s"
proof -
  define cfg where "cfg = ResolvePolicy (sm_Defaults S) (p_Spec p)"
  define k1 where "k1 = k\<lparr>tk_policies := bump [p_Namespace p, bool_str (pc_DryRun cfg)] 1 (tk_policies k)\<rparr>"
  have k1: "tk_live k1 = tk_live k" by (simp add: k1_def)
  have pods: "wp (do { r \<leftarrow> sample_pods byKey now cfg wkey pods k1 False;
        _ \<leftarrow> (if snd r \<and> sm_Events S then emit (EEnqueue (p_Namespace p) (p_Name p)) else ret ());
        ret (fst r) }) (\<lambda>k' t. ticking byKey now (tk_live k') (sy_Samples t)) u"
    if "sy_Samples u = sy_Samples s" for pods wkey and u :: "'a sys"
    using assms that unfolding wp_bind by (auto intro: wp_mono [OF sample_pods_ticking] simp: k1)
  have list: "wp (do { ps \<leftarrow> listWorkloadPods (sm_Lib S) (sm_API S) wl;
        case ps of Inl e \<Rightarrow> do { emit (ELog ''list workload pods''); ret k1 }
        | Inr pods \<Rightarrow> do {
            r \<leftarrow> sample_pods byKey now cfg wkey pods k1 False;
            _ \<leftarrow> (if snd r \<and> sm_Events S then emit (EEnqueue (p_Namespace p) (p_Name p)) else ret ());
            ret (fst r) } }) (\<lambda>k' t. ticking byKey now (tk_live k') (sy_Samples t)) u"
    if "sy_Samples u = sy_Samples s" for wl wkey and u :: "'a sys"
    unfolding wp_bind [of "listWorkloadPods _ _ _"]
    by (rule wp_mono [OF keepsD [OF keeps_listWorkloadPods(2)]])
       (use that assms pods in \<open>auto split: sum.split simp: k1 simp del: wp_bind\<close>, simp add: k1)
  show ?thesis
    unfolding sample_policy_def Let_def cfg_def [symmetric] k1_def [symmetric] wp_bind [of "GetWorkload _ _ _ _"]
    by (rule wp_mono [OF keepsD [OF keeps_GetWorkload(2)]])
       (use assms list in \<open>auto split: sum.split simp: k1 simp del: wp_bind\<close>, simp_all add: k1)
qed

lemma sample_policies_ticking:
  "ticking byKey now (tk_live k) (sy_Samples s) \<Longrightarrow>
   wp (sample_policies S byKey now ps k) (\<lambda>k' t. ticking byKey now (tk_live k') (sy_Samples t)) s"
  by (induction ps arbitrary: k s) (auto intro: wp_mono [OF sample_policy_ticking])

lemma keeps_rewrite [keeping]: "keeps sy_Samples (rewrite_gauges k)" "keeps sy_Gate (rewrite_gauges k)"
proof -
  have "keeps sy_Samples (set_gauges n x m)" "keeps sy_Gate (set_gauges n x m)" for n x m
    by (induction m) (auto intro!: keeping)
  then show "keeps sy_Samples (rewrite_gauges k)" "keeps sy_Gate (rewrite_gauges k)"
    unfolding rewrite_gauges_def by (auto intro!: keeping)
qed

lemma Prune_fresh:
  "ticking byKey now live st \<Longrightarrow> Samples (fst (Prune st live)) k \<noteq> [] \<Longrightarrow> fresh byKey now (fst (Prune st live)) k"
  by (auto simp: ticking_def fresh_def Samples_def split: if_splits option.splits)

section \<open>Properties\<close>

lemma wp_bind_run: "run_state m s = (a, t) \<Longrightarrow> wp (State_Monad.bind m f) Q s = wp (f a) Q t"
  by (simp add: wp_def)

lemma sampleOnce_run:
  assumes "run_state (listPolicies S) s = (Inr policies, s1)"
    and "run_state (src_ListUsage (sm_Source S) (sm_Namespaces S)) s1 = (Inr us, s2)"
    and "fst (a_Now (sm_API S) (sy_World s2)) = now"
    and t: "ticking (usage_map us) now {||} (sy_Samples s2)"
  shows "wp (sampleOnce S) (\<lambda>_ t. store_ok (sy_Samples t)
    \<and> (\<forall>k. Samples (sy_Samples t) k \<noteq> [] \<longrightarrow> fresh (usage_map us) now (sy_Samples t) k)) s"
proof -
  let ?k0 = "\<lparr>tk_live = {||}, tk_ignored = [], tk_monitored = [], tk_policies = []\<rparr>"
  obtain w where w: "a_Now (sm_API S) (sy_World s2) = (now, w)" using assms(3) by (cases "a_Now (sm_API S) (sy_World s2)") auto
  have finish: "wp (do { rewrite_gauges k; store \<leftarrow> get_samples;
        case Prune store (tk_live k) of (store', kept) \<Rightarrow> do {
          put_samples store'; emit (EGauge ''memreload_sample_buffer_series'' [] (int kept)) } })
      (\<lambda>_ t. store_ok (sy_Samples t) \<and> (\<forall>k. Samples (sy_Samples t) k \<noteq> [] \<longrightarrow> fresh (usage_map us) now (sy_Samples t) k)) u"
    if "ticking (usage_map us) now (tk_live k) (sy_Samples u)" for k and u :: "'a sys"
  proof -
    have "store_ok (fst (Prune (sy_Samples u) (tk_live k)))"
      "\<forall>x. Samples (fst (Prune (sy_Samples u) (tk_live k))) x \<noteq> [] \<longrightarrow>
         fresh (usage_map us) now (fst (Prune (sy_Samples u) (tk_live k))) x"
      using that Prune_ok Prune_fresh unfolding ticking_def by blast+
    then show ?thesis
      unfolding wp_bind [of "rewrite_gauges k"]
      by (intro wp_mono [OF keepsD [OF keeps_rewrite(1)]]) (simp add: case_prod_beta)
  qed
  have "wp (sample_policies S (usage_map us) now policies ?k0)
      (\<lambda>k t. ticking (usage_map us) now (tk_live k) (sy_Samples t)) (s2\<lparr>sy_World := w\<rparr>)"
    by (rule sample_policies_ticking) (use t in simp)
  moreover have "run_state (call (a_Now (sm_API S))) s2 = (now, s2\<lparr>sy_World := w\<rparr>)"
    by (simp add: call_def w)
  ultimately show ?thesis
    unfolding sampleOnce_def
    by (simp add: wp_bind_run [OF assms(1)] wp_bind_run [OF assms(2)] wp_bind_run [of "call _"]
        wp_bind [of "sample_policies _ _ _ _ _"] del: wp_bind)
       (erule wp_mono, use finish in blast)
qed

text \<open>
  A series lives from reading to reading. After a tick that reached the policies and the datasource, with
  a clock that has not run backwards and a source that leaves the store alone, the store keeps its
  invariant and every series in it ends in a sample of this tick with the datasource's reading: one
  whose container had no reading at this tick, or was not reached, is gone, however long its history.
\<close>

theorem tick_leaves_fresh_series:
  assumes "run_state (listPolicies S) s = (Inr policies, s1)"
    and "run_state (src_ListUsage (sm_Source S) (sm_Namespaces S)) s1 = (Inr us, s2)"
    and "sy_Samples s2 = sy_Samples s1" and "fst (a_Now (sm_API S) (sy_World s2)) = now"
    and "store_ok (sy_Samples s)" and "\<And>k. seen_before (sy_Samples s) k now"
  shows "wp (sampleOnce S) (\<lambda>_ t. store_ok (sy_Samples t)
    \<and> (\<forall>k. Samples (sy_Samples t) k \<noteq> [] \<longrightarrow> s_Time (last (Samples (sy_Samples t) k)) = now
         \<and> fmlookup (usage_map us) k = Some (s_WorkingSet (last (Samples (sy_Samples t) k))))) s"
proof -
  have "sy_Samples s1 = sy_Samples s" using keeps_run [OF keeps_listPolicies(2) assms(1)] .
  then have "ticking (usage_map us) now {||} (sy_Samples s2)"
    using assms(3,5,6) by (simp add: ticking_def)
  from sampleOnce_run [OF assms(1,2,4) this] show ?thesis
    by (rule wp_mono) (simp add: fresh_def)
qed

definition silent_source :: "'w source" where
  "silent_source = \<lparr>src_Name = ''metrics-server'', src_Probe = ret (Inr ()), src_ListUsage = (\<lambda>ns. ret (Inr []))\<rparr>"

definition demo_sampler :: "cluster sampler" where
  "demo_sampler = \<lparr>sm_Lib = demo_lib, sm_API = demo_api, sm_Source = silent_source,
     sm_Defaults = \<lparr>df_Detection = \<lparr>d_Mode = ''sustained'', d_ThresholdPercent = 80, d_ThresholdAbsolute = None,
         d_Window = 10, d_TrendMinGrowth = \<lparr>q_Value = 1, q_String = ''1''\<rparr>\<rparr>,
       df_SampleInterval = 5, df_StartupGrace = 0, df_Cooldown = 60, df_RestartWindow = 600, df_MaxRestartsPerWindow = 3\<rparr>,
     sm_Kinds = \<lparr>kd_Deployments = True, kd_StatefulSets = True, kd_Rollouts = True\<rparr>,
     sm_Namespaces = [], sm_Interval = 5, sm_Events = True\<rparr>"

definition sampled_sys :: "cluster sys" where
  "sampled_sys = demo_sys (demo_cluster (demo_deployment None) []) (NewGate 1)
     (Observe (NewStore 100 3) demo_key (demo_sample 5 7) 0)"

text \<open>One tick without a reading loses the history.\<close>

lemma tick_leaves_fresh_series_witness:
  "Samples (sy_Samples sampled_sys) demo_key = [demo_sample 5 7]
   \<and> wp (sampleOnce demo_sampler) (\<lambda>_ t. Samples (sy_Samples t) demo_key = []) sampled_sys"
proof
  have s: "sy_Samples sampled_sys = Observe (NewStore 100 3) demo_key (demo_sample 5 7) 0"
    by (simp add: sampled_sys_def demo_sys_def)
  have new: "store_ok (NewStore 100 3)" by (rule NewStore_ok) (simp_all add: maxDuration_def)
  have none: "Samples (NewStore 100 3) k = []" for k by (simp add: Samples_def NewStore_def)
  have before: "seen_before (NewStore 100 3) demo_key (s_Time (demo_sample 5 7))" by (simp add: seen_before_def none)
  have "pending_samples (NewStore 100 3) demo_key 0 = []" by (simp add: pending_samples_def NewStore_def)
  then show one: "Samples (sy_Samples sampled_sys) demo_key = [demo_sample 5 7]"
    using Samples_Observe [OF new before, of 0]
    by (simp add: s keep_recent_def demo_sample_def NewStore_def)
  have ok: "store_ok (sy_Samples sampled_sys)" unfolding s by (rule Observe_ok [OF new before])
  have seen: "seen_before (sy_Samples sampled_sys) k 1709210096000000000" for k
    using one none Samples_Observe_other [of k demo_key "NewStore 100 3" "demo_sample 5 7" 0]
    by (cases "k = demo_key") (simp_all add: seen_before_def s demo_sample_def)
  have l: "run_state (listPolicies demo_sampler) sampled_sys = (Inr [], sampled_sys)"
    by (simp add: listPolicies_def demo_sampler_def call_def demo_api_def sampled_sys_def demo_sys_def demo_cluster_def)
  have u: "run_state (src_ListUsage (sm_Source demo_sampler) (sm_Namespaces demo_sampler)) sampled_sys = (Inr [], sampled_sys)"
    by (simp add: demo_sampler_def silent_source_def)
  have n: "fst (a_Now (sm_API demo_sampler) (sy_World sampled_sys)) = 1709210096000000000"
    by (simp add: demo_sampler_def demo_api_def sampled_sys_def demo_sys_def demo_cluster_def)
  show "wp (sampleOnce demo_sampler) (\<lambda>_ t. Samples (sy_Samples t) demo_key = []) sampled_sys"
    by (rule wp_mono [OF tick_leaves_fresh_series [OF l u refl n ok seen]]) (auto simp: usage_map_def)
qed

text \<open>
  A failed tick changes nothing. When the policies cannot be listed or the datasource fails without
  touching the store, no sample is added or dropped, no policy is queued and no gauge is rewritten: the
  tick leaves a log line, and a counter for a failing datasource.
\<close>

theorem failed_tick_keeps_samples:
  assumes "run_state (listPolicies S) s = (pr, s1)"
    and "run_state (src_ListUsage (sm_Source S) (sm_Namespaces S)) s1 = (ur, s2)"
    and "\<not> is_ok pr \<or> \<not> is_ok ur" and "sy_Samples s2 = sy_Samples s1"
  shows "wp (sampleOnce S) (\<lambda>_ t. sy_Samples t = sy_Samples s
    \<and> sy_Trace t = (if is_ok pr then [ELog ''datasource list usage'',
             ECounter ''memreload_datasource_errors_total'' [src_Name (sm_Source S)]] @ sy_Trace s2
         else ELog ''list policies'' # sy_Trace s1)) s"
proof -
  have "sy_Samples s1 = sy_Samples s" using keeps_run [OF keeps_listPolicies(2) assms(1)] .
  then show ?thesis
    using assms(3,4)
    by (cases pr; cases ur) (simp_all add: sampleOnce_def wp_bind_run [OF assms(1)] wp_bind_run [OF assms(2)] del: wp_bind, simp_all)
qed

lemma failed_tick_keeps_samples_witness:
  "wp (sampleOnce (demo_sampler\<lparr>sm_Source := silent_source\<lparr>src_ListUsage := \<lambda>ns. ret (Inl (ErrMsg ''down''))\<rparr>\<rparr>))
     (\<lambda>_ t. sy_Samples t = sy_Samples sampled_sys) sampled_sys"
proof -
  let ?S = "demo_sampler\<lparr>sm_Source := silent_source\<lparr>src_ListUsage := \<lambda>ns. ret (Inl (ErrMsg ''down''))\<rparr>\<rparr>"
  have l: "run_state (listPolicies ?S) sampled_sys = (Inr [], sampled_sys)"
    by (simp add: listPolicies_def demo_sampler_def call_def demo_api_def sampled_sys_def demo_sys_def demo_cluster_def)
  have u: "run_state (src_ListUsage (sm_Source ?S) (sm_Namespaces ?S)) sampled_sys = (Inl (ErrMsg ''down''), sampled_sys)"
    by simp
  show ?thesis
    by (rule wp_mono [OF failed_tick_keeps_samples [OF l u _ refl]]) simp_all
qed

section \<open>Waking the reconciler\<close>

text \<open>A series the store has, as the check of the window sees it, does not depend on the other containers.\<close>

lemma StoreWindowCovered_cong:
  "fmlookup (sto_data st) k = fmlookup (sto_data st') k \<Longrightarrow> StoreWindowCovered st k w now = StoreWindowCovered st' k w now"
  by (simp add: StoreWindowCovered_def)

text \<open>A target with a reading whose window the store covers.\<close>

definition window_covered :: "(key, int) fmap \<Rightarrow> time \<Rightarrow> sample_store \<Rightarrow> pod \<Rightarrow> target \<Rightarrow> bool" where
  "window_covered byKey now st pod x \<longleftrightarrow> fmlookup byKey (target_key pod x) \<noteq> None
     \<and> StoreWindowCovered st (target_key pod x) (d_Window (tg_Det x)) now"

lemma window_covered_cong:
  "fmlookup (sto_data st) (target_key pod x) = fmlookup (sto_data st') (target_key pod x) \<Longrightarrow>
   window_covered byKey now st pod x = window_covered byKey now st' pod x"
  using StoreWindowCovered_cong [of st "target_key pod x" st'] by (simp add: window_covered_def)

lemma sample_targets_wakes:
  "distinct (map (target_key pod) ts) \<Longrightarrow>
   wp (sample_targets byKey now pod ts live enq) (\<lambda>r t. sy_Trace t = sy_Trace s
     \<and> (\<forall>k. k \<notin> target_key pod ` set ts \<longrightarrow> fmlookup (sto_data (sy_Samples t)) k = fmlookup (sto_data (sy_Samples s)) k)
     \<and> (snd r \<longleftrightarrow> enq \<or> (\<exists>x \<in> set ts. window_covered byKey now (sy_Samples t) pod x))) s"
proof (induction ts arbitrary: live enq s)
  case (Cons x ts)
  let ?k = "target_key pod x"
  have new: "?k \<notin> target_key pod ` set ts" and tail: "distinct (map (target_key pod) ts)" using Cons.prems by auto
  show ?case
  proof (cases "fmlookup byKey ?k")
    case None
    then show ?thesis
      by (simp only: sample_targets.simps option.case, intro wp_mono [OF Cons.IH [OF tail]])
         (auto simp: window_covered_def)
  next
    case (Some ws)
    let ?st = "Observe (sy_Samples s) ?k \<lparr>s_Time = now, s_WorkingSet = ws, s_Limit = tg_LimitBytes x\<rparr> (restartCount pod (tg_Name x))"
    have "wp (sample_targets byKey now pod ts (finsert ?k live)
        (if StoreWindowCovered ?st ?k (d_Window (tg_Det x)) now then True else enq)) (\<lambda>r t. sy_Trace t = sy_Trace s
     \<and> (\<forall>k. k \<notin> target_key pod ` set (x # ts) \<longrightarrow> fmlookup (sto_data (sy_Samples t)) k = fmlookup (sto_data (sy_Samples s)) k)
     \<and> (snd r \<longleftrightarrow> enq \<or> (\<exists>y \<in> set (x # ts). window_covered byKey now (sy_Samples t) pod y))) (s\<lparr>sy_Samples := ?st\<rparr>)"
    proof (rule wp_mono [OF Cons.IH [OF tail]], elim conjE, intro conjI)
      fix r and t :: "'a sys"
      assume same: "\<forall>k. k \<notin> target_key pod ` set ts \<longrightarrow>
          fmlookup (sto_data (sy_Samples t)) k = fmlookup (sto_data (sy_Samples (s\<lparr>sy_Samples := ?st\<rparr>))) k"
        and enq: "snd r \<longleftrightarrow> (if StoreWindowCovered ?st ?k (d_Window (tg_Det x)) now then True else enq)
          \<or> (\<exists>y \<in> set ts. window_covered byKey now (sy_Samples t) pod y)"
      show "\<forall>k. k \<notin> target_key pod ` set (x # ts) \<longrightarrow> fmlookup (sto_data (sy_Samples t)) k = fmlookup (sto_data (sy_Samples s)) k"
        using same by (simp add: Observe_other)
      have "window_covered byKey now (sy_Samples t) pod x \<longleftrightarrow> StoreWindowCovered ?st ?k (d_Window (tg_Det x)) now"
        using window_covered_cong [of "sy_Samples t" pod x ?st byKey now] same new Some by (simp add: window_covered_def)
      then show "snd r \<longleftrightarrow> enq \<or> (\<exists>y \<in> set (x # ts). window_covered byKey now (sy_Samples t) pod y)"
        using enq by auto
    qed simp
    then show ?thesis by (simp add: Some Let_def)
  qed
qed simp

definition pod_keys :: "pod_config \<Rightarrow> pod \<Rightarrow> key list" where
  "pod_keys cfg pod = map (target_key pod) (fst (SelectTargets pod cfg))"

lemma sample_pods_wakes:
  "distinct (concat (map (pod_keys cfg) pods)) \<Longrightarrow>
   wp (sample_pods byKey now cfg wkey pods k enq) (\<lambda>r t. sy_Trace t = sy_Trace s
     \<and> (\<forall>key. key \<notin> set (concat (map (pod_keys cfg) pods)) \<longrightarrow>
          fmlookup (sto_data (sy_Samples t)) key = fmlookup (sto_data (sy_Samples s)) key)
     \<and> (snd r \<longleftrightarrow> enq \<or> (\<exists>pod \<in> set pods. \<exists>x \<in> set (fst (SelectTargets pod cfg)). window_covered byKey now (sy_Samples t) pod x))) s"
proof (induction pods arbitrary: k enq s)
  case (Cons pod pods)
  obtain ts d where sel: "SelectTargets pod cfg = (ts, d)" by fastforce
  have keys: "pod_keys cfg pod = map (target_key pod) ts" by (simp add: pod_keys_def sel)
  have own: "distinct (map (target_key pod) ts)" and tail: "distinct (concat (map (pod_keys cfg) pods))"
    and apart: "\<And>x. x \<in> set ts \<Longrightarrow> target_key pod x \<notin> set (concat (map (pod_keys cfg) pods))"
    using Cons.prems by (auto simp: keys)
  show ?case
    unfolding sample_pods.simps sel prod.case wp_bind
  proof (rule wp_mono [OF sample_targets_wakes [OF own]], elim conjE, rule wp_mono [OF Cons.IH [OF tail]], elim conjE, intro conjI)
    fix r q and t u :: "'a sys"
    assume t: "sy_Trace t = sy_Trace s"
      "\<forall>key. key \<notin> target_key pod ` set ts \<longrightarrow> fmlookup (sto_data (sy_Samples t)) key = fmlookup (sto_data (sy_Samples s)) key"
      "snd r \<longleftrightarrow> enq \<or> (\<exists>x \<in> set ts. window_covered byKey now (sy_Samples t) pod x)"
      and u: "sy_Trace u = sy_Trace t"
      "\<forall>key. key \<notin> set (concat (map (pod_keys cfg) pods)) \<longrightarrow> fmlookup (sto_data (sy_Samples u)) key = fmlookup (sto_data (sy_Samples t)) key"
      "snd q \<longleftrightarrow> snd r \<or> (\<exists>pod \<in> set pods. \<exists>x \<in> set (fst (SelectTargets pod cfg)). window_covered byKey now (sy_Samples u) pod x)"
    show "sy_Trace u = sy_Trace s" using t(1) u(1) by simp
    show "\<forall>key. key \<notin> set (concat (map (pod_keys cfg) (pod # pods))) \<longrightarrow>
        fmlookup (sto_data (sy_Samples u)) key = fmlookup (sto_data (sy_Samples s)) key"
      using t(2) u(2) by (auto simp: keys)
    have "window_covered byKey now (sy_Samples u) pod x = window_covered byKey now (sy_Samples t) pod x" if "x \<in> set ts" for x
      using u(2) apart [OF that] by (intro window_covered_cong) blast
    then show "snd q \<longleftrightarrow> enq \<or> (\<exists>p \<in> set (pod # pods). \<exists>x \<in> set (fst (SelectTargets p cfg)). window_covered byKey now (sy_Samples u) p x)"
      using t(3) u(3) sel by auto
  qed
qed simp

text \<open>The pods the API server answers for the workload of a policy, none when a lookup fails.\<close>

definition policy_pods :: "'w sampler \<Rightarrow> policy \<Rightarrow> 'w sys \<Rightarrow> pod list" where
  "policy_pods S p s =
     (case run_state (GetWorkload (sm_API S) (wr_Kind (sp_WorkloadRef (p_Spec p))) (p_Namespace p) (wr_Name (sp_WorkloadRef (p_Spec p)))) s of
        (Inl e, _) \<Rightarrow> []
      | (Inr wl, s1) \<Rightarrow> (case fst (run_state (listWorkloadPods (sm_Lib S) (sm_API S) wl) s1) of Inl e \<Rightarrow> [] | Inr pods \<Rightarrow> pods))"

definition is_enqueue :: "effect \<Rightarrow> bool" where
  "is_enqueue e \<longleftrightarrow> (\<exists>ns n. e = EEnqueue ns n)"

text \<open>
  C26: the sampler wakes the reconciler for a covered window. When a tick comes to a policy whose watched containers
  are all different, it sends one event for it, with its name, exactly when one of these containers has a reading in
  this tick and the store, with that reading, covers the detection window in force for it; otherwise, when a lookup
  fails, or without an event channel, it sends none.
\<close>

theorem covered_window_wakes:
  assumes "distinct (concat (map (pod_keys (ResolvePolicy (sm_Defaults S) (p_Spec p))) (policy_pods S p s)))"
  shows "wp (sample_policy S byKey now p k) (\<lambda>_ t. \<exists>es. sy_Trace t = es @ sy_Trace s
    \<and> filter is_enqueue es = (if sm_Events S \<and> (\<exists>pod \<in> set (policy_pods S p s).
            \<exists>x \<in> set (fst (SelectTargets pod (ResolvePolicy (sm_Defaults S) (p_Spec p)))). window_covered byKey now (sy_Samples t) pod x)
          then [EEnqueue (p_Namespace p) (p_Name p)] else [])) s"
proof -
  let ?cfg = "ResolvePolicy (sm_Defaults S) (p_Spec p)" and ?pods = "policy_pods S p s"
  let ?get = "GetWorkload (sm_API S) (wr_Kind (sp_WorkloadRef (p_Spec p))) (p_Namespace p) (wr_Name (sp_WorkloadRef (p_Spec p)))"
  obtain w s1 where w: "run_state ?get s = (w, s1)" by fastforce
  have s1: "sy_Trace s1 = sy_Trace s" using keeps_run [OF keeps_GetWorkload(3) w] .
  show ?thesis
  proof (cases w)
    case (Inl e)
    then have "?pods = []" using w by (simp add: policy_pods_def)
    then show ?thesis
      using Inl s1 by (auto simp: sample_policy_def Let_def wp_bind_run [OF w] is_enqueue_def simp del: wp_bind)
         (auto simp: is_enqueue_def)
  next
    case (Inr wl)
    obtain ps s2 where ps: "run_state (listWorkloadPods (sm_Lib S) (sm_API S) wl) s1 = (ps, s2)" by fastforce
    have s2: "sy_Trace s2 = sy_Trace s" using keeps_run [OF keeps_listWorkloadPods(3) ps] s1 by simp
    show ?thesis
    proof (cases ps)
      case (Inl e)
      then have "?pods = []" using w ps \<open>w = Inr wl\<close> by (simp add: policy_pods_def)
      then show ?thesis
        using Inl \<open>w = Inr wl\<close> s2
        by (simp add: sample_policy_def Let_def wp_bind_run [OF w] wp_bind_run [OF ps] del: wp_bind) (simp add: is_enqueue_def)
    next
      case (Inr pods)
      then have pods: "?pods = pods" using w ps \<open>w = Inr wl\<close> by (simp add: policy_pods_def)
      show ?thesis
        using Inr \<open>w = Inr wl\<close> s2 assms
        by (simp add: sample_policy_def Let_def wp_bind_run [OF w] wp_bind_run [OF ps] pods wp_bind [of "sample_pods _ _ _ _ _ _ _"] del: wp_bind)
          (rule wp_mono [OF sample_pods_wakes], auto simp: is_enqueue_def)
    qed
  qed
qed

text \<open>A second reading, fifteen nanoseconds after the first, covers the window of ten.\<close>

definition wake_policy :: policy where
  "wake_policy = \<lparr>p_Namespace = ''prod'', p_Name = ''web-policy'', p_ResourceVersion = ''1'', p_DeletionTimestamp = None,
     p_Finalizers = [], p_Spec = \<lparr>sp_WorkloadRef = \<lparr>wr_Kind = KindDeployment, wr_Name = ''web''\<rparr>,
       sp_Detection = \<lparr>ds_Mode = '''', ds_ThresholdPercent = 0, ds_ThresholdAbsolute = None, ds_Window = None, ds_TrendMinGrowth = None\<rparr>,
       sp_Cooldown = None, sp_StartupGrace = None, sp_RestartWindow = None, sp_MaxRestartsPerWindow = None,
       sp_DryRun = None, sp_Containers = [], sp_ContainerOverrides = [], sp_ProfileCapture = None,
       sp_PprofPath = '''', sp_MaintenanceWindows = [], sp_NotifyRoutes = [], sp_SlackChannel = ''''\<rparr>,
     p_Status = empty_status\<rparr>"

definition wake_key :: key where
  "wake_key = \<lparr>k_Namespace = ''prod'', k_Pod = ''web-1'', k_Container = ''app''\<rparr>"

definition wake_sys :: "cluster sys" where
  "wake_sys = demo_sys ((demo_cluster (demo_deployment None) [])\<lparr>cl_Pods := [demo_pod]\<rparr>) (NewGate 1)
     (Observe (NewStore 100 3) wake_key \<lparr>s_Time = 5, s_WorkingSet = 7, s_Limit = 100\<rparr> 2)"

definition wake_usage :: "(key, int) fmap" where
  "wake_usage = fmap_of_list [(wake_key, 8)]"

definition woken_sys :: "cluster sys" where
  "woken_sys = snd (run_state (sample_policy demo_sampler wake_usage 20 wake_policy
     \<lparr>tk_live = {||}, tk_ignored = [], tk_monitored = [], tk_policies = []\<rparr>) wake_sys)"

lemma covered_window_wakes_witness: "filter is_enqueue (sy_Trace woken_sys) = [EEnqueue ''prod'' ''web-policy'']"
proof -
  let ?cfg = "ResolvePolicy (sm_Defaults demo_sampler) (p_Spec wake_policy)"
  let ?k = "\<lparr>tk_live = {||}, tk_ignored = [], tk_monitored = [], tk_policies = []\<rparr>"
  have pods: "policy_pods demo_sampler wake_policy wake_sys = [demo_pod]"
    by (simp add: policy_pods_def wake_policy_def GetWorkload_def call_def demo_sampler_def demo_api_def wake_sys_def demo_sys_def
        demo_cluster_def as_found_def demo_deployment_def bare_workload_def listWorkloadPods_def PodSelector_def demo_lib_def demo_pod_def kind_defs)
  have "map tg_Name (fst (SelectTargets demo_pod ?cfg)) = [''app'']" "map (\<lambda>x. d_Window (tg_Det x)) (fst (SelectTargets demo_pod ?cfg)) = [10]"
    by code_simp+
  then obtain x where x: "fst (SelectTargets demo_pod ?cfg) = [x]" "tg_Name x = ''app''" "d_Window (tg_Det x) = 10" by auto
  have key: "target_key demo_pod x = wake_key" using x(2) by (simp add: target_key_def demo_pod_def wake_key_def)
  have "StoreWindowCovered (sy_Samples woken_sys) wake_key 10 20" by code_simp
  then have covered: "window_covered wake_usage 20 (sy_Samples woken_sys) demo_pod x"
    by (simp add: window_covered_def key x(3) wake_usage_def)
  obtain r where run: "run_state (sample_policy demo_sampler wake_usage 20 wake_policy ?k) wake_sys = (r, woken_sys)"
    unfolding woken_sys_def by (metis prod.collapse)
  have names: "sm_Events demo_sampler" "p_Namespace wake_policy = ''prod''" "p_Name wake_policy = ''web-policy''"
    by (simp_all add: demo_sampler_def wake_policy_def)
  have "distinct (concat (map (pod_keys ?cfg) (policy_pods demo_sampler wake_policy wake_sys)))"
    by (simp add: pods pod_keys_def x(1))
  from wp_run [OF covered_window_wakes [OF this] run] obtain es where es: "sy_Trace woken_sys = es @ sy_Trace wake_sys"
    "filter is_enqueue es = [EEnqueue ''prod'' ''web-policy'']"
    using covered by (auto simp: pods x(1) names)
  have "sy_Trace wake_sys = []" by (simp add: wake_sys_def demo_sys_def)
  with es show ?thesis by simp
qed


end
