(* ===== verification/NotifyRender.thy ===== *)
theory NotifyRender
  imports Demo Config
begin

text \<open>
  The notification event of \<open>internal/notify/notify.go\<close> and how it is rendered: title and body, the
  webhook and Datadog payloads of \<open>sinks.go\<close>, the Slack blocks of \<open>slack_blocks.go\<close> and the chart of
  \<open>chart.go\<close>. Strings are bytes; the dashes and dots outside ASCII are their UTF-8 bytes. Payloads are
  JSON values in the order the code writes their keys.
\<close>

section \<open>Events\<close>

definition EventRestartTriggered :: string where "EventRestartTriggered = ''RestartTriggered''"
definition EventCircuitBreakerTripped :: string where "EventCircuitBreakerTripped = ''CircuitBreakerTripped''"
definition EventRestartDeferred :: string where "EventRestartDeferred = ''RestartDeferred''"

lemmas event_defs = EventRestartTriggered_def EventCircuitBreakerTripped_def EventRestartDeferred_def

record sample_point =
  sp_Time :: time
  sp_Bytes :: int

record event =
  ev_Type :: string
  ev_Kind :: string
  ev_Workload :: string
  ev_Namespace :: string
  ev_Container :: string
  ev_Mode :: string
  ev_Observed :: int
  ev_Threshold :: int
  ev_Window :: duration
  ev_Reason :: string
  ev_DryRun :: bool
  ev_Time :: time
  ev_Samples :: "sample_point list"
  ev_ClusterName :: string
  ev_Routes :: "string list"
  ev_SlackChannel :: string

definition toSamplePoints :: "sample list \<Rightarrow> sample_point list" where
  "toSamplePoints ss = map (\<lambda>s. \<lparr>sp_Time = s_Time s, sp_Bytes = s_WorkingSet s\<rparr>) ss"

definition em_dash :: string where "em_dash = [CHR 0xE2, CHR 0x80, CHR 0x94]"
definition mid_dot :: string where "mid_dot = [CHR 0xC2, CHR 0xB7]"

definition Event_Title :: "event \<Rightarrow> string" where
  "Event_Title e =
     (let prefix = (if ev_DryRun e then ''[dry-run] would restart: '' else '''');
          s = prefix @ ev_Type e @ '' '' @ ev_Namespace e @ ''/'' @ ev_Workload e @ '' ('' @ ev_Kind e @ '')''
      in if ev_ClusterName e \<noteq> '''' then s @ '' ['' @ ev_ClusterName e @ '']'' else s)"

definition Event_Body :: "event \<Rightarrow> string" where
  "Event_Body e = ''container='' @ ev_Container e @ '' mode='' @ ev_Mode e @ '' observed='' @ itoa (ev_Observed e)
     @ '' threshold='' @ itoa (ev_Threshold e) @ '' reason='' @ quote (ev_Reason e)"

section \<open>Sizes and windows\<close>

function humanize_loop :: "int \<Rightarrow> int \<Rightarrow> nat \<Rightarrow> int \<times> nat" where
  "humanize_loop x div' exp' =
     (if x \<ge> 1024 then humanize_loop (go_div x 1024) (i64 (div' * 1024)) (Suc exp') else (div', exp'))"
  by pat_completeness auto
termination by (relation "measure (\<lambda>(x, d, e). nat x)") auto

declare humanize_loop.simps [simp del]

definition humanizeBytes :: "int \<Rightarrow> string" where
  "humanizeBytes n =
     (if n < 1024 then itoa n @ ''B''
      else case humanize_loop (go_div n 1024) 1024 0 of (d, e) \<Rightarrow>
        TrimSuffix (format_f1 (rnd64 (f64_of_int n / f64_of_int d))) ''.0'' @ [''KMGTPE'' ! e] @ ''i'')"

definition thresholdText :: "int \<Rightarrow> string" where
  "thresholdText t = (if t \<le> 0 then em_dash else humanizeBytes t)"

definition windowText :: "duration \<Rightarrow> string" where
  "windowText d = (if d \<le> 0 then em_dash else dur_String d)"

definition orDash :: "string \<Rightarrow> string" where
  "orDash s = (if s = '''' then em_dash else s)"

section \<open>Webhook and Datadog payloads\<close>

definition webhookPayloadFor :: "event \<Rightarrow> json" where
  "webhookPayloadFor e = JObj
     ([(''type'', JStr (ev_Type e)), (''workloadKind'', JStr (ev_Kind e)), (''workload'', JStr (ev_Workload e)),
       (''namespace'', JStr (ev_Namespace e)), (''container'', JStr (ev_Container e)), (''mode'', JStr (ev_Mode e)),
       (''observedBytes'', JInt (ev_Observed e)), (''thresholdBytes'', JInt (ev_Threshold e)),
       (''observed'', JStr (humanizeBytes (ev_Observed e))), (''threshold'', JStr (thresholdText (ev_Threshold e))),
       (''window'', JStr (if ev_Window e > 0 then dur_String (ev_Window e) else '''')),
       (''reason'', JStr (ev_Reason e)), (''dryRun'', JBool (ev_DryRun e)),
       (''time'', JStr (if \<not> time_IsZero (ev_Time e) then format_RFC3339_UTC (ev_Time e) else ''''))]
      @ (if ev_ClusterName e \<noteq> '''' then [(''clusterName'', JStr (ev_ClusterName e))] else []))"

definition datadogEventPayloadFor :: "event \<Rightarrow> json" where
  "datadogEventPayloadFor e =
     (let alertType = (if ev_Type e = EventCircuitBreakerTripped then ''error'' else ''warning'');
          tags = [''kube_namespace:'' @ ev_Namespace e, ''workload:'' @ ev_Workload e, ''kind:'' @ ev_Kind e,
                  ''kube_container_name:'' @ ev_Container e, ''source:memory-leak-reloader'']
                 @ (if ev_Kind e = ''Deployment'' then [''kube_deployment:'' @ ev_Workload e]
                    else if ev_Kind e = ''StatefulSet'' then [''kube_stateful_set:'' @ ev_Workload e]
                    else [])
                 @ (if ev_ClusterName e \<noteq> '''' then [''kube_cluster_name:'' @ ev_ClusterName e] else [])
      in JObj [(''title'', JStr (Event_Title e)), (''text'', JStr (Event_Body e)),
               (''alert_type'', JStr alertType), (''tags'', JArr (map JStr tags))])"

section \<open>Slack\<close>

definition slackHeader :: "event \<Rightarrow> string \<times> string" where
  "slackHeader e =
     (if ev_Type e = EventRestartTriggered then
        (if ev_DryRun e then ('':mag:'', ''Would restart'') else ('':recycle:'', ''Restart triggered''))
      else if ev_Type e = EventCircuitBreakerTripped then ('':no_entry:'', ''Circuit breaker tripped'')
      else if ev_Type e = EventRestartDeferred then ('':hourglass_flowing_sand:'', ''Restart deferred'')
      else ('':bell:'', ev_Type e))"

definition slackSummary :: "event \<Rightarrow> string" where
  "slackSummary e =
     (let head = (if ev_ClusterName e \<noteq> ''''
                  then ''*'' @ ev_Workload e @ ''* in *'' @ ev_Namespace e @ ''* on *'' @ ev_ClusterName e
                       @ ''*  '' @ mid_dot @ ''  '' @ ev_Kind e
                  else ''*'' @ ev_Workload e @ ''* in *'' @ ev_Namespace e @ ''*  '' @ mid_dot @ ''  '' @ ev_Kind e);
          line = (if ev_Type e = EventRestartDeferred then ''container *'' @ ev_Container e
                    @ ''* is leaking; restart deferred to the next maintenance window''
                  else if ev_Type e = EventCircuitBreakerTripped then ''container *'' @ ev_Container e
                    @ ''* keeps leaking; max restarts per window reached''
                  else ''container *'' @ ev_Container e @ ''* crossed its memory threshold'')
      in head @ [CHR 0x0A] @ line)"

definition slackContext :: "event \<Rightarrow> string" where
  "slackContext e = Join (''  '' @ mid_dot @ ''  '')
     ((if ev_Reason e \<noteq> '''' then [ev_Reason e] else []) @ [''memory-leak-reloader'']
      @ (if \<not> time_IsZero (ev_Time e) then [format_RFC3339_UTC (ev_Time e)] else []))"

definition mrkdwnField :: "string \<Rightarrow> string \<Rightarrow> json" where
  "mrkdwnField label value = JObj [(''type'', JStr ''mrkdwn''),
     (''text'', JStr (''*'' @ label @ ''*'' @ [CHR 0x0A] @ value))]"

definition chartMaxWidth :: nat where "chartMaxWidth = 60"

text \<open>\<open>asciigraph.Plot\<close> is the library function \<open>l_Plot\<close>, given the data, the width if one is set, and the caption.\<close>

definition renderChart :: "lib \<Rightarrow> sample_point list \<Rightarrow> int \<Rightarrow> string" where
  "renderChart L points threshold =
     (if length points < 2 then ''''
      else let data = map (\<lambda>p. f64_of_int (sp_Bytes p)) points;
               span = dur_Round (time_Sub (sp_Time (points ! (length points - 1))) (sp_Time (points ! 0))) Second
           in l_Plot L data (if length points > chartMaxWidth then Some chartMaxWidth else None)
                (''working set over '' @ dur_String span @ '' '' @ mid_dot @ '' threshold '' @ thresholdText threshold))"

definition buildSlackBlocks :: "lib \<Rightarrow> event \<Rightarrow> json list \<times> string" where
  "buildSlackBlocks L e =
     (case slackHeader e of (emoji, verb) \<Rightarrow>
      let blocks =
        [JObj [(''type'', JStr ''header''),
               (''text'', JObj [(''type'', JStr ''plain_text''), (''text'', JStr (emoji @ '' '' @ verb)), (''emoji'', JBool True)])],
         JObj [(''type'', JStr ''section''),
               (''text'', JObj [(''type'', JStr ''mrkdwn''), (''text'', JStr (slackSummary e))])],
         JObj [(''type'', JStr ''section''),
               (''fields'', JArr [mrkdwnField ''Observed'' (humanizeBytes (ev_Observed e)),
                                  mrkdwnField ''Threshold'' (thresholdText (ev_Threshold e)),
                                  mrkdwnField ''Mode'' (orDash (ev_Mode e)),
                                  mrkdwnField ''Window'' (windowText (ev_Window e))])]];
          chart = renderChart L (ev_Samples e) (ev_Threshold e);
          chart_block = (if chart \<noteq> '''' then
            [JObj [(''type'', JStr ''section''),
                   (''text'', JObj [(''type'', JStr ''mrkdwn''),
                                    (''text'', JStr (''```'' @ [CHR 0x0A] @ chart @ [CHR 0x0A] @ ''```''))])]] else []);
          tail = [JObj [(''type'', JStr ''context''),
                        (''elements'', JArr [JObj [(''type'', JStr ''mrkdwn''), (''text'', JStr (slackContext e))]])],
                  JObj [(''type'', JStr ''divider'')]]
      in (blocks @ chart_block @ tail, Event_Title e @ '' '' @ em_dash @ '' '' @ Event_Body e))"

section \<open>Lemmas\<close>

lemma humanize_loop_spec:
  assumes "0 \<le> x" "x < 1024 * 1024 ^ k" and "d = 1024 ^ Suc e" and "e + k \<le> 5"
  shows "\<exists>j. humanize_loop x d e = (1024 ^ Suc (e + j), e + j) \<and> j \<le> k \<and> x div 1024 ^ j < 1024
    \<and> (0 < j \<longrightarrow> 1024 ^ j \<le> x)"
  using assms
proof (induction k arbitrary: x d e)
  case 0
  then show ?case by (intro exI [of _ 0]) (simp add: humanize_loop.simps [of x "1024 * 1024 ^ e" e])
next
  case (Suc k)
  show ?case
  proof (cases "x \<ge> 1024")
    case False
    then show ?thesis using Suc.prems
      by (intro exI [of _ 0]) (simp add: humanize_loop.simps [of x "1024 * 1024 ^ e" e])
  next
    case True
    have le: "(1024 :: int) ^ 6 < 2 ^ 63" "- (2 ^ 63) \<le> (0 :: int)" by simp_all
    have "(1024 :: int) ^ Suc (Suc e) \<le> 1024 ^ 6" using Suc.prems(4) by (intro power_increasing) simp_all
    moreover have "(0 :: int) \<le> 1024 ^ Suc (Suc e)" by simp
    ultimately have "in_i64 (1024 ^ Suc (Suc e))"
      unfolding in_i64_def using le by linarith
    then have d: "i64 (d * 1024) = 1024 ^ Suc (Suc e)"
      using Suc.prems(3) by (simp add: mult.commute mult.left_commute)
    have l: "humanize_loop x d e = humanize_loop (x div 1024) (1024 ^ Suc (Suc e)) (Suc e)"
      using True by (simp add: humanize_loop.simps [of x d e] d)
    have "x div 1024 < 1024 * 1024 ^ k" using Suc.prems(2) by (simp add: div_less_iff_less_mult mult_ac)
    moreover have "0 \<le> x div 1024" using Suc.prems(1) by simp
    ultimately obtain j where j: "humanize_loop (x div 1024) (1024 ^ Suc (Suc e)) (Suc e) = (1024 ^ Suc (Suc e + j), Suc e + j)"
      "j \<le> k" "x div 1024 div 1024 ^ j < 1024" "0 < j \<longrightarrow> 1024 ^ j \<le> x div 1024"
      using Suc.IH [of "x div 1024" "1024 ^ Suc (Suc e)" "Suc e"] Suc.prems(4) by auto
    have "1024 ^ Suc j \<le> x"
    proof (cases j)
      case (Suc i)
      with j(4) have "1024 ^ j * 1024 \<le> x div 1024 * 1024" by simp
      also have "\<dots> \<le> x" by simp
      finally show ?thesis by (simp add: mult.commute)
    qed (use True in simp)
    then show ?thesis using l j by (intro exI [of _ "Suc j"]) (simp add: zdiv_zmult2_eq [symmetric] mult.commute)
  qed
qed

section \<open>Properties\<close>

text \<open>
  C40: the unit of a rendered size. A size of at least 1024 bytes is divided by the largest power of 1024
  not above it, so the quotient lies between 1 and 1024, and the letter for that power always exists: the
  index into the unit letters stays below six for every int64, and no product wraps.
\<close>

theorem humanize_unit:
  assumes "1024 \<le> n" and "n < 2 ^ 63"
  shows "\<exists>e \<le> 5. 1024 ^ Suc e \<le> n \<and> n < 1024 ^ Suc (Suc e)
    \<and> humanizeBytes n = TrimSuffix (format_f1 (rnd64 (f64_of_int n / f64_of_int (1024 ^ Suc e)))) ''.0''
        @ [''KMGTPE'' ! e] @ ''i''"
proof -
  have "n div 1024 < 1024 * 1024 ^ 5" using assms(2) by simp
  moreover have "0 \<le> n div 1024" using assms(1) by simp
  ultimately obtain j where j: "humanize_loop (n div 1024) 1024 0 = (1024 ^ Suc j, j)" "j \<le> 5"
    "n div 1024 div 1024 ^ j < 1024" "0 < j \<longrightarrow> 1024 ^ j \<le> n div 1024"
    using humanize_loop_spec [of "n div 1024" 5 1024 0] by auto
  have "1024 ^ j \<le> n div 1024" using j(4) assms(1) by (cases j) simp_all
  then have "1024 ^ j * 1024 \<le> n div 1024 * 1024" by simp
  also have "\<dots> \<le> n" by simp
  finally have lo: "1024 ^ Suc j \<le> n" by (simp add: mult.commute)
  have q: "n div 1024 ^ Suc j < 1024" using j(3) by (simp add: zdiv_zmult2_eq [symmetric])
  have pos: "(0 :: int) < 1024 ^ Suc j" by simp
  have "n < 1024 * 1024 ^ Suc j"
  proof (rule ccontr)
    assume "\<not> n < 1024 * 1024 ^ Suc j"
    then have "(1024 * 1024 ^ Suc j) div 1024 ^ Suc j \<le> n div 1024 ^ Suc j"
      using pos by (intro zdiv_mono1) simp_all
    then show False using q by simp
  qed
  then have hi: "n < 1024 ^ Suc (Suc j)" by (simp only: power_Suc)
  show ?thesis
    using assms lo hi j(1,2) by (intro exI [of _ j]) (simp add: humanizeBytes_def)
qed

lemma humanize_unit_witness: "humanizeBytes 943718400 = ''900Mi'' \<and> humanizeBytes (2 ^ 63 - 1) = ''8Ei''"
proof -
  have "humanizeBytes 943718400 = ''900Mi'' \<and> humanizeBytes (2 ^ 63 - 1) = ''8Ei''" by code_simp
  moreover have "\<exists>e \<le> 5. (1024 :: int) ^ Suc e \<le> 943718400" using humanize_unit [of 943718400] by auto
  ultimately show ?thesis by blast
qed

end
