(* ===== verification/Notifier.thy ===== *)
theory Notifier
  imports NotifyRender
begin

text \<open>
  Delivery of notifications: the sinks of \<open>internal/notify/sinks.go\<close> and the notifier of \<open>notify.go\<close>. The
  HTTP client is the platform's \<open>a_Do\<close>, whose error stands for a request that cannot be built as well as
  for one that fails; the time-out of a delivery is inside it.
\<close>

section \<open>Sinks\<close>

datatype sink =
    SlackSink string
  | WebhookSink string string
  | SlackBotSink string string
  | DatadogEventSink string string

fun sink_Name :: "sink \<Rightarrow> string" where
  "sink_Name (SlackSink u) = ''slack''"
| "sink_Name (WebhookSink u a) = ''webhook''"
| "sink_Name (SlackBotSink t c) = ''slack''"
| "sink_Name (DatadogEventSink s k) = ''datadog''"

fun is_SlackBot :: "sink \<Rightarrow> bool" where
  "is_SlackBot (SlackBotSink t c) = True"
| "is_SlackBot s = False"

definition doPostJSON :: "'w api \<Rightarrow> string \<Rightarrow> json \<Rightarrow> (string \<times> string) list \<Rightarrow> ('w, http_response result) op" where
  "doPostJSON A url body headers =
     http_do A \<lparr>hq_Method = ''POST'', hq_URL = url,
       hq_Headers = (''Content-Type'', ''application/json'') # headers, hq_Body = Some body\<rparr>"

definition postJSON :: "'w api \<Rightarrow> string \<Rightarrow> json \<Rightarrow> (string \<times> string) list \<Rightarrow> ('w, unit result) op" where
  "postJSON A url body headers = do {
     r \<leftarrow> doPostJSON A url body headers;
     ret (case r of
            Inl e \<Rightarrow> Inl e
          | Inr resp \<Rightarrow>
              if hr_StatusCode resp \<ge> 300
              then Inl (ErrMsg (''POST '' @ url @ '' returned HTTP '' @ itoa (hr_StatusCode resp)))
              else Inr ()) }"

text \<open>
  Decoding \<open>{ok bool, error string}\<close>: keys match without regard to case, the last one wins, absent and
  null fields keep their zero value, and a field of another type is an error.
\<close>

definition json_field :: "(string \<times> json) list \<Rightarrow> string \<Rightarrow> json" where
  "json_field kvs k = (case find (\<lambda>kv. ToLower (fst kv) = k) (rev kvs) of None \<Rightarrow> JNull | Some kv \<Rightarrow> snd kv)"

definition decode_slack :: "json \<Rightarrow> (bool \<times> string) result" where
  "decode_slack j = (case j of
      JNull \<Rightarrow> Inr (False, '''')
    | JObj kvs \<Rightarrow>
        (case (json_field kvs ''ok'', json_field kvs ''error'') of
           (JNull, JNull) \<Rightarrow> Inr (False, '''')
         | (JBool b, JNull) \<Rightarrow> Inr (b, '''')
         | (JNull, JStr s) \<Rightarrow> Inr (False, s)
         | (JBool b, JStr s) \<Rightarrow> Inr (b, s)
         | _ \<Rightarrow> Inl (ErrMsg ''json: cannot unmarshal''))
    | _ \<Rightarrow> Inl (ErrMsg ''json: cannot unmarshal''))"

definition slackBotPost :: "'w api \<Rightarrow> string \<Rightarrow> json \<Rightarrow> ('w, unit result) op" where
  "slackBotPost A token body = do {
     r \<leftarrow> doPostJSON A ''https://slack.com/api/chat.postMessage'' body [(''Authorization'', ''Bearer '' @ token)];
     ret (case r of
            Inl e \<Rightarrow> Inl e
          | Inr resp \<Rightarrow>
              if hr_StatusCode resp \<ge> 300
              then Inl (ErrMsg (''slack chat.postMessage returned HTTP '' @ itoa (hr_StatusCode resp)))
              else (case hr_Json resp of
                  Inl e \<Rightarrow> Inl (ErrWrap ''decode slack response'' e)
                | Inr j \<Rightarrow> (case decode_slack j of
                      Inl e \<Rightarrow> Inl (ErrWrap ''decode slack response'' e)
                    | Inr (ok, msg) \<Rightarrow>
                        if \<not> ok then Inl (ErrMsg (''slack chat.postMessage error: '' @ msg)) else Inr ()))) }"

text \<open>The \<open>Send\<close> of each sink, and the dispatch of the interface.\<close>

definition slack_Send :: "lib \<Rightarrow> 'w api \<Rightarrow> string \<Rightarrow> event \<Rightarrow> ('w, unit result) op" where
  "slack_Send L A webhookURL e =
     (case buildSlackBlocks L e of (blocks, fallback) \<Rightarrow>
        postJSON A webhookURL (JObj [(''text'', JStr fallback), (''blocks'', JArr blocks)]) [])"

definition webhook_Send :: "'w api \<Rightarrow> string \<Rightarrow> string \<Rightarrow> event \<Rightarrow> ('w, unit result) op" where
  "webhook_Send A url authHeader e =
     postJSON A url (webhookPayloadFor e)
       (if authHeader \<noteq> '''' then [(''Authorization'', authHeader)] else [])"

definition slackBot_Send :: "lib \<Rightarrow> 'w api \<Rightarrow> string \<Rightarrow> string \<Rightarrow> event \<Rightarrow> ('w, unit result) op" where
  "slackBot_Send L A token defaultChannel e =
     (let channel = (if ev_SlackChannel e = '''' then defaultChannel else ev_SlackChannel e)
      in if channel = ''''
         then ret (Inl (ErrMsg ''slack bot sink: no channel (set memreload.io/slack-channel or a default channel)''))
         else case buildSlackBlocks L e of (blocks, fallback) \<Rightarrow>
           slackBotPost A token (JObj [(''channel'', JStr channel), (''text'', JStr fallback), (''blocks'', JArr blocks)]))"

definition datadog_Send :: "'w api \<Rightarrow> string \<Rightarrow> string \<Rightarrow> event \<Rightarrow> ('w, unit result) op" where
  "datadog_Send A site0 apiKey e =
     (let site = (if site0 = '''' then ''datadoghq.com'' else site0)
      in postJSON A (''https://api.'' @ site @ ''/api/v1/events'') (datadogEventPayloadFor e)
           [(''DD-API-KEY'', apiKey)])"

fun sink_Send :: "lib \<Rightarrow> 'w api \<Rightarrow> sink \<Rightarrow> event \<Rightarrow> ('w, unit result) op" where
  "sink_Send L A (SlackSink webhookURL) e = slack_Send L A webhookURL e"
| "sink_Send L A (WebhookSink url authHeader) e = webhook_Send A url authHeader e"
| "sink_Send L A (SlackBotSink token defaultChannel) e = slackBot_Send L A token defaultChannel e"
| "sink_Send L A (DatadogEventSink site apiKey) e = datadog_Send A site apiKey e"

lemmas send_defs = slack_Send_def webhook_Send_def slackBot_Send_def datadog_Send_def
  postJSON_def slackBotPost_def doPostJSON_def

section \<open>The notifier\<close>

record notifier =
  nt_defaultSinks :: "sink list"
  nt_routes :: "(string, sink) fmap"
  nt_hasSlackBot :: bool
  nt_enabled :: "string fset"
  nt_timeout :: duration

definition NewNotifier :: "sink list \<Rightarrow> (string, sink) fmap \<Rightarrow> string list \<Rightarrow> duration \<Rightarrow> notifier" where
  "NewNotifier defaultSinks routes events timeout0 =
     (let timeout = (if timeout0 = 0 then 5 * Second else timeout0);
          hasBot = fold (\<lambda>s b. if is_SlackBot s then True else b) defaultSinks False
      in \<lparr>nt_defaultSinks = defaultSinks, nt_routes = routes, nt_hasSlackBot = hasBot,
          nt_enabled = fset_of_list events, nt_timeout = timeout\<rparr>)"

definition KnownRoute :: "notifier option \<Rightarrow> string \<Rightarrow> bool" where
  "KnownRoute n name = (case n of None \<Rightarrow> False | Some n \<Rightarrow> fmlookup (nt_routes n) name \<noteq> None)"

definition resolveTargets :: "notifier \<Rightarrow> event \<Rightarrow> sink list" where
  "resolveTargets n e =
     (if length (ev_Routes e) > 0 then List.map_filter (fmlookup (nt_routes n)) (ev_Routes e)
      else if ev_SlackChannel e \<noteq> '''' \<and> nt_hasSlackBot n then
        (case find is_SlackBot (nt_defaultSinks n) of Some s \<Rightarrow> [s] | None \<Rightarrow> nt_defaultSinks n)
      else nt_defaultSinks n)"

fun notify_loop :: "lib \<Rightarrow> 'w api \<Rightarrow> event \<Rightarrow> sink list \<Rightarrow> ('w, unit) op" where
  "notify_loop L A e [] = ret ()"
| "notify_loop L A e (s # ss) = do {
     err \<leftarrow> sink_Send L A s e;
     emit (ECounter ''memreload_notifications_total''
       [ev_Namespace e, ev_Kind e, ev_Workload e, sink_Name s, if is_ok err then ''success'' else ''error'']);
     notify_loop L A e ss }"

definition Notify :: "lib \<Rightarrow> 'w api \<Rightarrow> notifier option \<Rightarrow> event \<Rightarrow> ('w, unit) op" where
  "Notify L A n e = (case n of
      None \<Rightarrow> ret ()
    | Some n \<Rightarrow> if ev_Type e |\<notin>| nt_enabled n then ret () else notify_loop L A e (resolveTargets n e))"

section \<open>Lemmas\<close>

lemma keeps_http_do [keeping]: "keeps sy_Gate (http_do A q)" "keeps sy_Samples (http_do A q)"
  unfolding http_do_def by (intro keeping)+

lemma keeps_sink_Send [keeping]: "keeps sy_Gate (sink_Send L A s e)" "keeps sy_Samples (sink_Send L A s e)"
  by (cases s; auto simp: send_defs intro!: keeping)+

lemma keeps_Notify [keeping]: "keeps sy_Gate (Notify L A n e)" "keeps sy_Samples (Notify L A n e)"
proof -
  have "keeps sy_Gate (notify_loop L A e ss)" "keeps sy_Samples (notify_loop L A e ss)" for ss
    by (induction ss) (auto intro!: keeping)
  then show "keeps sy_Gate (Notify L A n e)" "keeps sy_Samples (Notify L A n e)"
    unfolding Notify_def by (auto intro!: keeping split: option.split)
qed

text \<open>What a delivery leaves in the trace: requests, and the counter of its result.\<close>

definition notify_effect :: "effect \<Rightarrow> bool" where
  "notify_effect e \<longleftrightarrow> (case e of EHTTP q \<Rightarrow> True | ECounter m ls \<Rightarrow> m = ''memreload_notifications_total'' | _ \<Rightarrow> False)"

lemma adds_http_do [adding]: "(\<And>q. P (EHTTP q)) \<Longrightarrow> adds P (http_do A q)"
  unfolding http_do_def by (intro adding) auto

lemma adds_sink_Send [adding]: "(\<And>q. P (EHTTP q)) \<Longrightarrow> adds P (sink_Send L A s e)"
  by (cases s) (auto simp: send_defs intro!: adding)

lemma adds_Notify [adding]: "adds notify_effect (Notify L A n e)"
proof -
  have "adds notify_effect (notify_loop L A e ss)" for ss
    by (induction ss) (auto intro!: adding simp: notify_effect_def)
  then show ?thesis unfolding Notify_def by (auto intro!: adding split: option.split)
qed

section \<open>Properties\<close>

lemma hasSlackBot_iff: "nt_hasSlackBot (NewNotifier ds rs evs to) \<longleftrightarrow> (\<exists>s \<in> set ds. is_SlackBot s)"
proof -
  have "fold (\<lambda>s b. if is_SlackBot s then True else b) ds b \<longleftrightarrow> b \<or> (\<exists>s \<in> set ds. is_SlackBot s)" for b
    by (induction ds arbitrary: b) auto
  then show ?thesis by (simp add: NewNotifier_def Let_def)
qed

lemma find_bot: "(\<exists>s \<in> set ds. is_SlackBot s) \<Longrightarrow> \<exists>s. find is_SlackBot ds = Some s \<and> is_SlackBot s \<and> s \<in> set ds"
  by (induction ds) auto

text \<open>
  Targets replace, with fallback. Of a notifier as built, an event that names routes goes to the sinks
  registered under those names, in the order named, and to no default sink; one that names none but has a
  channel goes, if a bot sink is among the defaults, to exactly one sink, a bot; every other event goes to
  the defaults.
\<close>

theorem targets_replace_with_fallback:
  "let n = NewNotifier ds rs evs to; targets = resolveTargets n e
   in (if ev_Routes e \<noteq> [] then targets = List.map_filter (fmlookup rs) (ev_Routes e)
       else if ev_SlackChannel e \<noteq> '''' \<and> list_ex is_SlackBot ds
            then list_ex (\<lambda>s. is_SlackBot s \<and> targets = [s]) ds
       else targets = ds)"
proof -
  have sel: "nt_defaultSinks (NewNotifier ds rs evs to) = ds" "nt_routes (NewNotifier ds rs evs to) = rs"
    by (simp_all add: NewNotifier_def Let_def)
  show ?thesis
    unfolding Let_def resolveTargets_def sel hasSlackBot_iff list_ex_iff [symmetric]
    using find_bot [of ds] by (cases "find is_SlackBot ds") (auto simp: list_ex_iff)
qed

text \<open>The sinks of the delivery counters in a stretch of trace, oldest first.\<close>

definition deliveries :: "effect list \<Rightarrow> string list" where
  "deliveries es = List.map_filter (\<lambda>e. case e of
      ECounter m ls \<Rightarrow> if m = ''memreload_notifications_total'' then Some (ls ! 3) else None
    | _ \<Rightarrow> None) (rev es)"

lemma map_filter_append: "List.map_filter f (xs @ ys) = List.map_filter f xs @ List.map_filter f ys"
  by (induction xs) (auto simp: map_filter_simps split: option.split)

lemma deliveries_append: "deliveries (es @ fs) = deliveries fs @ deliveries es"
  by (simp add: deliveries_def map_filter_append)

lemma deliveries_http: "list_all (\<lambda>e. \<exists>q. e = EHTTP q) es \<Longrightarrow> deliveries es = []"
proof (induction es)
  case (Cons e es)
  then show ?case using deliveries_append [of "[e]" es]
    by (auto simp: deliveries_def map_filter_simps)
qed (simp add: deliveries_def map_filter_simps)

lemma notify_loop_counts:
  "wp (notify_loop L A e ss) (\<lambda>_ t. \<exists>es. sy_Trace t = es @ sy_Trace s \<and> deliveries es = map sink_Name ss) s"
proof (induction ss arbitrary: s)
  case Nil
  show ?case by (simp add: deliveries_def map_filter_simps)
next
  case (Cons k ss)
  obtain r u where r: "run_state (sink_Send L A k e) s = (r, u)" by fastforce
  have "adds (\<lambda>e. \<exists>q. e = EHTTP q) (sink_Send L A k e)" by (rule adds_sink_Send) simp
  from adds_run [OF this r] obtain es where es: "sy_Trace u = es @ sy_Trace s" "deliveries es = []"
    using deliveries_http by blast
  let ?c = "ECounter ''memreload_notifications_total'' [ev_Namespace e, ev_Kind e, ev_Workload e, sink_Name k,
       if is_ok r then ''success'' else ''error'']"
  have c: "deliveries [?c] = [sink_Name k]" by (simp add: deliveries_def map_filter_simps)
  have "wp (notify_loop L A e ss) (\<lambda>_ t. \<exists>es. sy_Trace t = es @ sy_Trace s \<and> deliveries es = map sink_Name (k # ss))
      (u\<lparr>sy_Trace := ?c # sy_Trace u\<rparr>)"
  proof (rule wp_mono [OF Cons.IH])
    fix a t
    assume "\<exists>fs. sy_Trace t = fs @ sy_Trace (u\<lparr>sy_Trace := ?c # sy_Trace u\<rparr>) \<and> deliveries fs = map sink_Name ss"
    then obtain fs where fs: "sy_Trace t = fs @ ?c # es @ sy_Trace s" "deliveries fs = map sink_Name ss"
      by (auto simp: es)
    have "deliveries (fs @ [?c] @ es) = map sink_Name (k # ss)"
      by (simp only: deliveries_append es(2) fs(2) c) simp
    then show "\<exists>es. sy_Trace t = es @ sy_Trace s \<and> deliveries es = map sink_Name (k # ss)"
      using fs(1) by (intro exI [of _ "fs @ [?c] @ es"]) simp
  qed
  then show ?case by (simp add: wp_def r emit_def)
qed

text \<open>
  C38: notification is best effort and fully accounted for. Whatever the sinks answer, \<open>Notify\<close> returns,
  counts one delivery per target sink in order (none for a disabled event type), and leaves the slots and
  the samples as they were.
\<close>

theorem notify_accounts_every_target:
  "wp (Notify L A (Some n) e) (\<lambda>_ t. \<exists>es. sy_Trace t = es @ sy_Trace s
     \<and> deliveries es = (if ev_Type e |\<in>| nt_enabled n then map sink_Name (resolveTargets n e) else [])
     \<and> sy_Gate t = sy_Gate s \<and> sy_Samples t = sy_Samples s) s"
proof -
  have "wp (Notify L A (Some n) e) (\<lambda>_ t. \<exists>es. sy_Trace t = es @ sy_Trace s
     \<and> deliveries es = (if ev_Type e |\<in>| nt_enabled n then map sink_Name (resolveTargets n e) else [])) s"
    using notify_loop_counts [of L A e "resolveTargets n e" s]
    by (simp add: Notify_def) (simp add: deliveries_def map_filter_simps)
  from wp_conj [OF this wp_conj [OF keepsD [OF keeps_Notify(1)] keepsD [OF keeps_Notify(2)]]]
  show ?thesis by (rule wp_mono) blast
qed

end
