(* ===== verification/Datasource.thy ===== *)
theory Datasource
  imports Sampler Notifier GoFloat
begin

text \<open>
  \<open>internal/datasource\<close>: the three sources of usage behind \<open>datasource.Source\<close>. The metrics client, the
  building of a URL with its query and the parsing of a decimal float are parameters; the decoding of the
  JSON bodies into the structs of the code is written out. A response that does not fit its struct is an error.
\<close>

section \<open>Parameters\<close>

text \<open>A parsed float: finite, or one of the infinities and NaN, whose \<open>int64\<close> Go leaves to the implementation.\<close>

datatype go_float = Finite rat | NotFinite string

record net_lib =
  nl_Query :: "string \<Rightarrow> (string \<times> string) list \<Rightarrow> string result"
  nl_ParseFloat :: "string \<Rightarrow> go_float result"
  nl_IntOf :: "go_float \<Rightarrow> int"

definition int64_of :: "net_lib \<Rightarrow> go_float \<Rightarrow> int" where
  "int64_of N f = (case f of
      Finite q \<Rightarrow> if in_i64 (f64_trunc q) then f64_trunc q else nl_IntOf N f
    | NotFinite s \<Rightarrow> nl_IntOf N f)"

section \<open>Decoding\<close>

definition type_error :: err where "type_error = ErrMsg ''json: cannot unmarshal''"

definition dec_str :: "json \<Rightarrow> string result" where
  "dec_str j = (case j of JNull \<Rightarrow> Inr '''' | JStr s \<Rightarrow> Inr s | _ \<Rightarrow> Inl type_error)"

text \<open>A JSON number as a \<open>float64\<close>; one beyond its range is an error, null leaves the zero.\<close>

definition dec_float :: "json \<Rightarrow> rat result" where
  "dec_float j =
     (let num = (\<lambda>q. if \<bar>q\<bar> < 2 ^ 1024 - 2 ^ 970 then Inr (rnd64 q) else Inl type_error)
      in case j of JNull \<Rightarrow> Inr 0 | JInt n \<Rightarrow> num (of_int n) | JNum q \<Rightarrow> num q | _ \<Rightarrow> Inl type_error)"

fun dec_all :: "(json \<Rightarrow> 'a result) \<Rightarrow> json list \<Rightarrow> 'a list result" where
  "dec_all f [] = Inr []"
| "dec_all f (j # js) = (case f j of
      Inl e \<Rightarrow> Inl e
    | Inr x \<Rightarrow> (case dec_all f js of Inl e \<Rightarrow> Inl e | Inr xs \<Rightarrow> Inr (x # xs)))"

definition dec_list :: "(json \<Rightarrow> 'a result) \<Rightarrow> json \<Rightarrow> 'a list result" where
  "dec_list f j = (case j of JNull \<Rightarrow> Inr [] | JArr js \<Rightarrow> dec_all f js | _ \<Rightarrow> Inl type_error)"

text \<open>An object as the association list of its members, null as the empty one.\<close>

definition dec_object :: "json \<Rightarrow> (string \<times> json) list result" where
  "dec_object j = (case j of JNull \<Rightarrow> Inr [] | JObj kvs \<Rightarrow> Inr kvs | _ \<Rightarrow> Inl type_error)"

definition dec_str_map :: "json \<Rightarrow> (string, string) fmap result" where
  "dec_str_map j = (case dec_object j of
      Inl e \<Rightarrow> Inl e
    | Inr kvs \<Rightarrow> (case dec_all (\<lambda>kv. dec_str kv) (map snd kvs) of
          Inl e \<Rightarrow> Inl e
        | Inr vs \<Rightarrow> Inr (fmap_of_list (rev (zip (map fst kvs) vs)))))"

definition andThen :: "'a result \<Rightarrow> ('a \<Rightarrow> 'b result) \<Rightarrow> 'b result" where
  "andThen r f = (case r of Inl e \<Rightarrow> Inl e | Inr x \<Rightarrow> f x)"

section \<open>The shared GET\<close>

definition getJSON ::
  "'w api \<Rightarrow> string \<Rightarrow> (string \<times> string) list \<Rightarrow> (json \<Rightarrow> 'a result) \<Rightarrow> ('w, 'a result) op" where
  "getJSON A url headers decode = do {
     r \<leftarrow> http_do A \<lparr>hq_Method = ''GET'', hq_URL = url, hq_Headers = headers, hq_Body = None\<rparr>;
     ret (case r of
        Inl e \<Rightarrow> Inl e
      | Inr resp \<Rightarrow>
          if hr_StatusCode resp \<noteq> 200
          then Inl (ErrMsg (''GET '' @ url @ '' returned HTTP '' @ itoa (hr_StatusCode resp)))
          else (case andThen (hr_Json resp) decode of
              Inl e \<Rightarrow> Inl (ErrWrap ''decode response'' e)
            | Inr x \<Rightarrow> Inr x)) }"

text \<open>\<open>namespaceSet\<close>, and its use: \<open>None\<close> is the nil map, which wants everything.\<close>

definition namespaceSet :: "string list \<Rightarrow> string fset option" where
  "namespaceSet nss = (if length nss = 0 then None else Some (fset_of_list nss))"

definition wanted :: "string fset option \<Rightarrow> string \<Rightarrow> bool" where
  "wanted w ns = (case w of None \<Rightarrow> True | Some s \<Rightarrow> ns |\<in>| s)"

section \<open>Metrics server\<close>

record pod_metrics =
  pm_Namespace :: string
  pm_Name :: string
  pm_Containers :: "(string \<times> quantity) list"

text \<open>\<open>PodMetricses(ns).List(opts)\<close>, with its limit, zero for none.\<close>

type_synonym 'w metrics_client = "string \<Rightarrow> int \<Rightarrow> 'w \<Rightarrow> pod_metrics list result \<times> 'w"

definition ms_Probe :: "'w metrics_client \<Rightarrow> string list \<Rightarrow> ('w, unit result) op" where
  "ms_Probe mc namespaces = do {
     r \<leftarrow> call (mc (if length namespaces > 0 then namespaces ! 0 else '''') 1);
     ret (case r of
        Inl e \<Rightarrow> Inl (ErrWrap ''metrics-server probe failed (is metrics-server installed and RBAC granted on metrics.k8s.io?)'' e)
      | Inr _ \<Rightarrow> Inr ()) }"

definition pod_usage :: "pod_metrics \<Rightarrow> usage list" where
  "pod_usage pm = map (\<lambda>(c, mem). \<lparr>u_Namespace = pm_Namespace pm, u_Pod = pm_Name pm, u_Container = c,
     u_WorkingSet = q_Value mem\<rparr>) (pm_Containers pm)"

fun ms_list_loop :: "'w metrics_client \<Rightarrow> string list \<Rightarrow> usage list \<Rightarrow> ('w, usage list result) op" where
  "ms_list_loop mc [] out = ret (Inr out)"
| "ms_list_loop mc (ns # nss) out = do {
     r \<leftarrow> call (mc ns 0);
     case r of
       Inl e \<Rightarrow> ret (Inl (ErrWrap (''list pod metrics in '' @ quote ns) e))
     | Inr items \<Rightarrow> ms_list_loop mc nss (out @ concat (map pod_usage items)) }"

definition ms_ListUsage :: "'w metrics_client \<Rightarrow> string list \<Rightarrow> ('w, usage list result) op" where
  "ms_ListUsage mc namespaces = ms_list_loop mc (if length namespaces = 0 then [''''] else namespaces) []"

section \<open>Prometheus\<close>

record prom_options =
  po_URL :: string
  po_Query :: string
  po_BearerToken :: string

record prom_result =
  pq_Metric :: "(string, string) fmap"
  pq_Value1 :: "json option"

record prom_response =
  pr_Status :: string
  pr_Result :: "prom_result list"
  pr_Error :: string

text \<open>The second entry of the fixed array of raw values: missing when the array is shorter.\<close>

definition dec_prom_result :: "json \<Rightarrow> prom_result result" where
  "dec_prom_result j = andThen (dec_object j) (\<lambda>kvs.
     andThen (dec_str_map (json_field kvs ''metric'')) (\<lambda>metric.
     andThen (dec_list Inr (json_field kvs ''value'')) (\<lambda>vals.
       Inr \<lparr>pq_Metric = metric, pq_Value1 = (if length vals > 1 then Some (vals ! 1) else None)\<rparr>)))"

definition dec_prom :: "json \<Rightarrow> prom_response result" where
  "dec_prom j = andThen (dec_object j) (\<lambda>kvs.
     andThen (dec_str (json_field kvs ''status'')) (\<lambda>status.
     andThen (dec_object (json_field kvs ''data'')) (\<lambda>d.
     andThen (dec_str (json_field d ''resulttype'')) (\<lambda>_.
     andThen (dec_list dec_prom_result (json_field d ''result'')) (\<lambda>rs.
     andThen (dec_str (json_field kvs ''error'')) (\<lambda>err.
       Inr \<lparr>pr_Status = status, pr_Result = rs, pr_Error = err\<rparr>))))))"

definition newPrometheusSource :: "prom_options \<Rightarrow> prom_options result" where
  "newPrometheusSource opts =
     (if TrimSpace (po_URL opts) = '''' then Inl (ErrMsg ''prometheus source requires a URL'')
      else Inr (if TrimSpace (po_Query opts) = '''' then opts\<lparr>po_Query := ''container_memory_working_set_bytes''\<rparr> else opts))"

definition prom_query :: "net_lib \<Rightarrow> 'w api \<Rightarrow> prom_options \<Rightarrow> ('w, prom_response result) op" where
  "prom_query N A opts =
     (case nl_Query N (TrimRight (po_URL opts) (CHR ''/'') @ ''/api/v1/query'') [(''query'', po_Query opts)] of
        Inl e \<Rightarrow> ret (Inl e)
      | Inr url \<Rightarrow> do {
          r \<leftarrow> getJSON A url
                 (if po_BearerToken opts \<noteq> '''' then [(''Authorization'', ''Bearer '' @ po_BearerToken opts)] else []) dec_prom;
          ret (case r of
             Inl e \<Rightarrow> Inl e
           | Inr pr \<Rightarrow> if pr_Status pr \<noteq> ''success'' then Inl (ErrMsg (''prometheus query error: '' @ pr_Error pr))
                       else Inr pr) })"

definition prom_Probe :: "net_lib \<Rightarrow> 'w api \<Rightarrow> prom_options \<Rightarrow> ('w, unit result) op" where
  "prom_Probe N A opts = do {
     r \<leftarrow> prom_query N A opts;
     ret (case r of Inl e \<Rightarrow> Inl (ErrWrap (''prometheus probe failed for '' @ quote (po_URL opts)) e) | Inr _ \<Rightarrow> Inr ()) }"

text \<open>A missing raw value does not parse; null leaves the empty string, which is no float.\<close>

definition promSampleValue :: "net_lib \<Rightarrow> json option \<Rightarrow> int result" where
  "promSampleValue N raw = (case raw of
      None \<Rightarrow> Inl (ErrMsg ''unexpected end of JSON input'')
    | Some j \<Rightarrow> andThen (dec_str j) (\<lambda>s. andThen (nl_ParseFloat N s) (\<lambda>f. Inr (int64_of N f))))"

definition prom_usage :: "net_lib \<Rightarrow> string fset option \<Rightarrow> prom_result \<Rightarrow> usage option" where
  "prom_usage N want r =
     (let ns = map_get (pq_Metric r) ''namespace''; pod = map_get (pq_Metric r) ''pod'';
          container = map_get (pq_Metric r) ''container''
      in if container = '''' \<or> container = ''POD'' \<or> pod = '''' then None
         else if \<not> wanted want ns then None
         else (case promSampleValue N (pq_Value1 r) of
             Inl e \<Rightarrow> None
           | Inr val \<Rightarrow> Some \<lparr>u_Namespace = ns, u_Pod = pod, u_Container = container, u_WorkingSet = val\<rparr>))"

definition prom_ListUsage :: "net_lib \<Rightarrow> 'w api \<Rightarrow> prom_options \<Rightarrow> string list \<Rightarrow> ('w, usage list result) op" where
  "prom_ListUsage N A opts namespaces = do {
     r \<leftarrow> prom_query N A opts;
     ret (case r of Inl e \<Rightarrow> Inl e
          | Inr pr \<Rightarrow> Inr (List.map_filter (prom_usage N (namespaceSet namespaces)) (pr_Result pr))) }"

section \<open>Datadog\<close>

record dd_options =
  do_Site :: string
  do_APIKey :: string
  do_AppKey :: string
  do_Metric :: string

record dd_series =
  dr_TagSet :: "string list"
  dr_PointList :: "rat list list"

record dd_response =
  dd_Status :: string
  dd_Error :: string
  dd_Series :: "dd_series list"

text \<open>The source: its options with the defaults filled in, and its query.\<close>

definition newDatadogSource :: "dd_options \<Rightarrow> (dd_options \<times> string) result" where
  "newDatadogSource opts =
     (if TrimSpace (do_APIKey opts) = '''' \<or> TrimSpace (do_AppKey opts) = ''''
      then Inl (ErrMsg ''datadog source requires DD_API_KEY and DD_APP_KEY'')
      else let o1 = (if TrimSpace (do_Site opts) = '''' then opts\<lparr>do_Site := ''datadoghq.com''\<rparr> else opts);
               o2 = (if TrimSpace (do_Metric o1) = '''' then o1\<lparr>do_Metric := ''kubernetes.memory.working_set''\<rparr> else o1)
           in Inr (o2, ''avg:'' @ do_Metric o2 @ ''{*} by {kube_namespace,pod_name,kube_container_name}''))"

definition dec_dd_series :: "json \<Rightarrow> dd_series result" where
  "dec_dd_series j = andThen (dec_object j) (\<lambda>kvs.
     andThen (dec_list dec_str (json_field kvs ''tag_set'')) (\<lambda>tags.
     andThen (dec_list (dec_list dec_float) (json_field kvs ''pointlist'')) (\<lambda>points.
       Inr \<lparr>dr_TagSet = tags, dr_PointList = points\<rparr>)))"

definition dec_dd :: "json \<Rightarrow> dd_response result" where
  "dec_dd j = andThen (dec_object j) (\<lambda>kvs.
     andThen (dec_str (json_field kvs ''status'')) (\<lambda>status.
     andThen (dec_str (json_field kvs ''error'')) (\<lambda>err.
     andThen (dec_list dec_dd_series (json_field kvs ''series'')) (\<lambda>ss.
       Inr \<lparr>dd_Status = status, dd_Error = err, dd_Series = ss\<rparr>))))"

definition dd_queryRange :: "net_lib \<Rightarrow> 'w api \<Rightarrow> dd_options \<times> string \<Rightarrow> ('w, dd_response result) op" where
  "dd_queryRange N A src = do {
     now \<leftarrow> call (a_Now A);
     case nl_Query N (''https://api.'' @ do_Site (fst src) @ ''/api/v1/query'')
            [(''from'', itoa (unix_sec (time_Add now (- (5 * Minute))))), (''to'', itoa (unix_sec now)), (''query'', snd src)] of
       Inl e \<Rightarrow> ret (Inl e)
     | Inr url \<Rightarrow> do {
         r \<leftarrow> getJSON A url [(''DD-API-KEY'', do_APIKey (fst src)), (''DD-APPLICATION-KEY'', do_AppKey (fst src))] dec_dd;
         ret (case r of
            Inl e \<Rightarrow> Inl e
          | Inr dr \<Rightarrow> if dd_Status dr \<noteq> ''ok'' \<and> dd_Error dr \<noteq> ''''
                      then Inl (ErrMsg (''datadog query error: '' @ dd_Error dr)) else Inr dr) } }"

definition dd_Probe :: "net_lib \<Rightarrow> 'w api \<Rightarrow> dd_options \<times> string \<Rightarrow> ('w, unit result) op" where
  "dd_Probe N A src = do {
     r \<leftarrow> dd_queryRange N A src;
     ret (case r of Inl e \<Rightarrow> Inl (ErrWrap (''datadog probe failed for site '' @ quote (do_Site (fst src))) e)
          | Inr _ \<Rightarrow> Inr ()) }"

fun tags_loop :: "string list \<Rightarrow> string \<times> string \<times> string \<Rightarrow> string \<times> string \<times> string" where
  "tags_loop [] acc = acc"
| "tags_loop (t # ts) (ns, pod, container) =
     (case Cut (CHR '':'') t of (k, v, ok) \<Rightarrow>
        if \<not> ok then tags_loop ts (ns, pod, container)
        else if k = ''kube_namespace'' then tags_loop ts (v, pod, container)
        else if k = ''pod_name'' then tags_loop ts (ns, v, container)
        else if k = ''kube_container_name'' then tags_loop ts (ns, pod, v)
        else tags_loop ts (ns, pod, container))"

definition tagsFromSet :: "string list \<Rightarrow> string \<times> string \<times> string" where
  "tagsFromSet tags = tags_loop tags ('''', '''', '''')"

text \<open>\<open>lastPoint\<close>: the loop runs from the last point to the first.\<close>

fun point_loop :: "rat list list \<Rightarrow> rat option" where
  "point_loop [] = None"
| "point_loop (p # ps) = (if length p = 2 then Some (p ! 1) else point_loop ps)"

definition lastPoint :: "rat list list \<Rightarrow> rat option" where
  "lastPoint points = point_loop (rev points)"

definition dd_usage :: "net_lib \<Rightarrow> string fset option \<Rightarrow> dd_series \<Rightarrow> usage option" where
  "dd_usage N want ser =
     (case tagsFromSet (dr_TagSet ser) of (ns, pod, container) \<Rightarrow>
        if container = '''' \<or> pod = '''' then None
        else if \<not> wanted want ns then None
        else (case lastPoint (dr_PointList ser) of
            None \<Rightarrow> None
          | Some val \<Rightarrow> Some \<lparr>u_Namespace = ns, u_Pod = pod, u_Container = container,
                              u_WorkingSet = int64_of N (Finite val)\<rparr>))"

definition dd_ListUsage :: "net_lib \<Rightarrow> 'w api \<Rightarrow> dd_options \<times> string \<Rightarrow> string list \<Rightarrow> ('w, usage list result) op" where
  "dd_ListUsage N A src namespaces = do {
     r \<leftarrow> dd_queryRange N A src;
     ret (case r of Inl e \<Rightarrow> Inl e
          | Inr dr \<Rightarrow> Inr (List.map_filter (dd_usage N (namespaceSet namespaces)) (dd_Series dr))) }"

section \<open>Choosing the source\<close>

definition TypeMetricsServer :: string where "TypeMetricsServer = ''metrics-server''"
definition TypePrometheus :: string where "TypePrometheus = ''prometheus''"
definition TypeDatadog :: string where "TypeDatadog = ''datadog''"

record ds_options =
  so_Type :: string
  so_Namespaces :: "string list"
  so_Prometheus :: prom_options
  so_Datadog :: dd_options

definition NewSource :: "net_lib \<Rightarrow> 'w api \<Rightarrow> ds_options \<Rightarrow> 'w metrics_client option \<Rightarrow> 'w source result" where
  "NewSource N A opts metricsClient =
     (if so_Type opts = TypeMetricsServer \<or> so_Type opts = '''' then
        (case metricsClient of
           None \<Rightarrow> Inl (ErrMsg ''metrics-server source requires a metrics client'')
         | Some mc \<Rightarrow> Inr \<lparr>src_Name = TypeMetricsServer, src_Probe = ms_Probe mc (so_Namespaces opts),
                          src_ListUsage = ms_ListUsage mc\<rparr>)
      else if so_Type opts = TypePrometheus then
        (case newPrometheusSource (so_Prometheus opts) of
           Inl e \<Rightarrow> Inl e
         | Inr po \<Rightarrow> Inr \<lparr>src_Name = TypePrometheus, src_Probe = prom_Probe N A po, src_ListUsage = prom_ListUsage N A po\<rparr>)
      else if so_Type opts = TypeDatadog then
        (case newDatadogSource (so_Datadog opts) of
           Inl e \<Rightarrow> Inl e
         | Inr dd \<Rightarrow> Inr \<lparr>src_Name = TypeDatadog, src_Probe = dd_Probe N A dd, src_ListUsage = dd_ListUsage N A dd\<rparr>)
      else Inl (ErrMsg (''unknown datasource type '' @ quote (so_Type opts))))"

section \<open>The source contract\<close>

text \<open>
  What the sampler and the controller ask of a source: it leaves the slots and the samples alone and leaves
  only requests in the trace.
\<close>

locale usage_source =
  fixes src :: "'w source"
  assumes usage_samples: "keeps sy_Samples (src_ListUsage src ns)"
    and usage_gate: "keeps sy_Gate (src_ListUsage src ns)"
    and usage_trace: "adds (\<lambda>e. \<exists>q. e = EHTTP q \<and> hq_Method q = ''GET'') (src_ListUsage src ns)"
begin

lemma usage_writes_nothing: "(\<And>q. P (EHTTP q)) \<Longrightarrow> adds P (src_ListUsage src ns)"
  by (rule adds_mono [OF usage_trace]) auto

end

lemma getJSON_quiet [keeping, adding]:
  "keeps sy_Samples (getJSON A url hs dec)" "keeps sy_Gate (getJSON A url hs dec)"
  "adds (\<lambda>e. \<exists>q. e = EHTTP q \<and> hq_Method q = ''GET'') (getJSON A url hs dec)"
  unfolding getJSON_def http_do_def by (auto intro!: keeping adding)

lemma ms_ListUsage_quiet:
  "keeps sy_Samples (ms_ListUsage mc ns)" "keeps sy_Gate (ms_ListUsage mc ns)"
  "adds (\<lambda>e. \<exists>q. e = EHTTP q \<and> hq_Method q = ''GET'') (ms_ListUsage mc ns)"
proof -
  have "keeps sy_Samples (ms_list_loop mc nss out)" "keeps sy_Gate (ms_list_loop mc nss out)"
    "adds (\<lambda>e. \<exists>q. e = EHTTP q \<and> hq_Method q = ''GET'') (ms_list_loop mc nss out)" for nss out
    by (induction nss arbitrary: out) (auto intro!: keeping adding)
  then show "keeps sy_Samples (ms_ListUsage mc ns)" "keeps sy_Gate (ms_ListUsage mc ns)"
    "adds (\<lambda>e. \<exists>q. e = EHTTP q \<and> hq_Method q = ''GET'') (ms_ListUsage mc ns)"
    by (simp_all add: ms_ListUsage_def)
qed

lemma prom_ListUsage_quiet:
  "keeps sy_Samples (prom_ListUsage N A po ns)" "keeps sy_Gate (prom_ListUsage N A po ns)"
  "adds (\<lambda>e. \<exists>q. e = EHTTP q \<and> hq_Method q = ''GET'') (prom_ListUsage N A po ns)"
  unfolding prom_ListUsage_def prom_query_def by (auto intro!: keeping adding)

lemma dd_ListUsage_quiet:
  "keeps sy_Samples (dd_ListUsage N A dd ns)" "keeps sy_Gate (dd_ListUsage N A dd ns)"
  "adds (\<lambda>e. \<exists>q. e = EHTTP q \<and> hq_Method q = ''GET'') (dd_ListUsage N A dd ns)"
  unfolding dd_ListUsage_def dd_queryRange_def by (auto intro!: keeping adding)

interpretation metrics_server: usage_source
  "\<lparr>src_Name = TypeMetricsServer, src_Probe = ms_Probe mc nss, src_ListUsage = ms_ListUsage mc\<rparr>" for mc nss
  by unfold_locales (simp_all add: ms_ListUsage_quiet)

interpretation prometheus: usage_source
  "\<lparr>src_Name = TypePrometheus, src_Probe = prom_Probe N A po, src_ListUsage = prom_ListUsage N A po\<rparr>" for N A po
  by unfold_locales (simp_all add: prom_ListUsage_quiet)

interpretation datadog: usage_source
  "\<lparr>src_Name = TypeDatadog, src_Probe = dd_Probe N A dd, src_ListUsage = dd_ListUsage N A dd\<rparr>" for N A dd
  by unfold_locales (simp_all add: dd_ListUsage_quiet)

lemma NewSource_usage_source: "NewSource N A opts mc = Inr src \<Longrightarrow> usage_source src"
  by (auto simp: NewSource_def metrics_server.usage_source_axioms prometheus.usage_source_axioms
      datadog.usage_source_axioms split: if_splits option.splits sum.splits)

section \<open>Properties\<close>

lemma set_map_filter_Some: "u \<in> set (List.map_filter f xs) \<longleftrightarrow> (\<exists>x \<in> set xs. f x = Some u)"
  by (induction xs) (auto simp: map_filter_simps split: option.split)

lemma wanted_iff: "wanted (namespaceSet nss) ns \<longleftrightarrow> nss = [] \<or> ns \<in> set nss"
  by (auto simp: wanted_def namespaceSet_def fset_of_list_elem)

definition in_scope :: "string list \<Rightarrow> usage \<Rightarrow> bool" where
  "in_scope nss u \<longleftrightarrow> (nss = [] \<or> u_Namespace u \<in> set nss) \<and> u_Pod u \<noteq> '''' \<and> u_Container u \<noteq> ''''"

lemma prom_usage_scope: "prom_usage N (namespaceSet nss) r = Some u \<Longrightarrow> in_scope nss u \<and> u_Container u \<noteq> ''POD''"
  by (auto simp: prom_usage_def Let_def wanted_iff in_scope_def split: if_splits sum.splits)

lemma dd_usage_scope: "dd_usage N (namespaceSet nss) r = Some u \<Longrightarrow> in_scope nss u"
  by (auto simp: dd_usage_def wanted_iff in_scope_def split: if_splits prod.splits option.splits)

text \<open>
  C36: usage stays in scope. Whatever Prometheus or Datadog answers, every reading the sampler is given lies in
  one of the namespaces asked for (any, when none is named), and names a pod and a container; the pause
  container \<open>POD\<close> of a Prometheus series is never reported.
\<close>

theorem usage_in_scope:
  "wp (prom_ListUsage N A po nss) (\<lambda>r t. case r of Inl e \<Rightarrow> True
      | Inr us \<Rightarrow> list_all (\<lambda>u. in_scope nss u \<and> u_Container u \<noteq> ''POD'') us) s
   \<and> wp (dd_ListUsage N A dd nss) (\<lambda>r t. case r of Inl e \<Rightarrow> True | Inr us \<Rightarrow> list_all (in_scope nss) us) s"
proof
  have p: "list_all (\<lambda>u. in_scope nss u \<and> u_Container u \<noteq> ''POD'') (List.map_filter (prom_usage N (namespaceSet nss)) rs)" for rs
    by (auto simp: list_all_iff set_map_filter_Some dest: prom_usage_scope)
  have d: "list_all (in_scope nss) (List.map_filter (dd_usage N (namespaceSet nss)) rs)" for rs
    by (auto simp: list_all_iff set_map_filter_Some dest: dd_usage_scope)
  show "wp (prom_ListUsage N A po nss) (\<lambda>r t. case r of Inl e \<Rightarrow> True
      | Inr us \<Rightarrow> list_all (\<lambda>u. in_scope nss u \<and> u_Container u \<noteq> ''POD'') us) s"
    unfolding prom_ListUsage_def wp_bind wp_return by (rule wp_runI) (simp add: p split: sum.split)
  show "wp (dd_ListUsage N A dd nss) (\<lambda>r t. case r of Inl e \<Rightarrow> True | Inr us \<Rightarrow> list_all (in_scope nss) us) s"
    unfolding dd_ListUsage_def wp_bind wp_return by (rule wp_runI) (simp add: d split: sum.split)
qed

text \<open>
  What the last point of a Datadog series is. It is the value of the last point that has two entries; a
  point whose value is null has two, and its value decodes to zero, so a gap at the end of a series is
  reported as zero bytes and not skipped.
\<close>

theorem datadog_gap_reads_zero:
  assumes "dec_list (dec_list dec_float) (JArr (js @ [JArr [JInt ts, v]])) = Inr points"
  shows "lastPoint points = (case v of JNull \<Rightarrow> Some 0 | JInt n \<Rightarrow> Some (f64_of_int n) | JNum q \<Rightarrow> Some (rnd64 q) | _ \<Rightarrow> None)"
proof -
  have app: "dec_all f (xs @ ys) = (case dec_all f xs of Inl e \<Rightarrow> Inl e
      | Inr a \<Rightarrow> (case dec_all f ys of Inl e \<Rightarrow> Inl e | Inr b \<Rightarrow> Inr (a @ b)))" for f :: "json \<Rightarrow> 'x result" and xs ys
    by (induction xs) (auto split: sum.split)
  obtain a b x y where "dec_float (JInt ts) = Inr x" "dec_float v = Inr y" "points = a @ [[x, y]]"
    using assms by (auto simp: dec_list_def app split: sum.splits)
  then show ?thesis
    by (cases v) (auto simp: lastPoint_def dec_float_def Let_def f64_of_int_def split: if_splits)
qed

lemma datadog_gap_reads_zero_witness:
  "\<exists>points. dec_list (dec_list dec_float) (JArr [JArr [JInt 1, JInt 100], JArr [JInt 2, JNull]]) = Inr points
     \<and> lastPoint points = Some 0"
proof -
  have "is_ok (dec_list (dec_list dec_float) (JArr [JArr [JInt 1, JInt 100], JArr [JInt 2, JNull]]))"
    by (simp add: dec_list_def dec_float_def Let_def)
  then obtain points where "dec_list (dec_list dec_float) (JArr [JArr [JInt 1, JInt 100], JArr [JInt 2, JNull]]) = Inr points"
    by (auto simp: is_ok_iff)
  with datadog_gap_reads_zero [of "[JArr [JInt 1, JInt 100]]" 2 JNull points] show ?thesis by simp
qed

end
