(* ===== verification/Routes.thy ===== *)
theory Routes
  imports Notifier
begin

text \<open>
  \<open>internal/notify/routes.go\<close>: the registry of named notification routes. Parsing a URL for its host name,
  reading the file and decoding its JSON are parameters.
\<close>

section \<open>The code\<close>

record route =
  rt_Name :: string
  rt_Type :: string
  rt_URL :: string
  rt_AuthHeader :: string

definition detectType :: "(string \<Rightarrow> string result) \<Rightarrow> string \<Rightarrow> string" where
  "detectType hostname rawURL =
     (case hostname rawURL of
        Inl e \<Rightarrow> ''webhook''
      | Inr h \<Rightarrow> if ToLower h = ''hooks.slack.com'' then ''slack-webhook'' else ''webhook'')"

fun routes_loop ::
  "(string \<Rightarrow> string result) \<Rightarrow> route list \<Rightarrow> (string, sink) fmap \<Rightarrow> (string, sink) fmap result" where
  "routes_loop hostname [] m = Inr m"
| "routes_loop hostname (r # rs) m =
     (if rt_Name r = '''' then Inl (ErrMsg ''route with empty name'')
      else if fmlookup m (rt_Name r) \<noteq> None then Inl (ErrMsg (''duplicate route name '' @ quote (rt_Name r)))
      else
        let typ0 = ToLower (TrimSpace (rt_Type r));
            typ = (if typ0 = '''' \<or> typ0 = ''auto'' then detectType hostname (rt_URL r) else typ0)
        in if typ = ''webhook'' then
             routes_loop hostname rs (fmupd (rt_Name r) (WebhookSink (rt_URL r) (rt_AuthHeader r)) m)
           else if typ = ''slack-webhook'' \<or> typ = ''slack'' then
             routes_loop hostname rs (fmupd (rt_Name r) (SlackSink (rt_URL r)) m)
           else Inl (ErrMsg (''route '' @ quote (rt_Name r) @ '': unknown type '' @ quote (rt_Type r)
                  @ '' (want webhook|slack-webhook|auto)'')))"

definition BuildRoutes :: "(string \<Rightarrow> string result) \<Rightarrow> route list \<Rightarrow> (string, sink) fmap result" where
  "BuildRoutes hostname routes = routes_loop hostname routes fmempty"

text \<open>\<open>file\<close> is what reading the path gives, \<open>ErrNotFound\<close> if there is none, and \<open>parse\<close> the decoding.\<close>

definition LoadRoutes ::
  "(string \<Rightarrow> string result) \<Rightarrow> (nat list \<Rightarrow> route list result) \<Rightarrow> string \<Rightarrow> nat list result \<Rightarrow> (string, sink) fmap result" where
  "LoadRoutes hostname parse path file =
     (case file of
        Inl e \<Rightarrow> if e = ErrNotFound then Inr fmempty else Inl e
      | Inr data \<Rightarrow>
          if length data = 0 then Inr fmempty
          else (case parse data of
              Inl e \<Rightarrow> Inl (ErrWrap (''parse routes file '' @ path) e)
            | Inr routes \<Rightarrow> BuildRoutes hostname routes))"

section \<open>What the registry should be\<close>

text \<open>The sink of one route, if its type is known.\<close>

definition route_sink :: "(string \<Rightarrow> string result) \<Rightarrow> route \<Rightarrow> sink option" where
  "route_sink hostname r =
     (let t = ToLower (TrimSpace (rt_Type r));
          slack = Some (SlackSink (rt_URL r)); web = Some (WebhookSink (rt_URL r) (rt_AuthHeader r))
      in if t \<in> {'''', ''auto''} then
           (if \<exists>h. hostname (rt_URL r) = Inr h \<and> ToLower h = ''hooks.slack.com'' then slack else web)
         else if t = ''webhook'' then web
         else if t \<in> {''slack-webhook'', ''slack''} then slack else None)"

definition routes_valid :: "(string \<Rightarrow> string result) \<Rightarrow> route list \<Rightarrow> bool" where
  "routes_valid hostname rs \<longleftrightarrow> distinct (map rt_Name rs) \<and> '''' \<notin> rt_Name ` set rs
     \<and> (\<forall>r \<in> set rs. route_sink hostname r \<noteq> None)"

definition registry :: "(string \<Rightarrow> string result) \<Rightarrow> route list \<Rightarrow> string \<Rightarrow> sink option" where
  "registry hostname rs n = Option.bind (map_of (map (\<lambda>r. (rt_Name r, r)) rs) n) (route_sink hostname)"

lemma routes_loop_step:
  "routes_loop h (r # rs) m =
     (if rt_Name r = '''' then Inl (ErrMsg ''route with empty name'')
      else if fmlookup m (rt_Name r) \<noteq> None then Inl (ErrMsg (''duplicate route name '' @ quote (rt_Name r)))
      else (case route_sink h r of
          Some s \<Rightarrow> routes_loop h rs (fmupd (rt_Name r) s m)
        | None \<Rightarrow> Inl (ErrMsg (''route '' @ quote (rt_Name r) @ '': unknown type '' @ quote (rt_Type r)
                  @ '' (want webhook|slack-webhook|auto)''))))"
  by (auto simp: route_sink_def detectType_def Let_def split: sum.split)

declare routes_loop.simps(2) [simp del]

lemma routes_loop_spec:
  "case routes_loop h rs m of
     Inl e \<Rightarrow> \<not> (routes_valid h rs \<and> (\<forall>r \<in> set rs. fmlookup m (rt_Name r) = None))
   | Inr m' \<Rightarrow> routes_valid h rs \<and> (\<forall>r \<in> set rs. fmlookup m (rt_Name r) = None)
       \<and> (\<forall>n. fmlookup m' n = (case registry h rs n of Some s \<Rightarrow> Some s | None \<Rightarrow> fmlookup m n))"
proof (induction rs arbitrary: m)
  case Nil
  then show ?case by (simp add: routes_valid_def registry_def)
next
  case (Cons r rs)
  show ?case
  proof (cases "route_sink h r")
    case None
    then show ?thesis by (auto simp: routes_loop_step routes_valid_def)
  next
    case (Some s)
    note IH = Cons.IH [of "fmupd (rt_Name r) s m"]
    show ?thesis
    proof (cases "routes_loop h rs (fmupd (rt_Name r) s m)")
      case (Inl e)
      then show ?thesis using IH by (auto simp: routes_loop_step Some routes_valid_def split: if_splits)
    next
      case (Inr m')
      have none: "\<forall>x \<in> set rs. rt_Name x \<noteq> rt_Name r \<and> fmlookup m (rt_Name x) = None"
        using IH Inr by (auto split: if_splits)
      then have reg: "registry h rs (rt_Name r) = None"
        by (auto simp: registry_def map_of_eq_None_iff bind_eq_None_conv dest!: map_of_SomeD)
      then show ?thesis using IH Inr none
        by (auto simp: routes_loop_step Some routes_valid_def registry_def split: option.split)
    qed
  qed
qed

section \<open>Properties\<close>

text \<open>
  The route registry. Building it succeeds exactly when the names are distinct and not empty and every
  type is known, and then it maps each name to the sink of its own route and nothing else: an explicit type
  decides, an empty or automatic one follows the host of the URL.
\<close>

theorem build_routes_registry:
  "(case BuildRoutes hostname rs of
      Inl e \<Rightarrow> \<not> routes_valid hostname rs
    | Inr m \<Rightarrow> routes_valid hostname rs \<and> fmlookup m = registry hostname rs)
   \<and> (case LoadRoutes hostname parse path (Inl ErrNotFound) of Inl e \<Rightarrow> False | Inr m \<Rightarrow> m = fmempty)"
proof -
  have "(case x of Some s \<Rightarrow> Some s | None \<Rightarrow> fmlookup fmempty n) = x" for x :: "sink option" and n :: string by (cases x) simp_all
  then show ?thesis
    using routes_loop_spec [of hostname rs fmempty]
    by (cases "BuildRoutes hostname rs") (simp_all add: BuildRoutes_def LoadRoutes_def fun_eq_iff)
qed


end
