(* ===== verification/Breaker.thy ===== *)
theory Breaker
  imports Workload
begin

text \<open>
  \<open>internal/restart/breaker.go\<close>: the circuit breaker, the cooldown, the restart history and the in-flight
  marker, all kept in the policy status. The status is passed by value; functions that mutate it through
  a pointer return it.
\<close>

section \<open>Operations\<close>

definition ConditionRolloutInProgress :: string where
  "ConditionRolloutInProgress = ''RolloutInProgress''"

record cause =
  ca_Container :: string
  ca_Observed :: int
  ca_Threshold :: int
  ca_Mode :: string

definition sameWindow :: "policy_status \<Rightarrow> string \<Rightarrow> time \<Rightarrow> duration \<Rightarrow> int \<times> time \<times> bool" where
  "sameWindow st curVersion now window =
     (case st_WindowStart st of
        None \<Rightarrow> (st_RestartCount st, zero_time, False)
      | Some start \<Rightarrow>
          if time_Sub now start \<ge> window then (st_RestartCount st, start, False)
          else if st_Version st \<noteq> '''' \<and> st_Version st \<noteq> curVersion then (st_RestartCount st, start, False)
          else (st_RestartCount st, start, True))"

definition BreakerTripped :: "policy_status \<Rightarrow> string \<Rightarrow> time \<Rightarrow> duration \<Rightarrow> int \<Rightarrow> bool" where
  "BreakerTripped st curVersion now window maxPerWindow =
     (if maxPerWindow \<le> 0 then False
      else case sameWindow st curVersion now window of (cnt, _, same) \<Rightarrow>
        if \<not> same then False else cnt \<ge> maxPerWindow)"

definition InCooldown :: "policy_status \<Rightarrow> time \<Rightarrow> duration \<Rightarrow> bool" where
  "InCooldown st now cooldown =
     (case st_LastRestartAt st of None \<Rightarrow> False | Some t \<Rightarrow> time_Sub now t < cooldown)"

definition setCondition :: "lib \<Rightarrow> policy_status \<Rightarrow> string \<Rightarrow> string \<Rightarrow> string \<Rightarrow> string \<Rightarrow> time \<Rightarrow> policy_status" where
  "setCondition L st condType status reason msg now =
     st\<lparr>st_Conditions := l_SetStatusCondition L (st_Conditions st)
          \<lparr>cond_Type = condType, cond_Status = status, cond_Reason = reason, cond_Message = msg,
           cond_LastTransitionTime = now\<rparr>\<rparr>"

text \<open>\<open>append\<close> and the slice of the newest records.\<close>

definition append_bounded :: "restart_record list \<Rightarrow> restart_record \<Rightarrow> restart_record list" where
  "append_bounded h r =
     (let h' = h @ [r]
      in if length h' > RestartHistoryLimit then drop (length h' - RestartHistoryLimit) h' else h')"

definition ApplyRestart :: "lib \<Rightarrow> policy_status \<Rightarrow> workload \<Rightarrow> cause \<Rightarrow> time \<Rightarrow> duration \<Rightarrow> policy_status" where
  "ApplyRestart L st0 w cause now window =
     (let ver = TemplateVersion L w
      in case sameWindow st0 ver now window of (cnt, start, same) \<Rightarrow>
     (let st1 = (if \<not> same then st0\<lparr>st_RestartCount := 1, st_WindowStart := Some now\<rparr>
                 else st0\<lparr>st_RestartCount := i64 (cnt + 1), st_WindowStart := Some start\<rparr>);
          st2 = st1\<lparr>st_LastRestartAt := Some now, st_Version := ver,
                    st_History := append_bounded (st_History st1)
                      \<lparr>rr_TriggeredAt = now, rr_CompletedAt = None, rr_Container = ca_Container cause,
                       rr_Observed = ca_Observed cause, rr_Threshold = ca_Threshold cause,
                       rr_DetectionMode = ca_Mode cause, rr_Version = ver, rr_Outcome = OutcomeInProgress\<rparr>,
                    st_InFlight := Some \<lparr>if_DispatchedAt = now, if_DispatchedVersion = ver,
                                         if_Phase = PhaseDispatched\<rparr>\<rparr>
      in setCondition L st2 ConditionRolloutInProgress ''True'' ''Dispatched''
           (''restart dispatched for container '' @ ca_Container cause) now))"

definition close_last :: "restart_record list \<Rightarrow> time \<Rightarrow> string \<Rightarrow> restart_record list" where
  "close_last h now outcome =
     (let n = length h
      in if n > 0
         then (let r = h ! (n - 1)
               in if rr_CompletedAt r = None
                  then h[n - 1 := r\<lparr>rr_CompletedAt := Some now, rr_Outcome := outcome\<rparr>] else h)
         else h)"

definition CompleteInFlight :: "lib \<Rightarrow> policy_status \<Rightarrow> time \<Rightarrow> string \<Rightarrow> policy_status" where
  "CompleteInFlight L st now outcome =
     setCondition L (st\<lparr>st_History := close_last (st_History st) now outcome, st_InFlight := None\<rparr>)
       ConditionRolloutInProgress ''False'' outcome (''rollout '' @ outcome) now"

definition RecomputeObservability ::
  "policy_status \<Rightarrow> time \<Rightarrow> duration \<Rightarrow> duration \<Rightarrow> int \<Rightarrow> policy_status" where
  "RecomputeObservability st now cooldown window maxPerWindow =
     (let (tripped, remaining) =
        (if maxPerWindow > 0 then
           (if (case st_WindowStart st of None \<Rightarrow> False | Some s \<Rightarrow> time_Sub now s < window)
            then (st_RestartCount st \<ge> maxPerWindow,
                  let d = i64 (maxPerWindow - st_RestartCount st) in if d > 0 then d else 0)
            else (False, maxPerWindow))
         else (False, 0));
          st1 = st\<lparr>st_BreakerTripped := tripped, st_RestartsRemaining := remaining\<rparr>
      in case st_LastRestartAt st of None \<Rightarrow> st1
         | Some t \<Rightarrow> st1\<lparr>st_NextEligibleRestart := Some (time_Add t cooldown)\<rparr>)"

definition AdoptWorkload :: "policy_status \<Rightarrow> string \<Rightarrow> policy_status" where
  "AdoptWorkload st uid =
     (let st1 = (if st_WorkloadUID st \<noteq> '''' \<and> st_WorkloadUID st \<noteq> uid
                 then st\<lparr>st_LastRestartAt := None, st_RestartCount := 0, st_WindowStart := None,
                         st_Version := '''', st_InFlight := None, st_History := []\<rparr>
                 else st)
      in st1\<lparr>st_WorkloadUID := uid\<rparr>)"

section \<open>Lemmas\<close>

lemma setCondition_fields [simp]:
  "st_History (setCondition L st c s r m n) = st_History st"
  "st_InFlight (setCondition L st c s r m n) = st_InFlight st"
  "st_RestartCount (setCondition L st c s r m n) = st_RestartCount st"
  "st_WindowStart (setCondition L st c s r m n) = st_WindowStart st"
  "st_LastRestartAt (setCondition L st c s r m n) = st_LastRestartAt st"
  "st_Version (setCondition L st c s r m n) = st_Version st"
  "st_WorkloadUID (setCondition L st c s r m n) = st_WorkloadUID st"
  "st_DryRun (setCondition L st c s r m n) = st_DryRun st"
  by (simp_all add: setCondition_def)

lemma append_bounded_props:
  "append_bounded h r \<noteq> []" "last (append_bounded h r) = r"
  "length (append_bounded h r) \<le> RestartHistoryLimit"
  by (auto simp: append_bounded_def Let_def RestartHistoryLimit_def last_drop)

lemma append_bounded_suffix:
  "\<exists>dropped. h @ [r] = dropped @ append_bounded h r
     \<and> length dropped = length h + 1 - RestartHistoryLimit"
  by (intro exI [of _ "take (length h + 1 - RestartHistoryLimit) (h @ [r])"])
     (auto simp: append_bounded_def Let_def RestartHistoryLimit_def)

lemma close_last_props:
  "length (close_last h now out) = length h"
  "h \<noteq> [] \<Longrightarrow> butlast (close_last h now out) = butlast h"
  "h \<noteq> [] \<Longrightarrow> rr_CompletedAt (last (close_last h now out)) \<noteq> None"
  "h \<noteq> [] \<Longrightarrow> rr_CompletedAt (last h) = None \<Longrightarrow>
     last (close_last h now out) = (last h)\<lparr>rr_CompletedAt := Some now, rr_Outcome := out\<rparr>"
  by (auto simp: close_last_def Let_def last_conv_nth butlast_list_update)

lemma ApplyRestart_fields:
  "st_LastRestartAt (ApplyRestart L st w c now win) = Some now"
  "st_Version (ApplyRestart L st w c now win) = TemplateVersion L w"
  "st_History (ApplyRestart L st w c now win) = append_bounded (st_History st)
     \<lparr>rr_TriggeredAt = now, rr_CompletedAt = None, rr_Container = ca_Container c,
      rr_Observed = ca_Observed c, rr_Threshold = ca_Threshold c,
      rr_DetectionMode = ca_Mode c, rr_Version = TemplateVersion L w, rr_Outcome = OutcomeInProgress\<rparr>"
  "st_InFlight (ApplyRestart L st w c now win) =
     Some \<lparr>if_DispatchedAt = now, if_DispatchedVersion = TemplateVersion L w, if_Phase = PhaseDispatched\<rparr>"
  "st_WindowStart (ApplyRestart L st w c now win) =
     (case sameWindow st (TemplateVersion L w) now win of (n, s, same) \<Rightarrow> if same then Some s else Some now)"
  "st_RestartCount (ApplyRestart L st w c now win) =
     (case sameWindow st (TemplateVersion L w) now win of (n, s, same) \<Rightarrow> if same then i64 (n + 1) else 1)"
  "st_WorkloadUID (ApplyRestart L st w c now win) = st_WorkloadUID st"
  "st_DryRun (ApplyRestart L st w c now win) = st_DryRun st"
  by (simp_all add: ApplyRestart_def Let_def split: prod.split)

section \<open>What the API server keeps of a status\<close>

text \<open>
  A time of the status is a \<open>metav1.Time\<close>, which the API server keeps and gives back in whole seconds. \<open>stored gr\<close>
  is a status after that trip, for a server that keeps times to the grain \<open>gr\<close>; with grain 1, nothing is lost.
\<close>

definition to_grain :: "duration \<Rightarrow> time \<Rightarrow> time" where
  "to_grain gr t = t div gr * gr"

definition stored :: "duration \<Rightarrow> policy_status \<Rightarrow> policy_status" where
  "stored gr st = st\<lparr>
     st_LastRestartAt := map_option (to_grain gr) (st_LastRestartAt st),
     st_WindowStart := map_option (to_grain gr) (st_WindowStart st),
     st_InFlight := map_option (\<lambda>f. f\<lparr>if_DispatchedAt := to_grain gr (if_DispatchedAt f)\<rparr>) (st_InFlight st),
     st_NextEligibleRestart := map_option (to_grain gr) (st_NextEligibleRestart st),
     st_LastProfile := map_option (\<lambda>r. r\<lparr>pr_CapturedAt := to_grain gr (pr_CapturedAt r)\<rparr>) (st_LastProfile st),
     st_LastNotification := map_option (\<lambda>r. r\<lparr>nr_NotifiedAt := to_grain gr (nr_NotifiedAt r)\<rparr>) (st_LastNotification st),
     st_History := map (\<lambda>r. r\<lparr>rr_TriggeredAt := to_grain gr (rr_TriggeredAt r),
       rr_CompletedAt := map_option (to_grain gr) (rr_CompletedAt r)\<rparr>) (st_History st),
     st_Conditions := map (\<lambda>c. c\<lparr>cond_LastTransitionTime := to_grain gr (cond_LastTransitionTime c)\<rparr>) (st_Conditions st)\<rparr>"

lemma to_grain_bounds: "0 < gr \<Longrightarrow> to_grain gr t \<le> t" "0 < gr \<Longrightarrow> t < to_grain gr t + gr"
  by (simp_all add: to_grain_def minus_mod_eq_div_mult [symmetric] del: minus_mod_eq_div_mult)

lemma to_grain_idem [simp]: "to_grain gr (to_grain gr t) = to_grain gr t"
  by (cases "gr = 0") (simp_all add: to_grain_def)

lemma to_grain_le: "0 < gr \<Longrightarrow> s \<le> t \<Longrightarrow> to_grain gr s \<le> to_grain gr t"
  by (simp add: to_grain_def zdiv_mono1)

lemma to_grain_1 [simp]: "to_grain 1 t = t"
  by (simp add: to_grain_def)

lemma stored_fields [simp]:
  "st_LastRestartAt (stored gr st) = map_option (to_grain gr) (st_LastRestartAt st)"
  "st_WindowStart (stored gr st) = map_option (to_grain gr) (st_WindowStart st)"
  "st_RestartCount (stored gr st) = st_RestartCount st" "st_Version (stored gr st) = st_Version st"
  "st_WorkloadUID (stored gr st) = st_WorkloadUID st" "st_DryRun (stored gr st) = st_DryRun st"
  by (simp_all add: stored_def)

section \<open>Restarts over a run\<close>

text \<open>
  The reconciler's use of the breaker: at each instant of a sequence it restarts unless the cooldown or
  the breaker stops it, going by the status the server keeps. \<open>breaker_run\<close> gives the instants at which it did.
\<close>

fun breaker_run :: "duration \<Rightarrow> lib \<Rightarrow> workload \<Rightarrow> cause \<Rightarrow> duration \<Rightarrow> duration \<Rightarrow> int \<Rightarrow> policy_status \<Rightarrow> time list \<Rightarrow> time list" where
  "breaker_run gr L w c cd win mx st [] = []"
| "breaker_run gr L w c cd win mx st (now # nows) =
     (if InCooldown st now cd \<or> BreakerTripped st (TemplateVersion L w) now win mx
      then breaker_run gr L w c cd win mx st nows
      else now # breaker_run gr L w c cd win mx (stored gr (ApplyRestart L st w c now win)) nows)"

lemma breaker_run_subset: "set (breaker_run gr L w c cd win mx st nows) \<subseteq> set nows"
  by (induction nows arbitrary: st) auto

text \<open>
  Breaker windows: chunks of restarts, each inside the window its first restart opens, whose start the server
  keeps to the grain.
\<close>

definition chunk_ok :: "duration \<Rightarrow> duration \<Rightarrow> nat \<Rightarrow> time list \<Rightarrow> bool" where
  "chunk_ok gr win mx w \<longleftrightarrow> w \<noteq> [] \<and> length w \<le> mx \<and> (\<forall>t \<in> set w. hd w \<le> t \<and> t < to_grain gr (hd w) + win)"

fun chunks_ok :: "duration \<Rightarrow> duration \<Rightarrow> nat \<Rightarrow> time list list \<Rightarrow> bool" where
  "chunks_ok gr win mx [] = True"
| "chunks_ok gr win mx (w # ws) \<longleftrightarrow> chunk_ok gr win mx w \<and> chunks_ok gr win mx ws
     \<and> (ws \<noteq> [] \<longrightarrow> to_grain gr (hd w) + win \<le> hd (hd ws))"

lemma chunks_later:
  assumes gr: "0 < gr" "gr \<le> win"
  shows "chunks_ok gr win mx (w # ws) \<Longrightarrow> y \<in> set (concat (w # ws)) \<Longrightarrow> hd w \<le> y"
proof (induction ws arbitrary: w)
  case (Cons v vs)
  show ?case
  proof (cases "y \<in> set w")
    case True
    with Cons.prems show ?thesis by (simp add: chunk_ok_def)
  next
    case False
    then have "hd v \<le> y" using Cons by simp
    moreover have "hd w < to_grain gr (hd w) + gr" by (rule to_grain_bounds [OF gr(1)])
    ultimately show ?thesis using Cons.prems gr(2) by simp
  qed
qed (simp add: chunk_ok_def)

lemma chunks_interval:
  assumes "chunks_ok gr win mx ws" and gr: "0 < gr" "gr \<le> win" and "0 < mx"
  shows "length (filter (\<lambda>t. a \<le> t \<and> t + gr \<le> a + win) (concat ws)) \<le> 2 * mx - 1"
  using assms(1)
proof (induction ws)
  case (Cons w ws)
  let ?in = "\<lambda>t. a \<le> t \<and> t + gr \<le> a + win"
  note below = to_grain_bounds(2) [OF gr(1)]
  from Cons.prems have w: "chunk_ok gr win mx w" and ws: "chunks_ok gr win mx ws" by simp_all
  show ?case
  proof (cases "\<exists>x \<in> set w. ?in x")
    case False
    then have "filter ?in w = []" by (simp add: filter_empty_conv)
    then show ?thesis using Cons.IH [OF ws] by simp
  next
    case True
    then obtain x where x: "x \<in> set w" "?in x" by blast
    have lw: "length (filter ?in w) \<le> mx"
      using w length_filter_le [of ?in w] unfolding chunk_ok_def by linarith
    show ?thesis
    proof (cases ws)
      case Nil
      with lw assms(4) show ?thesis by simp
    next
      case (Cons v vs)
      have gap: "to_grain gr (hd w) + win \<le> hd v" and v: "chunks_ok gr win mx (v # vs)" using Cons.prems Cons by simp_all
      have "\<not> ?in y" if "y \<in> set (concat vs)" for y
      proof (cases vs)
        case (Cons u us)
        then have "to_grain gr (hd v) + win \<le> hd u" "hd u \<le> y"
          using v that chunks_later [OF gr, of mx u us y] by simp_all
        moreover have "x < to_grain gr (hd w) + win" using w x(1) by (simp add: chunk_ok_def)
        ultimately show ?thesis using gap x(2) below [of "hd v"] by linarith
      qed (use that in simp)
      then have rest: "filter ?in (concat vs) = []" by (simp only: filter_empty_conv) blast
      have lv: "length (filter ?in v) \<le> mx"
        using v length_filter_le [of ?in v] unfolding chunks_ok.simps chunk_ok_def by linarith
      show ?thesis
      proof (cases "filter ?in v = []")
        case True
        with lw rest assms(4) show ?thesis by (simp add: Cons)
      next
        case False
        then obtain y where y: "y \<in> set v" "?in y" by (auto simp: filter_empty_conv)
        then have "to_grain gr (hd w) + win \<le> y" using v gap by (auto simp: chunk_ok_def)
        then have "\<not> ?in (hd w)" using y(2) below [of "hd w"] by linarith
        then have "filter ?in w = filter ?in (tl w)" using w by (cases w) (simp_all add: chunk_ok_def)
        then have "length (filter ?in w) \<le> mx - 1"
          using length_filter_le [of ?in "tl w"] w by (auto simp: chunk_ok_def)
        with lv rest assms(4) show ?thesis by (simp add: Cons)
      qed
    qed
  qed
qed simp

lemma sameWindow_iff:
  assumes "0 < win" "win \<le> maxDuration"
  shows "sameWindow st v now win = (st_RestartCount st, s, True) \<longleftrightarrow>
    st_WindowStart st = Some s \<and> now < s + win \<and> (st_Version st = '''' \<or> st_Version st = v)"
  using time_Sub_less_iff [of win now s] assms
  by (auto simp: sameWindow_def minDuration_def split: option.splits)

text \<open>
  The restarts from a status with \<open>n\<close> restarts in its window fill up that window and then open new ones.
\<close>

lemma breaker_run_chunks:
  assumes win: "0 < win" "win \<le> maxDuration" and mx: "0 < mx" "mx < 2 ^ 63"
    and gr: "0 < gr" "gr \<le> win"
    and "sorted nows" and "st_WindowStart st = None \<or> (\<exists>s. st_WindowStart st = Some s \<and> to_grain gr s = s \<and> (\<forall>t \<in> set nows. s \<le> t))"
    and "0 \<le> st_RestartCount st" and "st_WindowStart st = None \<or> st_Version st = TemplateVersion L w"
  shows "\<exists>cur ws. breaker_run gr L w c cd win mx st nows = cur @ concat ws \<and> chunks_ok gr win (nat mx) ws
    \<and> (case st_WindowStart st of
         None \<Rightarrow> cur = []
       | Some s \<Rightarrow> length cur \<le> nat (mx - st_RestartCount st) \<and> (\<forall>t \<in> set cur. s \<le> t \<and> t < s + win)
                  \<and> (ws \<noteq> [] \<longrightarrow> s + win \<le> hd (hd ws)))"
  using assms(7-)
proof (induction nows arbitrary: st)
  case Nil
  show ?case by (intro exI [of _ "[]"]) (simp split: option.split)
next
  case (Cons now nows)
  let ?v = "TemplateVersion L w"
  have sorted: "sorted nows" and later: "\<forall>t \<in> set nows. now \<le> t" using Cons.prems(1) by simp_all
  show ?case
  proof (cases "InCooldown st now cd \<or> BreakerTripped st ?v now win mx")
    case True
    then have e: "breaker_run gr L w c cd win mx st (now # nows) = breaker_run gr L w c cd win mx st nows" by simp
    have s: "st_WindowStart st = None \<or> (\<exists>s. st_WindowStart st = Some s \<and> to_grain gr s = s \<and> (\<forall>t \<in> set nows. s \<le> t))"
      using Cons.prems(2) by auto
    show ?thesis unfolding e by (rule Cons.IH [OF sorted s Cons.prems(3,4)])
  next
    case False
    define st' where "st' = stored gr (ApplyRestart L st w c now win)"
    have e: "breaker_run gr L w c cd win mx st (now # nows) = now # breaker_run gr L w c cd win mx st' nows"
      using False by (simp add: st'_def)
    have v': "st_Version st' = ?v" by (simp add: st'_def ApplyRestart_fields)
    show ?thesis
    proof (cases "\<exists>s. sameWindow st ?v now win = (st_RestartCount st, s, True)")
      case True
      then obtain s where same: "sameWindow st ?v now win = (st_RestartCount st, s, True)" by blast
      note ss = same [unfolded sameWindow_iff [OF win]]
      have cnt: "st_RestartCount st < mx" using False same mx by (simp add: BreakerTripped_def)
      then have f: "st_WindowStart st' = Some (to_grain gr s)" "st_RestartCount st' = st_RestartCount st + 1"
        using same mx Cons.prems(3) by (simp_all add: st'_def ApplyRestart_fields in_i64_def)
      have sn: "s \<le> now" "to_grain gr s = s" using Cons.prems(2) ss by auto
      obtain cur ws where IH: "breaker_run gr L w c cd win mx st' nows = cur @ concat ws"
        "chunks_ok gr win (nat mx) ws" "length cur \<le> nat (mx - (st_RestartCount st + 1))"
        "\<forall>t \<in> set cur. s \<le> t \<and> t < s + win" "ws \<noteq> [] \<longrightarrow> s + win \<le> hd (hd ws)"
        using Cons.IH [of st'] sorted later sn Cons.prems(3) v' f by fastforce
      have "length (now # cur) \<le> nat (mx - st_RestartCount st)" using IH(3) cnt by simp
      then show ?thesis using IH ss sn
        by (intro exI [of _ "now # cur"] exI [of _ ws]) (simp add: e del: breaker_run.simps)
    next
      case fresh: False
      have low: "to_grain gr now \<le> now" by (rule to_grain_bounds [OF gr(1)])
      have f: "st_WindowStart st' = Some (to_grain gr now)" "st_RestartCount st' = 1"
        using fresh by (auto simp: st'_def ApplyRestart_fields sameWindow_def split: option.splits if_splits)
      obtain cur ws where IH: "breaker_run gr L w c cd win mx st' nows = cur @ concat ws"
        "chunks_ok gr win (nat mx) ws" "length cur \<le> nat (mx - 1)"
        "\<forall>t \<in> set cur. to_grain gr now \<le> t \<and> t < to_grain gr now + win" "ws \<noteq> [] \<longrightarrow> to_grain gr now + win \<le> hd (hd ws)"
        using Cons.IH [of st'] sorted later low v' f by fastforce
      have "\<forall>t \<in> set cur. now \<le> t" using later breaker_run_subset [of gr L w c cd win mx st' nows] IH(1) by auto
      moreover have "now < to_grain gr now + win" using to_grain_bounds(2) [OF gr(1), of now] gr(2) by linarith
      ultimately have "chunk_ok gr win (nat mx) (now # cur)" using IH(3,4) mx by (simp add: chunk_ok_def)
      then have ok: "chunks_ok gr win (nat mx) ((now # cur) # ws)" using IH(2,5) by simp
      have "s + win \<le> now" if "st_WindowStart st = Some s" for s
        using fresh that Cons.prems(4) sameWindow_iff [OF win, of st ?v now s] by auto
      then show ?thesis using ok IH(1)
        by (intro exI [of _ "[]"] exI [of _ "(now # cur) # ws"]) (auto simp: e simp del: breaker_run.simps split: option.split)
    qed
  qed
qed

section \<open>Properties\<close>

definition demo_cause :: cause where
  "demo_cause = \<lparr>ca_Container = ''app'', ca_Observed = 95, ca_Threshold = 90, ca_Mode = ''sustained''\<rparr>"

text \<open>
  How many restarts the breaker lets through. For a workload whose template does not change, over any
  sequence of attempts in time order from a status without a window, no interval as long as the restart
  window (less the grain to which the server keeps times) holds more than twice the maximum minus one restarts. The
  window is fixed, not sliding, so the maximum itself is not the bound; the instance shows the bound met.
\<close>

theorem breaker_bounds_any_interval:
  assumes "0 < win" "win \<le> maxDuration" and "0 < mx" "mx < 2 ^ 63" and "0 < gr" "gr \<le> win"
    and "sorted nows" and "st_WindowStart st = None" and "0 \<le> st_RestartCount st"
  shows "int (length (filter (\<lambda>t. a \<le> t \<and> t + gr \<le> a + win) (breaker_run gr L w c cd win mx st nows))) \<le> 2 * mx - 1"
proof -
  obtain ws where ws: "breaker_run gr L w c cd win mx st nows = concat ws" "chunks_ok gr win (nat mx) ws"
    using breaker_run_chunks [OF assms(1-7), of st L w c cd] assms(8,9) by auto
  have "length (filter (\<lambda>t. a \<le> t \<and> t + gr \<le> a + win) (concat ws)) \<le> 2 * nat mx - 1"
    using chunks_interval [OF ws(2) assms(5,6), of a] assms(3) by simp
  then show ?thesis using assms(3) unfolding ws(1) by linarith
qed

lemma breaker_bounds_any_interval_witness:
  "breaker_run 1 demo_lib demo_workload demo_cause 0 100 2 empty_status [0, 99, 100, 101, 102] = [0, 99, 100, 101]
   \<and> length (filter (\<lambda>t. 99 \<le> t \<and> t + 1 \<le> 99 + 100)
       (breaker_run 1 demo_lib demo_workload demo_cause 0 100 2 empty_status [0, 99, 100, 101, 102])) = 3
   \<and> int (length (filter (\<lambda>t. 99 \<le> t \<and> t + 1 \<le> 99 + 100)
       (breaker_run 1 demo_lib demo_workload demo_cause 0 100 2 empty_status [0, 99, 100, 101, 102]))) \<le> 2 * 2 - 1"
proof -
  have r: "breaker_run 1 demo_lib demo_workload demo_cause 0 100 2 empty_status [0, 99, 100, 101, 102] = [0, 99, 100, 101]"
    by code_simp
  have "(0 :: duration) < 100" "(100 :: duration) \<le> maxDuration" "(0 :: int) < 2" "(2 :: int) < 2 ^ 63"
    "(0 :: duration) < 1" "(1 :: duration) \<le> 100"
    "sorted [0, 99, 100, 101, 102 :: time]" "st_WindowStart empty_status = None" "0 \<le> st_RestartCount empty_status"
    by (simp_all add: maxDuration_def empty_status_def)
  from breaker_bounds_any_interval [OF this, of 99 demo_lib demo_workload demo_cause 0]
  show ?thesis unfolding r by simp
qed

text \<open>
  The cooldown keeps restarts apart. Over any sequence of attempts, each recorded restart is the
  cooldown after every earlier one, less the grain to which the server keeps times, and the whole cooldown
  after the last restart the status already had.
\<close>

theorem cooldown_spaces_restarts:
  assumes "0 < cd" "cd \<le> maxDuration" and gr: "0 < gr" "gr \<le> cd"
  shows "sorted_wrt (\<lambda>x y. x + cd < y + gr) (breaker_run gr L w c cd win mx st nows)
    \<and> (\<forall>t \<in> set (breaker_run gr L w c cd win mx st nows). \<forall>u. st_LastRestartAt st = Some u \<longrightarrow> to_grain gr u = u \<longrightarrow> u + cd \<le> t)"
proof (induction nows arbitrary: st)
  case (Cons now nows)
  show ?case
  proof (cases "InCooldown st now cd \<or> BreakerTripped st (TemplateVersion L w) now win mx")
    case False
    define st' where "st' = stored gr (ApplyRestart L st w c now win)"
    have last: "st_LastRestartAt st' = Some (to_grain gr now)" by (simp add: st'_def ApplyRestart_fields)
    have first: "u + cd \<le> now" if "st_LastRestartAt st = Some u" for u
      using False that time_Sub_less_iff [of cd now u] assms
      by (simp add: InCooldown_def minDuration_def)
    have rest: "to_grain gr now + cd \<le> t" if "t \<in> set (breaker_run gr L w c cd win mx st' nows)" for t
      using Cons.IH [of st'] last that by simp
    then have "now + cd < t + gr" if "t \<in> set (breaker_run gr L w c cd win mx st' nows)" for t
      using to_grain_bounds(2) [OF gr(1), of now] that by fastforce
    moreover have "u + cd \<le> t" if u: "st_LastRestartAt st = Some u" "to_grain gr u = u"
      and t: "t \<in> set (breaker_run gr L w c cd win mx st' nows)" for u t
    proof -
      have "u \<le> to_grain gr now" using to_grain_le [OF gr(1), of u now] first [OF u(1)] u(2) assms(1) by simp
      then show ?thesis using rest [OF t] by simp
    qed
    moreover have "breaker_run gr L w c cd win mx st (now # nows) = now # breaker_run gr L w c cd win mx st' nows"
      using False by (simp add: st'_def)
    ultimately show ?thesis using Cons.IH [of st'] first by auto
  qed (use Cons.IH in simp)
qed simp

text \<open>
  The two restarts the server keeps in whole seconds lie less than the cooldown of 30 s apart: the first, at 0.9 s,
  is kept as one at 0 s.
\<close>

lemma cooldown_spaces_restarts_witness:
  "breaker_run Second demo_lib demo_workload demo_cause (30 * Second) 1000 5 empty_status [900000000, 30 * Second] = [900000000, 30 * Second]
   \<and> sorted_wrt (\<lambda>x y. x + 30 * Second < y + Second)
       (breaker_run Second demo_lib demo_workload demo_cause (30 * Second) 1000 5 empty_status [900000000, 30 * Second])"
proof -
  have r: "breaker_run Second demo_lib demo_workload demo_cause (30 * Second) 1000 5 empty_status [900000000, 30 * Second]
      = [900000000, 30 * Second]"
    by (simp add: InCooldown_def BreakerTripped_def sameWindow_def ApplyRestart_fields empty_status_def
        time_Sub_def minDuration_def maxDuration_def i64_def to_grain_def duration_units)
  have s: "(0 :: duration) < 30 * Second" "30 * Second \<le> maxDuration" "0 < Second" "Second \<le> 30 * Second"
    by (simp_all add: duration_units maxDuration_def)
  show ?thesis
    using cooldown_spaces_restarts [OF s, of demo_lib demo_workload demo_cause 1000 5 empty_status "[900000000, 30 * Second]"]
    unfolding r by blast
qed

section \<open>The status invariant\<close>

text \<open>
  A record is open exactly while its outcome is in progress; the history is bounded; an in-flight marker
  describes the newest record, which is open.
\<close>

definition record_ok :: "restart_record \<Rightarrow> bool" where
  "record_ok r \<longleftrightarrow> (rr_CompletedAt r = None \<longleftrightarrow> rr_Outcome r = OutcomeInProgress)"

definition marker_ok :: "inflight_rollout \<Rightarrow> restart_record list \<Rightarrow> bool" where
  "marker_ok f h \<longleftrightarrow> h \<noteq> [] \<and> rr_CompletedAt (last h) = None \<and> rr_TriggeredAt (last h) = if_DispatchedAt f
     \<and> rr_Version (last h) = if_DispatchedVersion f"

definition status_ok :: "policy_status \<Rightarrow> bool" where
  "status_ok st \<longleftrightarrow> length (st_History st) \<le> RestartHistoryLimit \<and> (\<forall>r \<in> set (st_History st). record_ok r)
     \<and> (\<forall>f. st_InFlight st = Some f \<longrightarrow> marker_ok f (st_History st))"

lemma status_ok_empty: "status_ok empty_status"
  by (simp add: status_ok_def empty_status_def)

lemma append_bounded_set: "set (append_bounded h r) \<subseteq> insert r (set h)"
  using append_bounded_suffix [of h r] by (metis Un_subset_iff list.set(2) set_append set_subset_Cons
      subset_insertI list.set(1) Un_insert_right sup_bot.right_neutral Un_upper2)

lemma status_ok_ApplyRestart: "status_ok st \<Longrightarrow> status_ok (ApplyRestart L st w c now win)"
  using append_bounded_set [of "st_History st"]
  by (fastforce simp: status_ok_def ApplyRestart_fields append_bounded_props marker_ok_def record_ok_def)

lemma status_ok_CompleteInFlight:
  assumes "status_ok st" "out \<noteq> OutcomeInProgress"
  shows "status_ok (CompleteInFlight L st now out)"
proof -
  have "record_ok r" if "r \<in> set (close_last (st_History st) now out)" for r
    using that assms set_update_subset_insert [of "st_History st"]
    by (fastforce simp: close_last_def Let_def status_ok_def record_ok_def split: if_splits)
  then show ?thesis using assms by (simp add: status_ok_def CompleteInFlight_def close_last_props)
qed

lemma Recompute_fields [simp]:
  "st_History (RecomputeObservability st now cd win mx) = st_History st"
  "st_InFlight (RecomputeObservability st now cd win mx) = st_InFlight st"
  "st_RestartCount (RecomputeObservability st now cd win mx) = st_RestartCount st"
  "st_WindowStart (RecomputeObservability st now cd win mx) = st_WindowStart st"
  "st_LastRestartAt (RecomputeObservability st now cd win mx) = st_LastRestartAt st"
  "st_Version (RecomputeObservability st now cd win mx) = st_Version st"
  "st_WorkloadUID (RecomputeObservability st now cd win mx) = st_WorkloadUID st"
  by (simp_all add: RecomputeObservability_def Let_def split: option.split)

lemma status_ok_Recompute: "status_ok st \<Longrightarrow> status_ok (RecomputeObservability st now cd win mx)"
  by (simp add: status_ok_def)

lemma status_ok_Adopt: "status_ok st \<Longrightarrow> status_ok (AdoptWorkload st uid)"
  by (simp add: status_ok_def AdoptWorkload_def Let_def)

lemmas status_ok_ops = status_ok_ApplyRestart status_ok_CompleteInFlight status_ok_Recompute status_ok_Adopt

text \<open>
  The life of a restart in the history. Dispatching appends one open record with the cause, keeping
  the newest older records up to the limit; completing it with an outcome closes that record and no
  other, clears the marker, and leaves the window, the count and the cooldown as the dispatch set them.
\<close>

theorem restart_lifecycle_recorded:
  "let st1 = ApplyRestart L st w c now win; st2 = CompleteInFlight L st1 t1 out
   in (\<exists>dropped. st_History st = dropped @ butlast (st_History st1)
        \<and> length dropped = length (st_History st) + 1 - RestartHistoryLimit)
    \<and> butlast (st_History st2) = butlast (st_History st1)
    \<and> last (st_History st2) =
        \<lparr>rr_TriggeredAt = now, rr_CompletedAt = Some t1, rr_Container = ca_Container c,
         rr_Observed = ca_Observed c, rr_Threshold = ca_Threshold c, rr_DetectionMode = ca_Mode c,
         rr_Version = TemplateVersion L w, rr_Outcome = out\<rparr>
    \<and> st_InFlight st1 \<noteq> None \<and> st_InFlight st2 = None
    \<and> st_LastRestartAt st2 = Some now \<and> st_RestartCount st2 = st_RestartCount st1
    \<and> st_WindowStart st2 = st_WindowStart st1 \<and> st_WindowStart st1 \<noteq> None"
proof -
  define st1 where "st1 = ApplyRestart L st w c now win"
  define st2 where "st2 = CompleteInFlight L st1 t1 out"
  let ?r = "\<lparr>rr_TriggeredAt = now, rr_CompletedAt = None, rr_Container = ca_Container c,
      rr_Observed = ca_Observed c, rr_Threshold = ca_Threshold c,
      rr_DetectionMode = ca_Mode c, rr_Version = TemplateVersion L w, rr_Outcome = OutcomeInProgress\<rparr>"
  have h1: "st_History st1 = append_bounded (st_History st) ?r" by (simp add: st1_def ApplyRestart_fields)
  obtain dropped where d: "st_History st @ [?r] = dropped @ append_bounded (st_History st) ?r"
    "length dropped = length (st_History st) + 1 - RestartHistoryLimit"
    using append_bounded_suffix by blast
  have "butlast (st_History st @ [?r]) = dropped @ butlast (append_bounded (st_History st) ?r)"
    unfolding d(1) by (simp add: butlast_append append_bounded_props)
  then have "st_History st = dropped @ butlast (st_History st1)" by (simp add: h1)
  moreover have h2: "st_History st2 = close_last (st_History st1) t1 out" by (simp add: st2_def CompleteInFlight_def)
  moreover have "st_History st1 \<noteq> []" "last (st_History st1) = ?r" by (simp_all add: h1 append_bounded_props)
  moreover have "st_InFlight st1 \<noteq> None" "st_WindowStart st1 \<noteq> None"
    by (simp_all add: st1_def ApplyRestart_fields split: prod.split)
  moreover have "st_InFlight st2 = None" "st_LastRestartAt st2 = Some now" "st_RestartCount st2 = st_RestartCount st1"
    "st_WindowStart st2 = st_WindowStart st1"
    by (simp_all add: st2_def CompleteInFlight_def) (simp add: st1_def ApplyRestart_fields)
  ultimately show ?thesis using d(2)
    unfolding st1_def [symmetric] st2_def [symmetric] Let_def by (auto simp: close_last_props)
qed

text \<open>
  C27: the status columns tell what the breaker and the cooldown will do. Recomputed at an instant with the
  limits in force, for the recorded version: the tripped flag is the breaker's own verdict, the restarts
  remaining are the maximum minus those of the open window (all of them when it has aged out) and are
  zero exactly when it is tripped, and the next eligible restart is the first instant out of cooldown.
\<close>

theorem observability_matches_breaker:
  assumes "0 < win" "win \<le> maxDuration" and "0 < mx" "in_i64 mx" and "0 \<le> st_RestartCount st" "in_i64 (st_RestartCount st)"
    and "0 < cd" "cd \<le> maxDuration" and "st_Version st = '''' \<or> st_Version st = v"
  shows "st_BreakerTripped (RecomputeObservability st now cd win mx) = BreakerTripped st v now win mx
    \<and> st_RestartsRemaining (RecomputeObservability st now cd win mx) =
        (if \<exists>s. st_WindowStart st = Some s \<and> now < s + win then max 0 (mx - st_RestartCount st) else mx)
    \<and> (st_RestartsRemaining (RecomputeObservability st now cd win mx) = 0 \<longleftrightarrow> BreakerTripped st v now win mx)
    \<and> (\<forall>t. st_LastRestartAt st = Some t \<longrightarrow>
         (\<exists>n. st_NextEligibleRestart (RecomputeObservability st now cd win mx) = Some n
            \<and> (\<forall>u. InCooldown st u cd \<longleftrightarrow> u < n)))"
proof -
  have w: "time_Sub now s < win \<longleftrightarrow> now < s + win" for s
    using time_Sub_less_iff [of win now s] assms(1,2) by (auto simp: minDuration_def)
  have c: "time_Sub u t < cd \<longleftrightarrow> u < t + cd" for u t
    using time_Sub_less_iff [of cd u t] assms(7,8) by (auto simp: minDuration_def)
  have d: "i64 (mx - st_RestartCount st) = mx - st_RestartCount st"
    using assms(3-6) by (simp add: in_i64_def)
  have w': "win \<le> time_Sub now s \<longleftrightarrow> s + win \<le> now" for s using w [of s] by linarith
  show ?thesis
    using assms(3,9)
    by (cases "st_WindowStart st"; cases "st_LastRestartAt st")
       (auto simp: RecomputeObservability_def BreakerTripped_def sameWindow_def InCooldown_def Let_def w c d w')
qed

lemma observability_matches_breaker_witness:
  "st_RestartsRemaining (RecomputeObservability (ApplyRestart demo_lib empty_status demo_workload demo_cause 7 100)
      8 30 100 3) = 2"
proof -
  let ?st = "ApplyRestart demo_lib empty_status demo_workload demo_cause 7 100"
  have f: "st_WindowStart ?st = Some 7" "st_RestartCount ?st = 1"
    by (simp_all add: ApplyRestart_fields empty_status_def sameWindow_def)
  then show ?thesis
    using observability_matches_breaker [of 100 3 ?st 30 "st_Version ?st" 8]
    by (simp add: maxDuration_def in_i64_def)
qed

text \<open>
  A workload recreated under the same name starts afresh. When the live UID differs from a recorded
  one, adopting it leaves no cooldown, no tripped breaker, no marker and no history, whatever the limits;
  adopting the recorded UID, or the first UID of a policy, changes nothing else. The displayed columns
  are not among what is reset.
\<close>

theorem adoption_resets_exactly_on_new_uid:
  "(st_WorkloadUID st \<noteq> '''' \<and> st_WorkloadUID st \<noteq> uid \<and>
      \<not> InCooldown (AdoptWorkload st uid) now cd \<and> \<not> BreakerTripped (AdoptWorkload st uid) v now win mx
      \<and> st_InFlight (AdoptWorkload st uid) = None \<and> st_History (AdoptWorkload st uid) = []
      \<and> st_WorkloadUID (AdoptWorkload st uid) = uid
      \<and> st_BreakerTripped (AdoptWorkload st uid) = st_BreakerTripped st
      \<and> st_RestartsRemaining (AdoptWorkload st uid) = st_RestartsRemaining st
      \<and> st_NextEligibleRestart (AdoptWorkload st uid) = st_NextEligibleRestart st)
   \<or> ((st_WorkloadUID st = '''' \<or> st_WorkloadUID st = uid)
      \<and> AdoptWorkload st uid = st\<lparr>st_WorkloadUID := uid\<rparr>)"
  by (auto simp: AdoptWorkload_def InCooldown_def BreakerTripped_def sameWindow_def)

section \<open>What the operations leave alone\<close>

lemma CompleteInFlight_fields:
  "st_InFlight (CompleteInFlight L st now out) = None"
  "st_RestartCount (CompleteInFlight L st now out) = st_RestartCount st"
  "st_WindowStart (CompleteInFlight L st now out) = st_WindowStart st"
  "st_LastRestartAt (CompleteInFlight L st now out) = st_LastRestartAt st"
  "st_Version (CompleteInFlight L st now out) = st_Version st"
  "st_WorkloadUID (CompleteInFlight L st now out) = st_WorkloadUID st"
  "st_History (CompleteInFlight L st now out) = close_last (st_History st) now out"
  by (simp_all add: CompleteInFlight_def)

end
