(* ===== verification/StatusStore.thy ===== *)
theory StatusStore
  imports Breaker
begin

text \<open>
  \<open>internal/restart/store.go\<close>: writing the status subresource, and the sweep that closes in-flight
  rollouts which no longer warrant a slot. A client call that mutates the policy it is given returns the
  policy as it is afterwards.
\<close>

section \<open>Operations\<close>

text \<open>
  \<open>Persist\<close>: on a conflict the status is applied to a fresh copy and written once more; the caller's own
  copy then keeps its old resource version.
\<close>

definition Persist :: "'w api \<Rightarrow> policy \<Rightarrow> ('w, unit result \<times> policy) op" where
  "Persist A p = do {
     r \<leftarrow> update_status A p;
     case r of
       Inr p' \<Rightarrow> ret (Inr (), p')
     | Inl e \<Rightarrow>
        if \<not> err_is e ErrConflict then ret (Inl e, p)
        else do {
          g \<leftarrow> call (a_GetPolicy A (p_Namespace p) (p_Name p));
          case g of
            Inl gerr \<Rightarrow> ret (Inl gerr, p)
          | Inr fresh \<Rightarrow> do {
              r2 \<leftarrow> update_status A (fresh\<lparr>p_Status := p_Status p\<rparr>);
              case r2 of Inl e2 \<Rightarrow> ret (Inl e2, p) | Inr _ \<Rightarrow> ret (Inr (), p) } } }"

definition timedOut :: "inflight_rollout \<Rightarrow> time \<Rightarrow> duration \<Rightarrow> string \<times> bool" where
  "timedOut f now timeout =
     (if time_Sub now (if_DispatchedAt f) \<ge> timeout then (OutcomeTimedOut, True) else ('''', False))"

definition classifyInFlight ::
  "lib \<Rightarrow> 'w api \<Rightarrow> policy \<Rightarrow> time \<Rightarrow> duration \<Rightarrow> ('w, (string \<times> bool) result) op" where
  "classifyInFlight L A p now timeout = do {
     r \<leftarrow> GetWorkload A (wr_Kind (sp_WorkloadRef (p_Spec p))) (p_Namespace p) (wr_Name (sp_WorkloadRef (p_Spec p)));
     case st_InFlight (p_Status p) of
       None \<Rightarrow> (case r of
           Inl e \<Rightarrow> if err_is e ErrNotFound then ret (Inr (OutcomeSuperseded, True)) else ret (Inl NilDeref)
         | Inr wl \<Rightarrow> (case Workload_UID wl of
               Inl e \<Rightarrow> ret (Inl e)
             | Inr uid \<Rightarrow> if uid \<noteq> st_WorkloadUID (p_Status p) then ret (Inr (OutcomeSuperseded, True))
                          else ret (Inl NilDeref)))
     | Some f \<Rightarrow> (case r of
           Inl e \<Rightarrow> if err_is e ErrNotFound then ret (Inr (OutcomeSuperseded, True))
                    else ret (Inr (timedOut f now timeout))
         | Inr wl \<Rightarrow> (case Workload_UID wl of
               Inl e \<Rightarrow> ret (Inl e)
             | Inr uid \<Rightarrow>
                 if uid \<noteq> st_WorkloadUID (p_Status p) then ret (Inr (OutcomeSuperseded, True))
                 else let dispatched = if_DispatchedVersion f; live = TemplateVersion L wl
                      in if dispatched \<noteq> '''' \<and> live \<noteq> '''' \<and> live \<noteq> dispatched
                         then ret (Inr (OutcomeSuperseded, True))
                         else ret (Inr (timedOut f now timeout)))) }"

text \<open>The loop of \<open>SweepInFlight\<close>: the keys so far, and the error that ends the sweep.\<close>

fun sweep_loop ::
  "lib \<Rightarrow> 'w api \<Rightarrow> time \<Rightarrow> duration \<Rightarrow> string list \<Rightarrow> policy list \<Rightarrow> ('w, string list \<times> err option) op" where
  "sweep_loop L A now timeout keys [] = ret (keys, None)"
| "sweep_loop L A now timeout keys (p # ps) =
     (if st_InFlight (p_Status p) = None then sweep_loop L A now timeout keys ps
      else do {
        c \<leftarrow> classifyInFlight L A p now timeout;
        case c of
          Inl e \<Rightarrow> ret (keys, Some e)
        | Inr (outcome, release) \<Rightarrow>
            if \<not> release then sweep_loop L A now timeout keys ps
            else let p' = p\<lparr>p_Status := CompleteInFlight L (p_Status p) now outcome\<rparr>;
                     key = WorkloadKey (wr_Kind (sp_WorkloadRef (p_Spec p))) (p_Namespace p)
                             (wr_Name (sp_WorkloadRef (p_Spec p)));
                     keys' = keys @ [key]
                 in do {
                   r \<leftarrow> Persist A p';
                   case fst r of Inl e \<Rightarrow> ret (keys', Some e)
                   | Inr _ \<Rightarrow> sweep_loop L A now timeout keys' ps } })"

definition SweepInFlight :: "lib \<Rightarrow> 'w api \<Rightarrow> time \<Rightarrow> duration \<Rightarrow> ('w, string list \<times> err option) op" where
  "SweepInFlight L A now timeout = do {
     l \<leftarrow> call (a_ListPolicies A '''');
     case l of Inl e \<Rightarrow> ret ([], Some e) | Inr items \<Rightarrow> sweep_loop L A now timeout [] items }"

section \<open>Persisting\<close>

definition of_policy :: "string \<Rightarrow> string \<Rightarrow> policy \<Rightarrow> bool" where
  "of_policy ns n p \<longleftrightarrow> p_Namespace p = ns \<and> p_Name p = n"

lemma keeps_update_status [keeping]:
  "keeps sy_Gate (update_status A p)" "keeps sy_Samples (update_status A p)"
  "keeps sy_Gate (update_policy A p)" "keeps sy_Samples (update_policy A p)"
  unfolding update_status_def update_policy_def by (intro keeping)+

lemma keeps_Persist [keeping]: "keeps sy_Gate (Persist A p)" "keeps sy_Samples (Persist A p)"
  unfolding Persist_def by (intro keeping)+

text \<open>The writes of a persist: one attempt, or a conflict and a second one with the same status.\<close>

definition persist_trace :: "policy \<Rightarrow> bool \<Rightarrow> effect list \<Rightarrow> bool" where
  "persist_trace p ok es \<longleftrightarrow>
     es = [EUpdateStatus p ok]
     \<or> \<not> ok \<and> es = [EUpdateStatus p False]
     \<or> (\<exists>q. p_Status q = p_Status p \<and> es = [EUpdateStatus q ok, EUpdateStatus p False])"

lemma Persist_run:
  "wp (Persist A p) (\<lambda>(r, p') t. \<exists>es. sy_Trace t = es @ sy_Trace s \<and> persist_trace p (is_ok r) es) s"
  by (auto simp: Persist_def update_status_def persist_trace_def split: prod.splits sum.splits)

lemma adds_Persist [adding]:
  assumes "\<And>q ok. p_Status q = p_Status p \<Longrightarrow> P (EUpdateStatus q ok)"
  shows "adds P (Persist A p)"
proof (rule addsI)
  fix s
  show "wp (Persist A p) (\<lambda>_ t. \<exists>es. sy_Trace t = es @ sy_Trace s \<and> list_all P es) s"
    by (rule wp_mono [OF Persist_run]) (use assms in \<open>auto simp: persist_trace_def\<close>)
qed

text \<open>
  What the reconciler and the sweep ask of a status writer: the slots and the samples are not its business,
  and whatever happens it leaves a trace of status writes that carry the status it was given, the newest
  of which tells whether it succeeded.
\<close>

locale status_writer =
  fixes persist :: "policy \<Rightarrow> ('w, unit result \<times> policy) op"
  assumes persist_gate: "keeps sy_Gate (persist p)"
    and persist_samples: "keeps sy_Samples (persist p)"
    and persist_writes: "wp (persist p) (\<lambda>(r, p') t. \<exists>q es. sy_Trace t = EUpdateStatus q (is_ok r) # es @ sy_Trace s
      \<and> p_Status q = p_Status p \<and> list_all (\<lambda>e. \<exists>q'. e = EUpdateStatus q' False \<and> p_Status q' = p_Status p) es) s"
begin

lemma persist_success_recorded:
  "wp (persist p) (\<lambda>(r, p') t. r = Inr () \<longrightarrow>
     (\<exists>q. EUpdateStatus q True \<in> set (sy_Trace t) \<and> p_Status q = p_Status p)) s"
  by (rule wp_mono [OF persist_writes]) auto

lemma persist_failure_writes_nothing:
  "wp (persist p) (\<lambda>(r, p') t. \<not> is_ok r \<longrightarrow>
     (\<forall>q. EUpdateStatus q True \<in> set (sy_Trace t) \<longrightarrow> EUpdateStatus q True \<in> set (sy_Trace s))) s"
  by (rule wp_mono [OF persist_writes]) (auto simp: list_all_iff)

end

interpretation sw: status_writer "Persist A"
proof
  show "keeps sy_Gate (Persist A p)" for p by (rule keeps_Persist)
  show "keeps sy_Samples (Persist A p)" for p by (rule keeps_Persist)
  show "wp (Persist A p) (\<lambda>(r, p') t. \<exists>q es. sy_Trace t = EUpdateStatus q (is_ok r) # es @ sy_Trace s
      \<and> p_Status q = p_Status p \<and> list_all (\<lambda>e. \<exists>q'. e = EUpdateStatus q' False \<and> p_Status q' = p_Status p) es) s" for p s
    by (rule wp_mono [OF Persist_run]) (fastforce simp: persist_trace_def)
qed

section \<open>Classifying\<close>

text \<open>What the sweep takes for a superseded rollout, from the answer about the live workload.\<close>

definition superseded :: "lib \<Rightarrow> policy_status \<Rightarrow> inflight_rollout \<Rightarrow> workload result \<Rightarrow> bool" where
  "superseded L st f r \<longleftrightarrow> (case r of
      Inl e \<Rightarrow> err_is e ErrNotFound
    | Inr w \<Rightarrow> Workload_UID w \<noteq> Inr (st_WorkloadUID st)
        \<or> if_DispatchedVersion f \<noteq> '''' \<and> TemplateVersion L w \<notin> {'''', if_DispatchedVersion f})"

lemma Workload_UID_complete: "workload_complete w \<Longrightarrow> \<exists>u. Workload_UID w = Inr u"
  by (auto simp: workload_complete_def Workload_UID_def Workload_Object_def kind_defs)

lemma GetWorkload_complete: "run_state (GetWorkload A k ns n) s = (Inr w, t) \<Longrightarrow> workload_complete w"
  using wp_run [OF GetWorkload_shape] by blast

lemma classify_run:
  assumes "st_InFlight (p_Status p) = Some f" and "minDuration < timeout" "timeout \<le> maxDuration"
    and r: "run_state (GetWorkload A (wr_Kind (sp_WorkloadRef (p_Spec p))) (p_Namespace p)
              (wr_Name (sp_WorkloadRef (p_Spec p)))) s = (r, t)"
  shows "run_state (classifyInFlight L A p now timeout) s =
    (Inr (if superseded L (p_Status p) f r then (OutcomeSuperseded, True)
          else if if_DispatchedAt f + timeout \<le> now then (OutcomeTimedOut, True) else ('''', False)), t)"
proof -
  have ge: "timeout \<le> time_Sub now (if_DispatchedAt f) \<longleftrightarrow> if_DispatchedAt f + timeout \<le> now"
    using time_Sub_ge_iff [OF assms(2,3), of now "if_DispatchedAt f"] by linarith
  show ?thesis
  proof (cases r)
    case (Inl e)
    then show ?thesis using assms(1) r
      by (simp add: classifyInFlight_def superseded_def timedOut_def ge)
  next
    case (Inr w)
    then obtain u where "Workload_UID w = Inr u"
      using Workload_UID_complete GetWorkload_complete r by blast
    then show ?thesis using assms(1) r Inr
      by (simp add: classifyInFlight_def superseded_def timedOut_def ge Let_def)
  qed
qed

lemma classify_wp:
  assumes "st_InFlight (p_Status p) = Some f" and "minDuration < timeout" "timeout \<le> maxDuration"
  shows "wp (classifyInFlight L A p now timeout) (\<lambda>c t. sy_Trace t = sy_Trace s \<and>
     (\<exists>out release. c = Inr (out, release) \<and> (release \<longrightarrow> out \<in> {OutcomeTimedOut, OutcomeSuperseded})
        \<and> (if_DispatchedAt f + timeout \<le> now \<longrightarrow> release))) s"
proof -
  obtain r t where r: "run_state (GetWorkload A (wr_Kind (sp_WorkloadRef (p_Spec p))) (p_Namespace p)
      (wr_Name (sp_WorkloadRef (p_Spec p)))) s = (r, t)" by fastforce
  have "sy_Trace t = sy_Trace s" using keeps_run [OF keeps_GetWorkload(3) r] .
  with classify_run [OF assms r, of L now] show ?thesis by (auto simp: wp_def)
qed

section \<open>Sweeping\<close>

definition policy_key :: "policy \<Rightarrow> string" where
  "policy_key p = WorkloadKey (wr_Kind (sp_WorkloadRef (p_Spec p))) (p_Namespace p) (wr_Name (sp_WorkloadRef (p_Spec p)))"

definition closed_in :: "lib \<Rightarrow> time \<Rightarrow> policy \<Rightarrow> 'w sys \<Rightarrow> bool" where
  "closed_in L now p t \<longleftrightarrow> (\<exists>q out. EUpdateStatus q True \<in> set (sy_Trace t)
     \<and> out \<in> {OutcomeTimedOut, OutcomeSuperseded} \<and> p_Status q = CompleteInFlight L (p_Status p) now out)"

definition stuck :: "policy \<Rightarrow> time \<Rightarrow> duration \<Rightarrow> bool" where
  "stuck p now timeout \<longleftrightarrow> (\<exists>f. st_InFlight (p_Status p) = Some f \<and> if_DispatchedAt f + timeout \<le> now)"

lemma closed_inI:
  "EUpdateStatus q True \<in> set (sy_Trace t) \<Longrightarrow> p_Status q = CompleteInFlight L (p_Status p) now out \<Longrightarrow>
   out = OutcomeTimedOut \<or> out = OutcomeSuperseded \<Longrightarrow> closed_in L now p t"
  unfolding closed_in_def by blast

lemma closed_in_mono: "closed_in L now p t \<Longrightarrow> set (sy_Trace t) \<subseteq> set (sy_Trace u) \<Longrightarrow> closed_in L now p u"
  by (auto simp: closed_in_def)

lemma Persist_grows: "wp (Persist A p) (\<lambda>(r, p') t. set (sy_Trace s) \<subseteq> set (sy_Trace t)
    \<and> (r = Inr () \<longrightarrow> (\<exists>q. EUpdateStatus q True \<in> set (sy_Trace t) \<and> p_Status q = p_Status p))) s"
  by (rule wp_mono [OF Persist_run]) (auto simp: persist_trace_def)

lemma sweep_loop_releases:
  fixes A :: "'w api"
  assumes "minDuration < timeout" "timeout \<le> maxDuration"
  shows "wp (sweep_loop L A now timeout keys ps) (\<lambda>(keys', err) t.
     set keys \<subseteq> set keys' \<and> set (sy_Trace s) \<subseteq> set (sy_Trace t)
     \<and> (err = None \<longrightarrow> (\<forall>p \<in> set ps. stuck p now timeout \<longrightarrow> policy_key p \<in> set keys' \<and> closed_in L now p t))) s"
proof (induction ps arbitrary: keys s)
  case (Cons p ps)
  show ?case
  proof (cases "st_InFlight (p_Status p)")
    case None
    then show ?thesis by (auto simp: stuck_def intro: wp_mono [OF Cons.IH])
  next
    case (Some f)
    define Q where "Q = (\<lambda>(keys'', err :: err option) (u :: 'w sys).
       set keys \<subseteq> set keys'' \<and> set (sy_Trace s) \<subseteq> set (sy_Trace u)
       \<and> (err = None \<longrightarrow> (\<forall>p \<in> set (p # ps). stuck p now timeout \<longrightarrow> policy_key p \<in> set keys'' \<and> closed_in L now p u)))"
    have step: "wp (sweep_loop L A now timeout keys' ps) Q t"
      if "set keys \<subseteq> set keys'" "set (sy_Trace s) \<subseteq> set (sy_Trace t)"
        "stuck p now timeout \<longrightarrow> policy_key p \<in> set keys' \<and> closed_in L now p t" for keys' t
      by (rule wp_mono [OF Cons.IH]) (use that closed_in_mono in \<open>auto simp: Q_def split: prod.splits\<close>)
    have stop: "Q (keys', Some e) t" if "set keys \<subseteq> set keys'" "set (sy_Trace s) \<subseteq> set (sy_Trace t)" for keys' e t
      using that by (simp add: Q_def)
    have persist: "wp (Persist A (p\<lparr>p_Status := CompleteInFlight L (p_Status p) now out\<rparr>))
        (\<lambda>r u. wp (case fst r of Inl e \<Rightarrow> ret (keys @ [policy_key p], Some e)
                   | Inr _ \<Rightarrow> sweep_loop L A now timeout (keys @ [policy_key p]) ps) Q u) t"
      if "sy_Trace t = sy_Trace s" "out \<in> {OutcomeTimedOut, OutcomeSuperseded}" for out t
      by (rule wp_mono [OF Persist_grows])
         (use that in \<open>auto split: sum.split intro!: stop step intro: closed_inI\<close>)
    have "wp (sweep_loop L A now timeout keys (p # ps)) Q s"
    proof -
      have "wp (classifyInFlight L A p now timeout) (\<lambda>c t. wp (case c of
            Inl e \<Rightarrow> ret (keys, Some e)
          | Inr (outcome, release) \<Rightarrow>
              if \<not> release then sweep_loop L A now timeout keys ps
              else do { r \<leftarrow> Persist A (p\<lparr>p_Status := CompleteInFlight L (p_Status p) now outcome\<rparr>);
                        case fst r of Inl e \<Rightarrow> ret (keys @ [policy_key p], Some e)
                        | Inr _ \<Rightarrow> sweep_loop L A now timeout (keys @ [policy_key p]) ps }) Q t) s"
        by (rule wp_mono [OF classify_wp [OF Some assms, of L A now s]])
           (auto intro!: step persist simp: stuck_def Some)
      then show ?thesis unfolding sweep_loop.simps policy_key_def Let_def by (simp add: Some)
    qed
    then show ?thesis unfolding Q_def .
  qed
qed simp

lemma keeps_sweep_loop [keeping]:
  "keeps sy_Gate (sweep_loop L A now timeout keys ps)" "keeps sy_Samples (sweep_loop L A now timeout keys ps)"
  by (induction ps arbitrary: keys)
     (auto simp: classifyInFlight_def Let_def intro!: keeping)

lemma keeps_SweepInFlight [keeping]:
  "keeps sy_Gate (SweepInFlight L A now timeout)" "keeps sy_Samples (SweepInFlight L A now timeout)"
  unfolding SweepInFlight_def by (intro keeping)+

section \<open>Properties\<close>

text \<open>
  What a persist writes. It makes one status write, or a second one after a conflict and never a
  third; every write carries the status it was given, also over a policy another writer changed in
  between; it reports success exactly when a write succeeded; slots and samples are untouched.
\<close>

theorem persist_writes_given_status:
  "wp (Persist A p) (\<lambda>(r, p') t. \<exists>es. sy_Trace t = es @ sy_Trace s
     \<and> es \<noteq> [] \<and> length es \<le> 2
     \<and> list_all (\<lambda>e. \<exists>q ok. e = EUpdateStatus q ok \<and> p_Status q = p_Status p) es
     \<and> is_ok r = list_ex (\<lambda>e. \<exists>q. e = EUpdateStatus q True) es
     \<and> sy_Gate t = sy_Gate s \<and> sy_Samples t = sy_Samples s) s"
proof -
  have "wp (Persist A p) (\<lambda>x t. sy_Gate t = sy_Gate s \<and> sy_Samples t = sy_Samples s) s"
    using keepsD [OF sw.persist_gate, of A p s] keepsD [OF sw.persist_samples, of A p s] by (rule wp_conj)
  from wp_conj [OF Persist_run this] show ?thesis
    by (rule wp_mono) (auto simp: persist_trace_def)
qed

text \<open>
  The sweep's verdict on an in-flight rollout, from the answer about its workload. It is superseded
  when the workload is gone, has another UID than the recorded one, or another template version than the
  dispatched one (neither being empty); otherwise it is timed out exactly when the timeout has passed
  since the dispatch, and kept until then. Whether the rollout has settled plays no part.
\<close>

theorem classify_verdict:
  assumes "st_InFlight (p_Status p) = Some f" and "0 \<le> timeout" "timeout \<le> maxDuration"
    and "run_state (GetWorkload A (wr_Kind (sp_WorkloadRef (p_Spec p))) (p_Namespace p)
           (wr_Name (sp_WorkloadRef (p_Spec p)))) s = (r, t)"
  shows "run_state (classifyInFlight L A p now timeout) s =
    (Inr (if superseded L (p_Status p) f r then (OutcomeSuperseded, True)
          else if if_DispatchedAt f + timeout \<le> now then (OutcomeTimedOut, True) else ('''', False)), t)"
  by (rule classify_run) (use assms in \<open>simp_all add: minDuration_def\<close>)

definition demo_spec :: policy_spec where
  "demo_spec = \<lparr>sp_WorkloadRef = \<lparr>wr_Kind = KindDeployment, wr_Name = ''web''\<rparr>,
     sp_Detection = \<lparr>ds_Mode = '''', ds_ThresholdPercent = 0, ds_ThresholdAbsolute = None, ds_Window = None,
       ds_TrendMinGrowth = None\<rparr>,
     sp_Cooldown = None, sp_StartupGrace = None, sp_RestartWindow = None, sp_MaxRestartsPerWindow = None,
     sp_DryRun = Some False, sp_Containers = [], sp_ContainerOverrides = [], sp_ProfileCapture = None,
     sp_PprofPath = '''', sp_MaintenanceWindows = [], sp_NotifyRoutes = [], sp_SlackChannel = ''''\<rparr>"

definition demo_policy :: "policy_status \<Rightarrow> policy" where
  "demo_policy st = \<lparr>p_Namespace = ''prod'', p_Name = ''web-policy'', p_ResourceVersion = ''1'',
     p_DeletionTimestamp = None, p_Finalizers = [''memreload.io/finalizer''], p_Spec = demo_spec, p_Status = st\<rparr>"

definition dispatched_status :: "time \<Rightarrow> policy_status" where
  "dispatched_status t = ApplyRestart demo_lib (empty_status\<lparr>st_WorkloadUID := ''u1''\<rparr>) demo_workload demo_cause t 100"

definition sweep_sys :: "time \<Rightarrow> cluster sys" where
  "sweep_sys t = demo_sys (demo_cluster (demo_deployment None) [demo_policy (dispatched_status t)]) (NewGate 1) (NewStore 60 10)"

lemma demo_get_workload:
  "run_state (GetWorkload demo_api KindDeployment ''prod'' ''web'') (sweep_sys t) = (Inr demo_workload, sweep_sys t)"
  by (simp add: GetWorkload_def call_def demo_api_def sweep_sys_def demo_sys_def demo_cluster_def as_found_def
      demo_deployment_def demo_workload_def bare_workload_def)

text \<open>A rollout that has settled, and that nobody completed, ends as timed out.\<close>

lemma classify_verdict_witness:
  "IsSettled demo_lib demo_workload = Inr True
   \<and> fst (run_state (classifyInFlight demo_lib demo_api (demo_policy (dispatched_status 0)) 900 900) (sweep_sys 0))
      = Inr (OutcomeTimedOut, True)"
proof -
  let ?f = "\<lparr>if_DispatchedAt = 0, if_DispatchedVersion = TemplateVersion demo_lib demo_workload, if_Phase = PhaseDispatched\<rparr>"
  have settled: "IsSettled demo_lib demo_workload = Inr True" by code_simp
  have st: "st_InFlight (p_Status (demo_policy (dispatched_status 0))) = Some ?f"
    "st_WorkloadUID (p_Status (demo_policy (dispatched_status 0))) = ''u1''"
    by (simp_all add: demo_policy_def dispatched_status_def ApplyRestart_fields)
  have uid: "Workload_UID demo_workload = Inr ''u1''" by code_simp
  have "\<not> superseded demo_lib (p_Status (demo_policy (dispatched_status 0))) ?f (Inr demo_workload)"
    using st uid by (simp add: superseded_def)
  then show ?thesis
    using settled classify_verdict [OF st(1), of 900 demo_api "sweep_sys 0" "Inr demo_workload" "sweep_sys 0" demo_lib 900]
      demo_get_workload by (simp add: demo_policy_def demo_spec_def maxDuration_def)
qed

end
