(* ===== verification/Expirer.thy ===== *)
theory Expirer
  imports StatusStore
begin

text \<open>
  \<open>cmd/expirer.go\<close>: the periodic release of in-flight slots. A tick expires the slots held for the timeout,
  sweeps the policies' in-flight markers and releases the slots of the ones it closed.
\<close>

section \<open>The expirer\<close>

record 'w expirer =
  ex_Lib :: lib
  ex_API :: "'w api"
  ex_State :: bool
  ex_Timeout :: duration
  ex_Interval :: duration

definition newExpirer :: "lib \<Rightarrow> 'w api \<Rightarrow> bool \<Rightarrow> duration \<Rightarrow> duration \<Rightarrow> 'w expirer" where
  "newExpirer L A state timeout interval =
     \<lparr>ex_Lib = L, ex_API = A, ex_State = state, ex_Timeout = timeout,
      ex_Interval = (if interval \<le> 0 then 30 * Second else interval)\<rparr>"

definition set_inflight :: "('w, unit) op" where
  "set_inflight = do { g \<leftarrow> get_gate; emit (EGauge ''memreload_inflight_rollouts'' [] (int (Inflight g))) }"

fun release_keys :: "string list \<Rightarrow> ('w, unit) op" where
  "release_keys [] = ret ()"
| "release_keys (k # ks) = do { g \<leftarrow> get_gate; put_gate (Release g k); release_keys ks }"

definition expire_slots :: "'w expirer \<Rightarrow> time \<Rightarrow> ('w, unit) op" where
  "expire_slots E now = do {
     g \<leftarrow> get_gate;
     case ExpireOlderThan g now (ex_Timeout E) of (released, g') \<Rightarrow> do {
       put_gate g';
       if fcard released > 0 then do { emit (ELog ''released stuck in-flight rollout slots''); set_inflight }
       else ret () } }"

definition sweep_slots :: "'w expirer \<Rightarrow> time \<Rightarrow> ('w, err option) op" where
  "sweep_slots E now = do {
     r \<leftarrow> SweepInFlight (ex_Lib E) (ex_API E) now (ex_Timeout E);
     case r of (keys, err) \<Rightarrow> do {
       _ \<leftarrow> (if err \<noteq> None then emit (ELog ''sweep in-flight policy status failed (non-fatal)'') else ret ());
       release_keys keys;
       _ \<leftarrow> (if length keys > 0 then set_inflight else ret ());
       ret err } }"

text \<open>One tick; its value is the error the sweep logged, if any.\<close>

definition expire_tick :: "'w expirer \<Rightarrow> time \<Rightarrow> ('w, err option) op" where
  "expire_tick E now = do {
     expire_slots E now;
     if ex_State E then sweep_slots E now else ret None }"

text \<open>\<open>Start\<close>: one tick for each time the ticker delivers before the context ends.\<close>

fun expirer_Start :: "'w expirer \<Rightarrow> time list \<Rightarrow> ('w, unit) op" where
  "expirer_Start E [] = ret ()"
| "expirer_Start E (now # nows) = do { _ \<leftarrow> expire_tick E now; expirer_Start E nows }"

section \<open>Lemmas\<close>

lemma release_keys_wp:
  "wp (release_keys ks) Q s = Q () (s\<lparr>sy_Gate := foldl Release (sy_Gate s) ks\<rparr>)"
  by (induction ks arbitrary: s) simp_all

lemma Release_lookup [simp]:
  "fmlookup (g_inflight (foldl Release g ks)) k = (if k \<in> set ks then None else fmlookup (g_inflight g) k)"
  by (induction ks arbitrary: g) (auto simp: Release_def)

lemma releases_cap [simp]: "g_cap (foldl Release g ks) = g_cap g"
  by (induction ks arbitrary: g) simp_all

lemma expire_slots_run:
  "wp (expire_slots E now) (\<lambda>_ t. sy_World t = sy_World s
     \<and> sy_Gate t = snd (ExpireOlderThan (sy_Gate s) now (ex_Timeout E)) \<and> set (sy_Trace s) \<subseteq> set (sy_Trace t)) s"
  by (auto simp: expire_slots_def set_inflight_def split: prod.split)

lemma ExpireOlderThan_lookup:
  assumes "minDuration < timeout" "timeout \<le> maxDuration"
  shows "fmlookup (g_inflight (snd (ExpireOlderThan g now timeout))) k =
    (case fmlookup (g_inflight g) k of None \<Rightarrow> None | Some t \<Rightarrow> if now - t \<ge> timeout then None else Some t)"
  by (auto simp: ExpireOlderThan_def Let_def time_Sub_ge_iff [OF assms] split: option.splits)

lemma sweep_run:
  assumes "minDuration < timeout" "timeout \<le> maxDuration"
    and "fst (a_ListPolicies A '''' (sy_World s)) = Inr items"
  shows "wp (SweepInFlight L A now timeout) (\<lambda>(keys, err) t. sy_Gate t = sy_Gate s
     \<and> (err = None \<longrightarrow> (\<forall>p \<in> set items. stuck p now timeout \<longrightarrow> policy_key p \<in> set keys \<and> closed_in L now p t))) s"
proof -
  obtain w where w: "a_ListPolicies A '''' (sy_World s) = (Inr items, w)"
    using assms(3) by (cases "a_ListPolicies A '''' (sy_World s)") auto
  have "wp (sweep_loop L A now timeout [] items) (\<lambda>(keys, err) t. sy_Gate t = sy_Gate s
     \<and> (err = None \<longrightarrow> (\<forall>p \<in> set items. stuck p now timeout \<longrightarrow> policy_key p \<in> set keys \<and> closed_in L now p t)))
     (s\<lparr>sy_World := w\<rparr>)"
    by (rule wp_mono [OF wp_conj [OF keepsD [OF keeps_sweep_loop(1)] sweep_loop_releases [OF assms(1,2)]]]) auto
  then show ?thesis by (simp add: SweepInFlight_def w)
qed

lemma sweep_slots_run:
  assumes "minDuration < ex_Timeout E" "ex_Timeout E \<le> maxDuration"
    and "fst (a_ListPolicies (ex_API E) '''' (sy_World s)) = Inr items"
  shows "wp (sweep_slots E now) (\<lambda>err t. \<exists>keys. sy_Gate t = foldl Release (sy_Gate s) keys
     \<and> (err = None \<longrightarrow> (\<forall>p \<in> set items. stuck p now (ex_Timeout E) \<longrightarrow>
          policy_key p \<in> set keys \<and> closed_in (ex_Lib E) now p t))) s"
proof -
  have keep: "closed_in L now p t \<Longrightarrow> set (sy_Trace t) \<subseteq> set (sy_Trace u) \<Longrightarrow> closed_in L now p u" for L p t and u :: "'a sys"
    by (rule closed_in_mono)
  show ?thesis
    unfolding sweep_slots_def wp_bind [of "SweepInFlight _ _ _ _"]
  proof (rule wp_mono [OF sweep_run [OF assms]], clarify)
    fix keys err and t :: "'a sys"
    assume g: "sy_Gate t = sy_Gate s"
      and c: "err = None \<longrightarrow> (\<forall>p \<in> set items. stuck p now (ex_Timeout E) \<longrightarrow>
        policy_key p \<in> set keys \<and> closed_in (ex_Lib E) now p t)"
    show "wp (do {
        _ \<leftarrow> (if err \<noteq> None then emit (ELog ''sweep in-flight policy status failed (non-fatal)'') else ret ());
        release_keys keys;
        _ \<leftarrow> (if length keys > 0 then set_inflight else ret ());
        ret err }) (\<lambda>err t. \<exists>keys. sy_Gate t = foldl Release (sy_Gate s) keys
     \<and> (err = None \<longrightarrow> (\<forall>p \<in> set items. stuck p now (ex_Timeout E) \<longrightarrow>
          policy_key p \<in> set keys \<and> closed_in (ex_Lib E) now p t))) t"
      using g c by (auto simp: release_keys_wp set_inflight_def intro!: exI [of _ keys] intro: keep)
  qed
qed

section \<open>Properties\<close>

text \<open>
  C14: nothing stays stuck. After a tick of the expirer every slot still held was held before with the same
  acquire time and is younger than the timeout. If the tick's sweep met no error, then for every policy
  with an in-flight rollout dispatched at least the timeout ago the slot of its workload is free and a
  status that closes the rollout, as timed out or superseded, was written.
\<close>

theorem expirer_frees_stuck:
  assumes "0 \<le> ex_Timeout E" "ex_Timeout E \<le> maxDuration" "ex_State E"
    and "fst (a_ListPolicies (ex_API E) '''' (sy_World s)) = Inr items"
  shows "wp (expire_tick E now) (\<lambda>err t.
     (\<forall>k t0. fmlookup (g_inflight (sy_Gate t)) k = Some t0 \<longrightarrow>
        fmlookup (g_inflight (sy_Gate s)) k = Some t0 \<and> now - t0 < ex_Timeout E)
     \<and> g_cap (sy_Gate t) = g_cap (sy_Gate s)
     \<and> (err = None \<longrightarrow> (\<forall>p \<in> set items. \<forall>f. st_InFlight (p_Status p) = Some f \<and> if_DispatchedAt f + ex_Timeout E \<le> now \<longrightarrow>
          \<not> Holds (sy_Gate t) (WorkloadKey (wr_Kind (sp_WorkloadRef (p_Spec p))) (p_Namespace p) (wr_Name (sp_WorkloadRef (p_Spec p))))
          \<and> (\<exists>q out. EUpdateStatus q True \<in> set (sy_Trace t) \<and> out \<in> {OutcomeTimedOut, OutcomeSuperseded}
              \<and> p_Status q = CompleteInFlight (ex_Lib E) (p_Status p) now out)))) s"
proof -
  have to: "minDuration < ex_Timeout E" using assms(1) by (simp add: minDuration_def)
  have "wp (sweep_slots E now) (\<lambda>err t. \<exists>keys. sy_Gate t = foldl Release g keys
     \<and> (err = None \<longrightarrow> (\<forall>p \<in> set items. stuck p now (ex_Timeout E) \<longrightarrow>
          policy_key p \<in> set keys \<and> closed_in (ex_Lib E) now p t))) u"
    if "sy_World u = sy_World s \<and> sy_Gate u = g \<and> x" for u :: "'a sys" and g x
    using sweep_slots_run [OF to assms(2), of u] assms(4) that by simp
  then have "wp (expire_tick E now) (\<lambda>err t. \<exists>keys.
      sy_Gate t = foldl Release (snd (ExpireOlderThan (sy_Gate s) now (ex_Timeout E))) keys
     \<and> (err = None \<longrightarrow> (\<forall>p \<in> set items. stuck p now (ex_Timeout E) \<longrightarrow>
          policy_key p \<in> set keys \<and> closed_in (ex_Lib E) now p t))) s"
    unfolding expire_tick_def wp_bind using assms(3) by (intro wp_mono [OF expire_slots_run]) (simp only: if_True)
  then show ?thesis
    unfolding policy_key_def [symmetric] closed_in_def [symmetric]
    by (rule wp_mono)
       (auto simp: ExpireOlderThan_lookup [OF to assms(2)] Holds_iff stuck_def split: option.splits if_splits)
qed

lemma expirer_frees_stuck_witness:
  "wp (expire_tick (newExpirer demo_lib demo_api True 900 0) 900)
     (\<lambda>err t. err = None \<longrightarrow> \<not> Holds (sy_Gate t) ''Deployment/prod/web'')
     ((sweep_sys 0)\<lparr>sy_Gate := snd (TryAcquire (NewGate 1) ''Deployment/prod/web'' 0)\<rparr>)"
proof -
  let ?s = "(sweep_sys 0)\<lparr>sy_Gate := snd (TryAcquire (NewGate 1) ''Deployment/prod/web'' 0)\<rparr>"
  let ?E = "newExpirer demo_lib demo_api True 900 0" and ?p = "demo_policy (dispatched_status 0)"
  have E: "0 \<le> ex_Timeout ?E" "ex_Timeout ?E \<le> maxDuration" "ex_State ?E"
    by (simp_all add: newExpirer_def maxDuration_def)
  have l: "fst (a_ListPolicies (ex_API ?E) '''' (sy_World ?s)) = Inr [?p]"
    by (simp add: newExpirer_def demo_api_def sweep_sys_def demo_sys_def demo_cluster_def)
  have k: "WorkloadKey (wr_Kind (sp_WorkloadRef (p_Spec ?p))) (p_Namespace ?p) (wr_Name (sp_WorkloadRef (p_Spec ?p))) = ''Deployment/prod/web''"
    by (simp add: demo_policy_def demo_spec_def WorkloadKey_def kind_defs)
  have f: "st_InFlight (p_Status ?p) = Some \<lparr>if_DispatchedAt = 0, if_DispatchedVersion = TemplateVersion demo_lib demo_workload, if_Phase = PhaseDispatched\<rparr>"
    by (simp add: demo_policy_def dispatched_status_def ApplyRestart_fields)
  have t: "ex_Timeout ?E = 900" by (simp add: newExpirer_def)
  show ?thesis
    by (rule wp_mono [OF expirer_frees_stuck [OF E l]]) (use k f t in auto)
qed


end
