(* ===== verification/Profile.thy ===== *)
theory Profile
  imports Demo
begin

text \<open>
  \<open>internal/profile\<close>: fetching a heap profile from a pod and storing it in a sink. The network, the file
  system and the object store are the platform's; \<open>a_WriteFile\<close> stands for creating the directories of a
  path and writing the file.
\<close>

section \<open>Sinks\<close>

text \<open>An object store sink with its uploader, of which the code only knows the scheme; \<open>None\<close> is nil.\<close>

datatype profile_sink =
    LogSink
  | VolumeSink string
  | ObjectStoreSink "string option" string string

fun psink_Name :: "profile_sink \<Rightarrow> string" where
  "psink_Name LogSink = ''log''"
| "psink_Name (VolumeSink d) = ''volume''"
| "psink_Name (ObjectStoreSink u b p) = ''objectstore''"

text \<open>\<open>filepath.Clean\<close> on the slash-separated parts: the parts kept so far are newest first.\<close>

fun clean_parts :: "bool \<Rightarrow> string list \<Rightarrow> string list \<Rightarrow> string list" where
  "clean_parts rooted out [] = rev out"
| "clean_parts rooted out (x # xs) =
     (if x = '''' \<or> x = ''.'' then clean_parts rooted out xs
      else if x = ''..'' then
        (case out of
           [] \<Rightarrow> clean_parts rooted (if rooted then [] else [''..'']) xs
         | y # ys \<Rightarrow> if y = ''..'' then clean_parts rooted (''..'' # out) xs else clean_parts rooted ys xs)
      else clean_parts rooted (x # out) xs)"

definition path_Clean :: "string \<Rightarrow> string" where
  "path_Clean p =
     (let rooted = (p \<noteq> [] \<and> hd p = CHR ''/'');
          s = Join ''/'' (clean_parts rooted [] (Split (CHR ''/'') p))
      in if rooted then CHR ''/'' # s else if s = '''' then ''.'' else s)"

definition path_Join :: "string \<Rightarrow> string \<Rightarrow> string" where
  "path_Join a b =
     (if a = '''' \<and> b = '''' then '''' else path_Clean (Join ''/'' (filter (\<lambda>x. x \<noteq> '''') [a, b])))"

definition object_key :: "string \<Rightarrow> string \<Rightarrow> string" where
  "object_key prefix key =
     (let full = TrimSuffix prefix ''/''
      in (if full \<noteq> '''' then full @ ''/'' else full) @ key)"

definition log_Put :: "nat list \<Rightarrow> ('w, string result) op" where
  "log_Put data = ret (Inr (''data:application/octet-stream;base64,'' @ base64_encode data))"

definition volume_Put :: "'w api \<Rightarrow> string \<Rightarrow> string \<Rightarrow> nat list \<Rightarrow> ('w, string result) op" where
  "volume_Put A dir key data =
     (let path = path_Join dir key
      in do { emit (EStore path (length data));
              r \<leftarrow> call (a_WriteFile A path data);
              ret (case r of Inl e \<Rightarrow> Inl e | Inr _ \<Rightarrow> Inr (''file://'' @ path)) })"

definition objectstore_Put ::
  "'w api \<Rightarrow> string option \<Rightarrow> string \<Rightarrow> string \<Rightarrow> string \<Rightarrow> nat list \<Rightarrow> ('w, string result) op" where
  "objectstore_Put A uploader bucket prefix key data =
     (case uploader of
        None \<Rightarrow> ret (Inl (ErrMsg ''object store uploader not configured''))
      | Some scheme \<Rightarrow>
          let full = object_key prefix key
          in do { emit (EStore full (length data));
                  r \<leftarrow> call (a_Upload A bucket full data);
                  ret (case r of Inl e \<Rightarrow> Inl e
                       | Inr _ \<Rightarrow> Inr (scheme @ ''://'' @ bucket @ ''/'' @ full)) })"

fun sink_Put :: "'w api \<Rightarrow> profile_sink \<Rightarrow> string \<Rightarrow> nat list \<Rightarrow> ('w, string result) op" where
  "sink_Put A LogSink key data = log_Put data"
| "sink_Put A (VolumeSink dir) key data = volume_Put A dir key data"
| "sink_Put A (ObjectStoreSink uploader bucket prefix) key data = objectstore_Put A uploader bucket prefix key data"

lemmas put_defs = log_Put_def volume_Put_def objectstore_Put_def

record sink_config =
  sc_Type :: string
  sc_VolumeDir :: string
  sc_Provider :: string
  sc_Bucket :: string
  sc_Prefix :: string
  sc_Region :: string

text \<open>\<open>aws\<close> is the outcome of loading the AWS configuration for a region.\<close>

definition NewS3Uploader :: "(string \<Rightarrow> unit result) \<Rightarrow> string \<Rightarrow> string result" where
  "NewS3Uploader aws region = (case aws region of
      Inl e \<Rightarrow> Inl (ErrWrap ''load AWS config'' e)
    | Inr _ \<Rightarrow> Inr ''s3'')"

definition NewSink :: "(string \<Rightarrow> unit result) \<Rightarrow> sink_config \<Rightarrow> profile_sink result" where
  "NewSink aws cfg =
     (if sc_Type cfg = ''log'' then Inr LogSink
      else if sc_Type cfg = ''volume'' then
        (if sc_VolumeDir cfg = '''' then Inl (ErrMsg ''volume sink requires a mount path'')
         else Inr (VolumeSink (sc_VolumeDir cfg)))
      else if sc_Type cfg = ''objectstore'' \<or> sc_Type cfg = '''' then
        (if sc_Bucket cfg = '''' then Inl (ErrMsg ''objectstore sink requires a bucket'')
         else if sc_Provider cfg = ''s3'' \<or> sc_Provider cfg = '''' then
           (case NewS3Uploader aws (sc_Region cfg) of
              Inl e \<Rightarrow> Inl e
            | Inr up \<Rightarrow> Inr (ObjectStoreSink (Some up) (sc_Bucket cfg) (sc_Prefix cfg)))
         else if sc_Provider cfg = ''gcs'' \<or> sc_Provider cfg = ''azblob'' then
           Inl (ErrMsg (''object store provider '' @ quote (sc_Provider cfg) @ '' not yet implemented''))
         else Inl (ErrMsg (''unknown object store provider '' @ quote (sc_Provider cfg))))
      else Inl (ErrMsg (''unknown profile sink type '' @ quote (sc_Type cfg))))"

section \<open>The capturer\<close>

record capturer =
  cp_Port :: int
  cp_Timeout :: duration
  cp_Sink :: profile_sink

definition NewCapturer :: "profile_sink \<Rightarrow> int \<Rightarrow> duration \<Rightarrow> capturer" where
  "NewCapturer sink port timeout =
     \<lparr>cp_Port = (if port = 0 then 6060 else port),
      cp_Timeout = (if timeout = 0 then 10 * Second else timeout), cp_Sink = sink\<rparr>"

record capture_result =
  cr_URI :: string
  cr_Size :: nat

definition maxProfileBytes :: nat where "maxProfileBytes = 33554432"

definition Capture :: "'w api \<Rightarrow> capturer \<Rightarrow> string \<Rightarrow> string \<Rightarrow> string \<Rightarrow> ('w, capture_result result) op" where
  "Capture A c podIP path key =
     (if podIP = '''' then ret (Inl (ErrMsg ''pod has no IP yet''))
      else let url = ''http://'' @ podIP @ '':'' @ itoa (cp_Port c) @ path
           in do {
             r \<leftarrow> http_do A \<lparr>hq_Method = ''GET'', hq_URL = url, hq_Headers = [], hq_Body = None\<rparr>;
             case r of
               Inl e \<Rightarrow> ret (Inl (ErrWrap (''fetch pprof '' @ url) e))
             | Inr resp \<Rightarrow>
                 if hr_StatusCode resp \<noteq> 200
                 then ret (Inl (ErrMsg (''pprof '' @ url @ '' returned HTTP '' @ itoa (hr_StatusCode resp))))
                 else (case hr_Bytes resp of
                     Inl e \<Rightarrow> ret (Inl (ErrWrap ''read pprof body'' e))
                   | Inr body \<Rightarrow>
                       let data = take maxProfileBytes body
                       in do {
                         u \<leftarrow> sink_Put A (cp_Sink c) key data;
                         ret (case u of
                                Inl e \<Rightarrow> Inl (ErrWrap (''write profile to '' @ psink_Name (cp_Sink c)) e)
                              | Inr uri \<Rightarrow> Inr \<lparr>cr_URI = uri, cr_Size = length data\<rparr>) }) })"

section \<open>Lemmas\<close>

lemma keeps_sink_Put [keeping]: "keeps sy_Gate (sink_Put A k key data)" "keeps sy_Samples (sink_Put A k key data)"
  by (cases k; auto simp: put_defs Let_def intro!: keeping split: option.split)+

lemma keeps_Capture [keeping]: "keeps sy_Gate (Capture A c ip path key)" "keeps sy_Samples (Capture A c ip path key)"
  unfolding Capture_def http_do_def by (intro keeping)+

text \<open>A capture asks the network and stores at most the bound.\<close>

definition capture_effect :: "effect \<Rightarrow> bool" where
  "capture_effect e \<longleftrightarrow> (case e of EHTTP q \<Rightarrow> hq_Method q = ''GET'' | EStore k n \<Rightarrow> n \<le> maxProfileBytes | _ \<Rightarrow> False)"

lemma adds_sink_Put:
  "length data \<le> maxProfileBytes \<Longrightarrow> adds capture_effect (sink_Put A k key data)"
  by (cases k) (auto simp: put_defs Let_def capture_effect_def intro!: adding split: option.split)

lemma adds_Capture [adding]: "adds capture_effect (Capture A c ip path key)"
  unfolding Capture_def http_do_def
  by (auto simp: capture_effect_def Let_def intro!: adding adds_sink_Put)

section \<open>Where profiles go\<close>

lemma path_Join_plain:
  "path_Join ''/var/run/memreload/profiles'' ''prod/web-1/app/20240229T123456Z.pb.gz''
   = ''/var/run/memreload/profiles/prod/web-1/app/20240229T123456Z.pb.gz''"
  by code_simp

lemma object_key_ends: "\<exists>p. object_key prefix key = p @ key \<and> (p = '''' \<or> last p = CHR ''/'')"
  by (auto simp: object_key_def Let_def)

text \<open>
  A capture is bounded and cannot disturb the controller. It makes only a GET request to the pod and a
  write of at most 32 MiB, whatever the endpoint sends, and none at all for a pod without an address; the
  reported size is that of what was stored, and slots and samples are untouched.
\<close>

theorem capture_bounded:
  "wp (Capture A c podIP path key) (\<lambda>r t. \<exists>es. sy_Trace t = es @ sy_Trace s
     \<and> list_all capture_effect es \<and> (podIP = '''' \<and> es = [] \<and> \<not> is_ok r \<or> podIP \<noteq> '''')
     \<and> (case r of Inl e \<Rightarrow> True | Inr res \<Rightarrow> cr_Size res \<le> maxProfileBytes)
     \<and> sy_Gate t = sy_Gate s \<and> sy_Samples t = sy_Samples s) s"
proof -
  have g: "wp (Capture A c podIP path key) (\<lambda>r t. sy_Gate t = sy_Gate s \<and> sy_Samples t = sy_Samples s) s"
    using keepsD [OF keeps_Capture(1)] keepsD [OF keeps_Capture(2)] by (rule wp_conj)
  show ?thesis
  proof (cases "podIP = ''''")
    case True
    then show ?thesis by (simp add: Capture_def)
  next
    case False
    have size: "wp (Capture A c podIP path key)
        (\<lambda>r t. case r of Inl e \<Rightarrow> True | Inr res \<Rightarrow> cr_Size res \<le> maxProfileBytes) s"
      unfolding Capture_def http_do_def Let_def
      by (auto split: prod.splits sum.splits simp: wp_def)
    from wp_conj [OF wp_conj [OF addsD [OF adds_Capture] size] g] show ?thesis
      by (rule wp_mono) (use False in blast)
  qed
qed

end
