(* ===== verification/Detector.thy ===== *)
theory Detector
  imports Config GoFloat SampleStore
begin

text \<open>
  \<open>internal/sampling/detect.go\<close>: the leak detectors over a series. The regression is written once over
  a rounding function \<open>r\<close>; the program is the instance \<open>r = rnd64\<close>, exact arithmetic the instance
  \<open>r = id\<close>. Products of int64 values wrap as Go's do. Multiplications and additions are rounded
  separately, as on targets without fused multiply-add.
\<close>

section \<open>The code\<close>

record detect_result =
  res_Leaking :: bool
  res_Reason :: string
  res_Observed :: int
  res_Threshold :: int

definition exceeds :: "sample \<Rightarrow> detection \<Rightarrow> bool" where
  "exceeds s d = (case d_ThresholdAbsolute d of
      Some q \<Rightarrow> s_WorkingSet s \<ge> q_Value q
    | None \<Rightarrow> if s_Limit s > 0
              then i64 (s_WorkingSet s * 100) \<ge> i64 (s_Limit s * d_ThresholdPercent d)
              else False)"

definition thresholdBytes :: "sample \<Rightarrow> detection \<Rightarrow> int" where
  "thresholdBytes s d = (case d_ThresholdAbsolute d of
      Some q \<Rightarrow> q_Value q
    | None \<Rightarrow> if s_Limit s > 0 then go_div (i64 (s_Limit s * d_ThresholdPercent d)) 100 else 0)"

definition WindowSamples :: "sample list \<Rightarrow> duration \<Rightarrow> time \<Rightarrow> sample list" where
  "WindowSamples samples window now =
     (let cutoff = time_Add now (dur_neg window)
      in filter (\<lambda>s. \<not> time_Before (s_Time s) cutoff) samples)"

definition WindowCovered :: "sample list \<Rightarrow> duration \<Rightarrow> time \<Rightarrow> bool" where
  "WindowCovered samples window now =
     (if length samples < 2 then False
      else \<not> time_After (s_Time (samples ! 0)) (time_Add now (dur_neg window)))"

fun allExceed :: "sample list \<Rightarrow> detection \<Rightarrow> bool" where
  "allExceed [] d = True"
| "allExceed (s # win) d = (if \<not> exceeds s d then False else allExceed win d)"

definition ols_step :: "(rat \<Rightarrow> rat) \<Rightarrow> time \<Rightarrow> sample \<Rightarrow> rat \<times> rat \<times> rat \<times> rat \<Rightarrow> rat \<times> rat \<times> rat \<times> rat" where
  "ols_step r t0 s acc = (case acc of (sumX, sumY, sumXY, sumXX) \<Rightarrow>
     let x = dur_Seconds r (time_Sub (s_Time s) t0); y = r (of_int (s_WorkingSet s))
     in (r (sumX + x), r (sumY + y), r (sumXY + r (x * y)), r (sumXX + r (x * x))))"

definition ols_slope :: "(rat \<Rightarrow> rat) \<Rightarrow> sample list \<Rightarrow> rat option" where
  "ols_slope r win =
     (let n = r (of_int (int (length win)))
      in if n < 2 then None
         else (case fold (ols_step r (s_Time (win ! 0))) win (0, 0, 0, 0) of (sumX, sumY, sumXY, sumXX) \<Rightarrow>
            let denom = r (r (n * sumXX) - r (sumX * sumX))
            in if denom = 0 then None else Some (r (r (r (n * sumXY) - r (sumX * sumY)) / denom))))"

definition olsSlope :: "sample list \<Rightarrow> rat option" where
  "olsSlope win = ols_slope rnd64 win"

definition trendLeaking :: "sample list \<Rightarrow> detection \<Rightarrow> bool \<times> int" where
  "trendLeaking win d = (case olsSlope win of
      None \<Rightarrow> (False, 0)
    | Some slope \<Rightarrow>
        if slope \<le> 0 then (False, 0)
        else let projected = i64_of_f64 (rnd64 (slope * dur_Seconds rnd64 (d_Window d)))
             in (projected \<ge> q_Value (d_TrendMinGrowth d), projected))"

definition trendReason :: "int \<Rightarrow> detection \<Rightarrow> string" where
  "trendReason projected d =
     ''working set trending upward (projected growth over window exceeds ''
     @ q_String (d_TrendMinGrowth d) @ '')''"

definition Detect :: "sample list \<Rightarrow> detection \<Rightarrow> time \<Rightarrow> detect_result" where
  "Detect samples d now =
     (if length samples = 0
      then \<lparr>res_Leaking = False, res_Reason = '''', res_Observed = 0, res_Threshold = 0\<rparr>
      else let lst = samples ! (length samples - 1);
               res = \<lparr>res_Leaking = False, res_Reason = '''', res_Observed = s_WorkingSet lst,
                      res_Threshold = thresholdBytes lst d\<rparr>
           in if \<not> WindowCovered samples (d_Window d) now then res
              else let win = WindowSamples samples (d_Window d) now
                   in if length win < 2 then res
                      else let sustained = allExceed win d;
                               (leakingTrend, projected) = trendLeaking win d
                           in if d_Mode d = ModeSustained then
                                (if sustained then res\<lparr>res_Leaking := True,
                                   res_Reason := ''working set stayed above threshold for the full window''\<rparr>
                                 else res)
                              else if d_Mode d = ModeTrend then
                                (if leakingTrend then res\<lparr>res_Leaking := True,
                                   res_Reason := trendReason projected d\<rparr> else res)
                              else if d_Mode d = ModeCombined then
                                (if sustained \<and> leakingTrend then res\<lparr>res_Leaking := True,
                                   res_Reason := ''working set sustained above threshold and trending upward''\<rparr>
                                 else res)
                              else res)"

section \<open>Lemmas on the window and the threshold\<close>

lemma allExceed_iff: "allExceed win d \<longleftrightarrow> (\<forall>s \<in> set win. exceeds s d)"
  by (induction win) auto

lemma WindowSamples_set:
  "0 \<le> w \<Longrightarrow> w \<le> maxDuration \<Longrightarrow> set (WindowSamples xs w now) = {s \<in> set xs. now - w \<le> s_Time s}"
  by (auto simp: WindowSamples_def)

lemma WindowCovered_iff:
  assumes "times_sorted xs" and "0 \<le> w" and "w \<le> maxDuration"
  shows "WindowCovered xs w now \<longleftrightarrow> 2 \<le> length xs \<and> (\<exists>s \<in> set xs. s_Time s \<le> now - w)"
proof (cases xs)
  case (Cons x ys)
  have "\<forall>s \<in> set ys. s_Time x \<le> s_Time s" using assms(1) Cons by (auto simp: times_sorted_def)
  then have "(\<exists>s \<in> set xs. s_Time s \<le> now - w) \<longleftrightarrow> s_Time x \<le> now - w" using Cons by force
  then show ?thesis using assms(2,3) Cons by (cases ys) (auto simp: WindowCovered_def)
qed (simp add: WindowCovered_def)

lemma Detect_Leaking_iff:
  "res_Leaking (Detect samples d now) \<longleftrightarrow>
     WindowCovered samples (d_Window d) now \<and> 2 \<le> length (WindowSamples samples (d_Window d) now)
     \<and> (d_Mode d = ModeSustained \<and> allExceed (WindowSamples samples (d_Window d) now) d
        \<or> d_Mode d = ModeTrend \<and> fst (trendLeaking (WindowSamples samples (d_Window d) now) d)
        \<or> d_Mode d = ModeCombined \<and> allExceed (WindowSamples samples (d_Window d) now) d
           \<and> fst (trendLeaking (WindowSamples samples (d_Window d) now) d))"
  by (auto simp: Detect_def Let_def WindowCovered_def mode_defs split: prod.splits)

text \<open>The threshold as the documentation states it, in exact arithmetic.\<close>

definition over_threshold :: "sample \<Rightarrow> detection \<Rightarrow> bool" where
  "over_threshold s d = (case d_ThresholdAbsolute d of
      Some q \<Rightarrow> s_WorkingSet s \<ge> q_Value q
    | None \<Rightarrow> s_Limit s > 0 \<and> (of_int (s_WorkingSet s) :: rat) / of_int (s_Limit s) \<ge> of_int (d_ThresholdPercent d) / 100)"

text \<open>Values whose hundredfold is an int64: below 92 petabytes, and a percentage up to 100.\<close>

definition small_sample :: "sample \<Rightarrow> bool" where
  "small_sample s \<longleftrightarrow> 0 \<le> s_WorkingSet s \<and> s_WorkingSet s \<le> 92233720368547758
     \<and> s_Limit s \<le> 92233720368547758"

lemma exceeds_exact:
  assumes "small_sample s" and "0 \<le> d_ThresholdPercent d" and "d_ThresholdPercent d \<le> 100"
  shows "exceeds s d \<longleftrightarrow> over_threshold s d"
proof (cases "d_ThresholdAbsolute d = None \<and> s_Limit s > 0")
  case True
  have a: "in_i64 (s_WorkingSet s * 100)" using assms(1) by (simp add: in_i64_def small_sample_def)
  have "0 \<le> s_Limit s * d_ThresholdPercent d" using True assms(2) by simp
  moreover have "s_Limit s * d_ThresholdPercent d \<le> 92233720368547758 * 100"
    using assms True by (intro mult_mono) (auto simp: small_sample_def)
  ultimately have b: "in_i64 (s_Limit s * d_ThresholdPercent d)" by (simp add: in_i64_def)
  have "(of_int (s_WorkingSet s) :: rat) / of_int (s_Limit s) \<ge> of_int (d_ThresholdPercent d) / 100
    \<longleftrightarrow> of_int (s_Limit s * d_ThresholdPercent d) \<le> (of_int (s_WorkingSet s * 100) :: rat)"
    using True by (simp add: field_simps)
  then show ?thesis using True a b by (simp add: exceeds_def over_threshold_def del: of_int_mult)
qed (auto simp: exceeds_def over_threshold_def split: option.splits)

section \<open>The regression\<close>

definition sec_of :: "time \<Rightarrow> sample \<Rightarrow> int" where
  "sec_of t0 s = (s_Time s - t0) div Second"

text \<open>
  A series on which every intermediate of the regression is an integer of at most 53 bits: whole
  seconds from the first sample, non-negative working sets, and the four scaled sums in range.
\<close>

definition exact_series :: "sample list \<Rightarrow> bool" where
  "exact_series win \<longleftrightarrow> win \<noteq> [] \<and>
     (let t0 = s_Time (win ! 0); n = int (length win)
      in (\<forall>s \<in> set win. t0 \<le> s_Time s \<and> s_Time s - t0 \<le> maxDuration
             \<and> (s_Time s - t0) mod Second = 0 \<and> 0 \<le> s_WorkingSet s)
       \<and> n * (\<Sum>s\<leftarrow>win. sec_of t0 s * s_WorkingSet s) \<le> 2 ^ 53
       \<and> (\<Sum>s\<leftarrow>win. sec_of t0 s) * (\<Sum>s\<leftarrow>win. s_WorkingSet s) \<le> 2 ^ 53
       \<and> n * (\<Sum>s\<leftarrow>win. sec_of t0 s * sec_of t0 s) \<le> 2 ^ 53
       \<and> (\<Sum>s\<leftarrow>win. sec_of t0 s) * (\<Sum>s\<leftarrow>win. sec_of t0 s) \<le> 2 ^ 53
       \<and> (\<Sum>s\<leftarrow>win. sec_of t0 s) \<le> 2 ^ 53 \<and> (\<Sum>s\<leftarrow>win. s_WorkingSet s) \<le> 2 ^ 53
       \<and> n \<le> 2 ^ 53)"

text \<open>A rounding that is exact on the integers of at most 53 bits; both instances are.\<close>

definition int_exact :: "(rat \<Rightarrow> rat) \<Rightarrow> bool" where
  "int_exact r \<longleftrightarrow> (\<forall>n. \<bar>n\<bar> \<le> 2 ^ 53 \<longrightarrow> r (of_int n) = of_int n)"

lemma int_exact_rnd64: "int_exact rnd64"
  by (simp add: int_exact_def rnd64_int)

lemma int_exact_id: "int_exact id"
  by (simp add: int_exact_def)

lemma int_exactD: "int_exact r \<Longrightarrow> 0 \<le> n \<Longrightarrow> n \<le> 2 ^ 53 \<Longrightarrow> r (of_int n) = of_int n"
  by (simp add: int_exact_def)

lemma dur_Seconds_int_exact:
  assumes "int_exact r" and "0 \<le> k" and "k \<le> 2 ^ 53"
  shows "dur_Seconds r (k * Second) = of_int k"
proof -
  have "r 0 = 0" using int_exactD [OF assms(1), of 0] by simp
  then show ?thesis
    using int_exactD [OF assms] by (simp add: dur_Seconds_def Second_def)
qed

lemma ols_step_exact:
  assumes r: "int_exact r" and t: "s_Time s - t0 = k * Second" "0 \<le> k" "s_Time s - t0 \<le> maxDuration"
    and nn: "0 \<le> s_WorkingSet s" "0 \<le> a" "0 \<le> b" "0 \<le> c" "0 \<le> d"
    and bd: "a + k \<le> 2 ^ 53" "b + s_WorkingSet s \<le> 2 ^ 53"
      "c + k * s_WorkingSet s \<le> 2 ^ 53" "d + k * k \<le> 2 ^ 53"
  shows "ols_step r t0 s (of_int a, of_int b, of_int c, of_int d) =
    (of_int (a + k), of_int (b + s_WorkingSet s), of_int (c + k * s_WorkingSet s), of_int (d + k * k))"
proof -
  have sub: "time_Sub (s_Time s) t0 = k * Second"
    using t by (simp add: time_Sub_def Second_def minDuration_def maxDuration_def)
  have x: "dur_Seconds r (k * Second) = of_int k"
    using dur_Seconds_int_exact [OF r t(2)] nn bd by simp
  have y: "r (of_int (s_WorkingSet s)) = of_int (s_WorkingSet s)" using nn bd by (intro int_exactD [OF r]) auto
  have kw: "0 \<le> k * s_WorkingSet s" "0 \<le> k * k" using nn t by simp_all
  have e: "r (of_int (k * s_WorkingSet s)) = of_int (k * s_WorkingSet s)"
    "r (of_int (k * k)) = of_int (k * k)"
    "r (of_int (a + k)) = of_int (a + k)"
    "r (of_int (b + s_WorkingSet s)) = of_int (b + s_WorkingSet s)"
    "r (of_int (c + k * s_WorkingSet s)) = of_int (c + k * s_WorkingSet s)"
    "r (of_int (d + k * k)) = of_int (d + k * k)"
    by (rule int_exactD [OF r], use kw nn t bd in simp, use kw nn t bd in simp)+
  show ?thesis using e by (simp add: ols_step_def sub x y Let_def)
qed

lemma sum_list_nonneg_int: "(\<And>x. x \<in> set xs \<Longrightarrow> 0 \<le> f x) \<Longrightarrow> 0 \<le> (\<Sum>x\<leftarrow>xs. f x :: int)"
  by (induction xs) auto

lemma ols_fold_exact:
  assumes r: "int_exact r"
  shows "\<lbrakk>\<forall>s \<in> set win. t0 \<le> s_Time s \<and> s_Time s - t0 \<le> maxDuration
             \<and> (s_Time s - t0) mod Second = 0 \<and> 0 \<le> s_WorkingSet s;
     0 \<le> a; 0 \<le> b; 0 \<le> c; 0 \<le> d;
     a + (\<Sum>s\<leftarrow>win. sec_of t0 s) \<le> 2 ^ 53; b + (\<Sum>s\<leftarrow>win. s_WorkingSet s) \<le> 2 ^ 53;
     c + (\<Sum>s\<leftarrow>win. sec_of t0 s * s_WorkingSet s) \<le> 2 ^ 53;
     d + (\<Sum>s\<leftarrow>win. sec_of t0 s * sec_of t0 s) \<le> 2 ^ 53\<rbrakk> \<Longrightarrow>
   fold (ols_step r t0) win (of_int a, of_int b, of_int c, of_int d) =
     (of_int (a + (\<Sum>s\<leftarrow>win. sec_of t0 s)), of_int (b + (\<Sum>s\<leftarrow>win. s_WorkingSet s)),
      of_int (c + (\<Sum>s\<leftarrow>win. sec_of t0 s * s_WorkingSet s)),
      of_int (d + (\<Sum>s\<leftarrow>win. sec_of t0 s * sec_of t0 s)))"
proof (induction win arbitrary: a b c d)
  case (Cons s win)
  define k where "k = sec_of t0 s"
  define w where "w = s_WorkingSet s"
  have nn: "0 \<le> (\<Sum>s\<leftarrow>win. sec_of t0 s)" "0 \<le> (\<Sum>s\<leftarrow>win. s_WorkingSet s)"
    "0 \<le> (\<Sum>s\<leftarrow>win. sec_of t0 s * s_WorkingSet s)" "0 \<le> (\<Sum>s\<leftarrow>win. sec_of t0 s * sec_of t0 s)"
    using Cons.prems(1) by (auto intro!: sum_list_nonneg_int simp: sec_of_def Second_def pos_imp_zdiv_nonneg_iff)
  have k: "0 \<le> k" "s_Time s - t0 = k * Second" and w: "0 \<le> w"
    using Cons.prems(1) by (auto simp: k_def w_def sec_of_def Second_def pos_imp_zdiv_nonneg_iff)
  have kw: "0 \<le> k * w" "0 \<le> k * k" using k w by simp_all
  have st: "ols_step r t0 s (of_int a, of_int b, of_int c, of_int d) =
    (of_int (a + k), of_int (b + w), of_int (c + k * w), of_int (d + k * k))"
    unfolding w_def
    by (rule ols_step_exact [OF r k(2) k(1)])
       (use Cons.prems nn w in \<open>simp_all add: k_def [symmetric] w_def [symmetric]\<close>)
  have "fold (ols_step r t0) win (of_int (a + k), of_int (b + w), of_int (c + k * w), of_int (d + k * k)) =
     (of_int (a + k + (\<Sum>s\<leftarrow>win. sec_of t0 s)), of_int (b + w + (\<Sum>s\<leftarrow>win. s_WorkingSet s)),
      of_int (c + k * w + (\<Sum>s\<leftarrow>win. sec_of t0 s * s_WorkingSet s)),
      of_int (d + k * k + (\<Sum>s\<leftarrow>win. sec_of t0 s * sec_of t0 s)))"
    by (rule Cons.IH) (use Cons.prems k w kw in \<open>simp_all add: k_def [symmetric] w_def [symmetric]\<close>)
  then show ?case by (simp add: st k_def [symmetric] w_def [symmetric] add.assoc)
qed simp


text \<open>Numerator and denominator of the least-squares slope, in integers.\<close>

definition ols_num :: "sample list \<Rightarrow> int" where
  "ols_num win = (let t0 = s_Time (win ! 0) in
     int (length win) * (\<Sum>s\<leftarrow>win. sec_of t0 s * s_WorkingSet s)
       - (\<Sum>s\<leftarrow>win. sec_of t0 s) * (\<Sum>s\<leftarrow>win. s_WorkingSet s))"

definition ols_den :: "sample list \<Rightarrow> int" where
  "ols_den win = (let t0 = s_Time (win ! 0) in
     int (length win) * (\<Sum>s\<leftarrow>win. sec_of t0 s * sec_of t0 s)
       - (\<Sum>s\<leftarrow>win. sec_of t0 s) * (\<Sum>s\<leftarrow>win. sec_of t0 s))"

lemma exact_series_nonneg:
  assumes "exact_series win"
  defines "t0 \<equiv> s_Time (win ! 0)"
  shows "0 \<le> (\<Sum>s\<leftarrow>win. sec_of t0 s)" "0 \<le> (\<Sum>s\<leftarrow>win. s_WorkingSet s)"
    "0 \<le> (\<Sum>s\<leftarrow>win. sec_of t0 s * s_WorkingSet s)" "0 \<le> (\<Sum>s\<leftarrow>win. sec_of t0 s * sec_of t0 s)"
  using assms
  by (auto intro!: sum_list_nonneg_int simp: exact_series_def Let_def sec_of_def Second_def
        pos_imp_zdiv_nonneg_iff)

lemma le_scaled: "0 \<le> (x :: int) \<Longrightarrow> 1 \<le> n \<Longrightarrow> n * x \<le> b \<Longrightarrow> x \<le> b"
  by (smt (verit) mult_left_le_imp_le mult_le_cancel_right1)

lemma ols_slope_exact:
  assumes r: "int_exact r" and win: "exact_series win"
  shows "ols_slope r win = (if length win < 2 \<or> ols_den win = 0 then None
     else Some (r (of_int (ols_num win) / of_int (ols_den win))))"
proof -
  define t0 where "t0 = s_Time (win ! 0)"
  define n where "n = int (length win)"
  define X where "X = (\<Sum>s\<leftarrow>win. sec_of t0 s)"
  define Y where "Y = (\<Sum>s\<leftarrow>win. s_WorkingSet s)"
  define XY where "XY = (\<Sum>s\<leftarrow>win. sec_of t0 s * s_WorkingSet s)"
  define XX where "XX = (\<Sum>s\<leftarrow>win. sec_of t0 s * sec_of t0 s)"
  note nn = exact_series_nonneg [OF win, folded t0_def, folded X_def Y_def XY_def XX_def]
  have bd: "n * XY \<le> 2 ^ 53" "X * Y \<le> 2 ^ 53" "n * XX \<le> 2 ^ 53" "X * X \<le> 2 ^ 53" "X \<le> 2 ^ 53"
    "Y \<le> 2 ^ 53" "n \<le> 2 ^ 53"
    using win by (simp_all add: exact_series_def Let_def t0_def n_def X_def Y_def XY_def XX_def)
  have n1: "1 \<le> n" using win by (cases win) (simp_all add: exact_series_def n_def)
  have xy: "XY \<le> 2 ^ 53" "XX \<le> 2 ^ 53" using le_scaled [OF nn(3) n1 bd(1)] le_scaled [OF nn(4) n1 bd(3)] by auto
  have fold: "fold (ols_step r t0) win (0, 0, 0, 0) = (of_int X, of_int Y, of_int XY, of_int XX)"
    using ols_fold_exact [OF r, of win t0 0 0 0 0] win bd xy
    by (simp add: exact_series_def Let_def t0_def X_def Y_def XY_def XX_def)
  have rn: "r (of_int n) = of_int n" using int_exactD [OF r] n1 bd by simp
  have p: "0 \<le> n * XY" "0 \<le> X * Y" "0 \<le> n * XX" "0 \<le> X * X" using nn n1 by simp_all
  have e: "r (of_int (n * XY)) = of_int (n * XY)" "r (of_int (X * Y)) = of_int (X * Y)"
    "r (of_int (n * XX)) = of_int (n * XX)" "r (of_int (X * X)) = of_int (X * X)"
    using p bd by (auto simp del: of_int_mult intro!: int_exactD [OF r])
  have d: "r (of_int (n * XX - X * X)) = of_int (n * XX - X * X)"
    "r (of_int (n * XY - X * Y)) = of_int (n * XY - X * Y)"
  proof -
    have "\<bar>n * XX - X * X\<bar> \<le> 2 ^ 53" "\<bar>n * XY - X * Y\<bar> \<le> 2 ^ 53"
      using p bd by (simp_all only: abs_le_iff) linarith+
    then show "r (of_int (n * XX - X * X)) = of_int (n * XX - X * X)"
      "r (of_int (n * XY - X * Y)) = of_int (n * XY - X * Y)"
      using r by (simp_all only: int_exact_def)
  qed
  have N: "ols_num win = n * XY - X * Y" and D: "ols_den win = n * XX - X * X"
    by (simp_all add: ols_num_def ols_den_def Let_def t0_def n_def X_def Y_def XY_def XX_def)
  have lt: "(of_int n :: rat) < 2 \<longleftrightarrow> length win < 2" by (simp add: n_def)
  have den0: "(of_int n * of_int XX - of_int X * of_int X = (0 :: rat)) \<longleftrightarrow> n * XX - X * X = 0"
    by (simp flip: of_int_mult of_int_diff)
  show ?thesis
    unfolding ols_slope_def Let_def n_def [symmetric] rn t0_def [symmetric] fold lt N D
    using e d den0 by simp
qed

lemma Chebyshev_list:
  fixes f g :: "'a \<Rightarrow> int"
  assumes "sorted (map f xs)" and "sorted_wrt (\<ge>) (map g xs)"
  shows "int (length xs) * (\<Sum>x\<leftarrow>xs. f x * g x) \<le> (\<Sum>x\<leftarrow>xs. f x) * (\<Sum>x\<leftarrow>xs. g x)"
proof -
  have "of_nat (length xs) * (\<Sum>k = 0..<length xs. f (xs ! k) * g (xs ! k))
    \<le> (\<Sum>k = 0..<length xs. f (xs ! k)) * (\<Sum>k = 0..<length xs. g (xs ! k))"
    by (rule Chebyshev_sum_upper)
       (use assms in \<open>auto simp: sorted_iff_nth_mono sorted_wrt_iff_nth_less le_less\<close>)
  then show ?thesis by (simp add: sum_list_sum_nth)
qed

lemma sec_of_sorted:
  assumes "times_sorted xs"
  shows "sorted (map (sec_of t0) xs)"
  using assms by (induction xs) (auto simp: times_sorted_def sec_of_def Second_def intro!: zdiv_mono1)

lemma sum_list_neg: "(\<Sum>x\<leftarrow>xs. - f x) = - (\<Sum>x\<leftarrow>xs. f x :: int)"
  by (induction xs) auto

lemma ols_den_nonneg:
  assumes "times_sorted win"
  shows "0 \<le> ols_den win"
proof -
  define f where "f = sec_of (s_Time (win ! 0))"
  have "sorted (map f win)" unfolding f_def by (rule sec_of_sorted [OF assms])
  moreover from this have "sorted_wrt (\<ge>) (map (\<lambda>s. - f s) win)"
    by (simp add: sorted_wrt_map)
  ultimately have "int (length win) * (\<Sum>s\<leftarrow>win. f s * - f s) \<le> (\<Sum>s\<leftarrow>win. f s) * (\<Sum>s\<leftarrow>win. - f s)"
    by (rule Chebyshev_list)
  then show ?thesis
    by (simp add: ols_den_def Let_def f_def sum_list_neg)
qed


lemma ols_num_falling:
  assumes "times_sorted win" and "sorted_wrt (\<ge>) (map s_WorkingSet win)"
  shows "ols_num win \<le> 0"
  using Chebyshev_list [OF sec_of_sorted [OF assms(1)] assms(2)]
  by (simp add: ols_num_def Let_def)

lemma ols_num_linear:
  assumes "\<forall>s \<in> set win. s_WorkingSet s = a + b * sec_of (s_Time (win ! 0)) s"
  shows "ols_num win = b * ols_den win"
proof -
  define f where "f = sec_of (s_Time (win ! 0))"
  have ws: "s \<in> set win \<Longrightarrow> s_WorkingSet s = a + b * f s" for s using assms by (simp add: f_def)
  have "(\<Sum>s\<leftarrow>win. s_WorkingSet s) = (\<Sum>s\<leftarrow>win. a + b * f s)"
    by (rule arg_cong [where f = sum_list]) (simp add: ws)
  also have "\<dots> = int (length win) * a + b * (\<Sum>s\<leftarrow>win. f s)"
    by (simp add: sum_list_addf sum_list_const_mult sum_list_triv)
  finally have Y: "(\<Sum>s\<leftarrow>win. s_WorkingSet s) = int (length win) * a + b * (\<Sum>s\<leftarrow>win. f s)" .
  have "(\<Sum>s\<leftarrow>win. f s * s_WorkingSet s) = (\<Sum>s\<leftarrow>win. a * f s + b * (f s * f s))"
    by (rule arg_cong [where f = sum_list]) (simp add: ws algebra_simps)
  also have "\<dots> = a * (\<Sum>s\<leftarrow>win. f s) + b * (\<Sum>s\<leftarrow>win. f s * f s)"
    by (simp add: sum_list_addf sum_list_const_mult)
  finally have XY: "(\<Sum>s\<leftarrow>win. f s * s_WorkingSet s) = a * (\<Sum>s\<leftarrow>win. f s) + b * (\<Sum>s\<leftarrow>win. f s * f s)" .
  show ?thesis
    by (simp only: ols_num_def ols_den_def Let_def f_def [symmetric] Y XY) (simp add: algebra_simps)
qed

section \<open>Properties\<close>

text \<open>
  C15: a leak reported in sustained mode means what the documentation says, and every such situation
  is reported. For a time-ordered series of realistic values, \<open>Detect\<close> leaks exactly when the series
  reaches back to the start of the window, at least two samples lie inside it, and every one of them
  is over its threshold in exact arithmetic (the absolute cap if there is one, else the percentage of
  that sample's own limit): the int64 cross-multiplication neither wraps nor loses precision.
\<close>

theorem sustained_leak_iff:
  assumes "times_sorted samples" and "0 \<le> d_Window d" and "d_Window d \<le> maxDuration"
    and "d_Mode d = ModeSustained" and "0 \<le> d_ThresholdPercent d" and "d_ThresholdPercent d \<le> 100"
    and "\<forall>s \<in> set samples. small_sample s"
  shows "res_Leaking (Detect samples d now) \<longleftrightarrow>
    2 \<le> length samples \<and> (\<exists>s \<in> set samples. s_Time s \<le> now - d_Window d)
    \<and> 2 \<le> length (filter (\<lambda>s. now - d_Window d \<le> s_Time s) samples)
    \<and> (\<forall>s \<in> set samples. now - d_Window d \<le> s_Time s \<longrightarrow> over_threshold s d)"
proof -
  have f: "WindowSamples samples (d_Window d) now = filter (\<lambda>s. now - d_Window d \<le> s_Time s) samples"
    using assms(2,3) by (simp add: WindowSamples_def not_less)
  have "allExceed (WindowSamples samples (d_Window d) now) d \<longleftrightarrow>
    (\<forall>s \<in> set samples. now - d_Window d \<le> s_Time s \<longrightarrow> over_threshold s d)"
    using exceeds_exact [OF _ assms(5,6)] assms(7) by (auto simp: allExceed_iff f)
  then show ?thesis
    unfolding Detect_Leaking_iff WindowCovered_iff [OF assms(1,2,3)] f
    using assms(4) by (auto simp: mode_defs)
qed

definition demo_detection :: "string \<Rightarrow> detection" where
  "demo_detection m = \<lparr>d_Mode = m, d_ThresholdPercent = 80, d_ThresholdAbsolute = None,
     d_Window = 10 * Second, d_TrendMinGrowth = \<lparr>q_Value = 50, q_String = ''50''\<rparr>\<rparr>"

definition demo_series :: "sample list" where
  "demo_series = [demo_sample 0 850, demo_sample (5 * Second) 900, demo_sample (10 * Second) 950]"

lemmas demo_detect_defs = demo_detection_def demo_series_def demo_sample_def Second_def mode_defs

lemma sustained_leak_iff_witness:
  "res_Leaking (Detect demo_series (demo_detection ModeSustained) (10 * Second))"
proof -
  have "times_sorted demo_series" "0 \<le> d_Window (demo_detection ModeSustained)"
    "d_Window (demo_detection ModeSustained) \<le> maxDuration"
    "d_Mode (demo_detection ModeSustained) = ModeSustained"
    "0 \<le> d_ThresholdPercent (demo_detection ModeSustained)"
    "d_ThresholdPercent (demo_detection ModeSustained) \<le> 100"
    "\<forall>s \<in> set demo_series. small_sample s"
    by (simp_all add: times_sorted_def demo_detect_defs maxDuration_def small_sample_def)
  then have "res_Leaking (Detect demo_series (demo_detection ModeSustained) (10 * Second)) \<longleftrightarrow>
    2 \<le> length demo_series
    \<and> (\<exists>s \<in> set demo_series. s_Time s \<le> 10 * Second - d_Window (demo_detection ModeSustained))
    \<and> 2 \<le> length (filter (\<lambda>s. 10 * Second - d_Window (demo_detection ModeSustained) \<le> s_Time s) demo_series)
    \<and> (\<forall>s \<in> set demo_series. 10 * Second - d_Window (demo_detection ModeSustained) \<le> s_Time s
         \<longrightarrow> over_threshold s (demo_detection ModeSustained))"
    by (rule sustained_leak_iff)
  then show ?thesis by (simp add: demo_detect_defs over_threshold_def)
qed

text \<open>
  C20: \<open>combined\<close> is the conjunction of the other two modes, on every series, configuration and time;
  an unrecognised mode never leaks; and the observed and threshold values reported do not depend
  on the mode.
\<close>

theorem combined_is_conjunction:
  "(res_Leaking (Detect samples (d\<lparr>d_Mode := ModeCombined\<rparr>) now) \<longleftrightarrow>
     res_Leaking (Detect samples (d\<lparr>d_Mode := ModeSustained\<rparr>) now)
     \<and> res_Leaking (Detect samples (d\<lparr>d_Mode := ModeTrend\<rparr>) now))
   \<and> (m \<notin> {ModeSustained, ModeTrend, ModeCombined} \<longrightarrow>
        \<not> res_Leaking (Detect samples (d\<lparr>d_Mode := m\<rparr>) now))
   \<and> res_Observed (Detect samples (d\<lparr>d_Mode := m\<rparr>) now) = res_Observed (Detect samples (d\<lparr>d_Mode := m'\<rparr>) now)
   \<and> res_Threshold (Detect samples (d\<lparr>d_Mode := m\<rparr>) now) = res_Threshold (Detect samples (d\<lparr>d_Mode := m'\<rparr>) now)"
proof (intro conjI impI)
  have mode: "thresholdBytes s (d\<lparr>d_Mode := x\<rparr>) = thresholdBytes s d"
    "exceeds s (d\<lparr>d_Mode := x\<rparr>) = exceeds s d" "trendLeaking w (d\<lparr>d_Mode := x\<rparr>) = trendLeaking w d" for s w x
    by (simp_all add: thresholdBytes_def exceeds_def trendLeaking_def Let_def split: option.split)
  have all: "allExceed w (d\<lparr>d_Mode := x\<rparr>) = allExceed w d" for w x
    by (simp add: allExceed_iff mode)
  show "res_Leaking (Detect samples (d\<lparr>d_Mode := ModeCombined\<rparr>) now) \<longleftrightarrow>
     res_Leaking (Detect samples (d\<lparr>d_Mode := ModeSustained\<rparr>) now)
     \<and> res_Leaking (Detect samples (d\<lparr>d_Mode := ModeTrend\<rparr>) now)"
    unfolding Detect_Leaking_iff by (auto simp: mode all mode_defs)
  show "\<not> res_Leaking (Detect samples (d\<lparr>d_Mode := m\<rparr>) now)"
    if "m \<notin> {ModeSustained, ModeTrend, ModeCombined}"
    using that unfolding Detect_Leaking_iff by simp
  show "res_Observed (Detect samples (d\<lparr>d_Mode := m\<rparr>) now) = res_Observed (Detect samples (d\<lparr>d_Mode := m'\<rparr>) now)"
    by (simp add: Detect_def Let_def mode all split: prod.splits)
  show "res_Threshold (Detect samples (d\<lparr>d_Mode := m\<rparr>) now) = res_Threshold (Detect samples (d\<lparr>d_Mode := m'\<rparr>) now)"
    by (simp add: Detect_def Let_def mode all split: prod.splits)
qed

lemma combined_is_conjunction_witness:
  "\<not> res_Leaking (Detect demo_series ((demo_detection ModeTrend)\<lparr>d_Mode := ''other''\<rparr>) (10 * Second))"
proof -
  have "''other'' \<notin> {ModeSustained, ModeTrend, ModeCombined}" by (simp add: mode_defs)
  then show ?thesis
    using combined_is_conjunction [of demo_series "demo_detection ModeTrend" "10 * Second" "''other''"] by blast
qed

text \<open>
  C28: the float64 regression is the exact one, correctly rounded. On a series whose samples lie whole
  seconds apart and whose scaled sums fit 53 bits, every intermediate float64 of \<open>olsSlope\<close> is exact,
  so the slope returned is the exact rational least-squares slope rounded once, and it is undefined
  exactly when there are fewer than two samples or no variance in time.
\<close>

theorem ols_float_correctly_rounded:
  assumes "exact_series win"
  shows "olsSlope win = map_option rnd64 (ols_slope id win)
    \<and> (olsSlope win = None \<longleftrightarrow> length win < 2 \<or> ols_den win = 0)"
  unfolding olsSlope_def ols_slope_exact [OF int_exact_rnd64 assms] ols_slope_exact [OF int_exact_id assms]
  by auto

lemma demo_series_exact: "exact_series demo_series"
  by (simp add: exact_series_def demo_detect_defs sec_of_def maxDuration_def)

lemma ols_float_correctly_rounded_witness:
  "olsSlope demo_series = map_option rnd64 (ols_slope id demo_series)"
  using ols_float_correctly_rounded [OF demo_series_exact] by simp

text \<open>
  C29: a working set that never grows never trends. On a time-ordered series as above whose working set
  is flat or falling, the computed slope is not positive, so \<open>trendLeaking\<close> is false whatever the
  minimum growth (zero and negative ones included): rounding cannot invent growth there.
\<close>

theorem falling_series_never_trends:
  assumes "exact_series win" and "times_sorted win" and "sorted_wrt (\<ge>) (map s_WorkingSet win)"
  shows "trendLeaking win d = (False, 0)"
proof -
  have "of_int (ols_num win) / of_int (ols_den win) \<le> (0 :: rat)"
    using ols_num_falling [OF assms(2,3)] ols_den_nonneg [OF assms(2)] by (simp add: divide_nonpos_nonneg)
  then show ?thesis
    unfolding trendLeaking_def olsSlope_def ols_slope_exact [OF int_exact_rnd64 assms(1)]
    by (simp add: rnd64_sgn)
qed

lemma falling_series_never_trends_witness:
  "trendLeaking [demo_sample 0 9, demo_sample Second 9, demo_sample (2 * Second) 5]
     (demo_detection ModeTrend) = (False, 0)"
  by (rule falling_series_never_trends)
     (simp_all add: exact_series_def demo_detect_defs sec_of_def maxDuration_def times_sorted_def)

text \<open>
  Linear growth is projected exactly. When the working set grows by \<open>b\<close> bytes every second over a
  series as above and the window is \<open>W\<close> whole seconds, the projected growth is exactly \<open>b * W\<close> bytes
  and the trend detector fires exactly when that reaches the configured minimum.
\<close>

theorem linear_growth_projected:
  assumes "exact_series win" and "times_sorted win" and "length win \<ge> 2" and "ols_den win \<noteq> 0"
    and "\<forall>s \<in> set win. s_WorkingSet s = a + b * sec_of (s_Time (win ! 0)) s"
    and "0 < b" and "d_Window d = W * Second" and "0 \<le> W" and "b * W \<le> 2 ^ 53" and "b \<le> 2 ^ 53" and "W \<le> 2 ^ 53"
  shows "trendLeaking win d = (b * W \<ge> q_Value (d_TrendMinGrowth d), b * W)"
proof -
  have "of_int (ols_num win) / of_int (ols_den win) = (of_int b :: rat)"
    using ols_num_linear [OF assms(5)] assms(4) by simp
  then have sl: "olsSlope win = Some (of_int b)"
    using assms(3,4,6,10) rnd64_int [of b]
    by (simp add: olsSlope_def ols_slope_exact [OF int_exact_rnd64 assms(1)])
  have w: "dur_Seconds rnd64 (d_Window d) = of_int W"
    unfolding assms(7) using assms(8,11) by (intro dur_Seconds_whole) simp
  have bw: "0 \<le> b * W" using assms(6,8) by simp
  have "rnd64 (of_int b * of_int W) = of_int (b * W)"
    using rnd64_int [of "b * W"] bw assms(9) by simp
  moreover have "i64_of_f64 (of_int (b * W)) = b * W"
  proof -
    have "f64_trunc (of_int (b * W)) = b * W" unfolding f64_trunc_def by (metis ceiling_of_int floor_of_int)
    moreover have "in_i64 (b * W)" using bw assms(9) by (simp add: in_i64_def)
    ultimately show ?thesis by (simp only: i64_of_f64_def if_True)
  qed
  ultimately show ?thesis using assms(6) by (simp add: trendLeaking_def sl w Let_def)
qed

lemma linear_growth_projected_witness:
  "trendLeaking demo_series (demo_detection ModeTrend) = (True, 100)"
proof -
  have "trendLeaking demo_series (demo_detection ModeTrend) =
    (10 * 10 \<ge> q_Value (d_TrendMinGrowth (demo_detection ModeTrend)), 10 * 10)"
    by (rule linear_growth_projected [where a = 850])
       (simp_all add: demo_series_exact, simp_all add: demo_detect_defs times_sorted_def ols_den_def sec_of_def)
  then show ?thesis by (simp add: demo_detect_defs)
qed

text \<open>
  The store's no-copy coverage check and the detector's agree. The sampler enqueues a policy on
  the store's answer and the reconciler decides on the copied series: on every store, key, window
  and time the two functions give the same answer, so nothing is enqueued that the detector would
  call cold, and nothing warm is left out.
\<close>

theorem coverage_checks_agree:
  "StoreWindowCovered s k w now = WindowCovered (Samples s k) w now"
  by (auto simp: StoreWindowCovered_def WindowCovered_def Samples_def split: option.splits)

end
