(* ===== verification/Reconciler.thy ===== *)
theory Reconciler
  imports StatusStore Selection Notifier Profile Detector
begin

text \<open>
  \<open>internal/controller/reconciler.go\<close>: the restart loop of one policy. \<open>Reconcile\<close> is cut where the code
  has its early returns: the finalizer, the mode and the workload, the in-flight rollout, the scan for a
  leak, the gates, and the restart. The value is an error or the delay after which the policy is
  reconciled again (zero for none).
\<close>

section \<open>The reconciler\<close>

definition PolicyFinalizer :: string where "PolicyFinalizer = ''memreload.io/finalizer''"

definition reasonBreachDetected :: string where "reasonBreachDetected = ''BreachDetected''"
definition reasonWouldRestart :: string where "reasonWouldRestart = ''WouldRestart''"
definition reasonRestartTriggered :: string where "reasonRestartTriggered = ''RestartTriggered''"
definition reasonRestartDeferred :: string where "reasonRestartDeferred = ''RestartDeferred''"
definition reasonProfileCaptured :: string where "reasonProfileCaptured = ''ProfileCaptured''"
definition reasonCircuitBreaker :: string where "reasonCircuitBreaker = ''CircuitBreakerTripped''"
definition reasonPodUnmonitorable :: string where "reasonPodUnmonitorable = ''PodUnmonitorable''"
definition reasonInvalidConfig :: string where "reasonInvalidConfig = ''InvalidConfig''"

record 'w reconciler =
  rc_Lib :: lib
  rc_API :: "'w api"
  rc_Defaults :: defaults
  rc_Kinds :: kinds
  rc_Windows :: windows
  rc_Capturer :: "capturer option"
  rc_ProfileEnabled :: bool
  rc_Notifier :: "notifier option"
  rc_ClusterName :: string
  rc_RequeueAfter :: duration

text \<open>A leak: the target, its pod, the verdict and the windowed samples.\<close>

record breach =
  br_Target :: target
  br_Pod :: pod
  br_Result :: detect_result
  br_Samples :: "sample list"

section \<open>Small helpers\<close>

definition inflight_gauge :: "('w, unit) op" where
  "inflight_gauge = do { g \<leftarrow> get_gate; emit (EGauge ''memreload_inflight_rollouts'' [] (int (Inflight g))) }"

definition release_slot :: "string \<Rightarrow> ('w, unit) op" where
  "release_slot wkey = do { g \<leftarrow> get_gate; put_gate (Release g wkey); inflight_gauge }"

definition acquire_slot :: "string \<Rightarrow> time \<Rightarrow> ('w, gate_outcome) op" where
  "acquire_slot wkey now = do {
     g \<leftarrow> get_gate;
     case TryAcquire g wkey now of (out, g') \<Rightarrow> do { put_gate g'; ret out } }"

definition wl_labels :: "workload \<Rightarrow> string list" where
  "wl_labels wl = [wl_Namespace wl, wl_Kind wl, wl_Name wl]"

definition object_ref :: "workload \<Rightarrow> target_ref" where
  "object_ref wl = RefWorkload (case Workload_Object wl of None \<Rightarrow> None | Some r \<Rightarrow> r)"

definition policy_labels :: "policy \<Rightarrow> string list" where
  "policy_labels p = [p_Namespace p, wr_Kind (sp_WorkloadRef (p_Spec p)), wr_Name (sp_WorkloadRef (p_Spec p))]"

definition skip :: "policy \<Rightarrow> string \<Rightarrow> ('w, duration result) op" where
  "skip policy reason = do {
     emit (ECounter ''memreload_rollouts_skipped_total'' (policy_labels policy @ [reason]));
     ret (Inr 0) }"

definition skipRequeue :: "'w reconciler \<Rightarrow> policy \<Rightarrow> string \<Rightarrow> ('w, duration result) op" where
  "skipRequeue R policy reason = do {
     emit (ECounter ''memreload_rollouts_skipped_total'' (policy_labels policy @ [reason]));
     ret (Inr (rc_RequeueAfter R)) }"

definition warnUnmonitorableOnce :: "pod \<Rightarrow> ('w, unit) op" where
  "warnUnmonitorableOnce pod = do {
     s \<leftarrow> State_Monad.get;
     if pod_UID pod |\<in>| sy_Warned s then ret ()
     else do {
       State_Monad.set (s\<lparr>sy_Warned := finsert (pod_UID pod) (sy_Warned s)\<rparr>);
       emit (ELog ''opted-in pod is unmonitorable: no watched container has a memory limit or hard-cap'');
       emit (EEvent (RefPod (pod_Namespace pod) (pod_Name pod)) ''Warning'' reasonPodUnmonitorable ''Monitor''
         ''no watched container has a memory limit or hard-cap; pod will not be monitored'') } }"

definition recentlyWouldRestart :: "string \<Rightarrow> time \<Rightarrow> duration \<Rightarrow> ('w, bool) op" where
  "recentlyWouldRestart wkey now cooldown = do {
     s \<leftarrow> State_Monad.get;
     ret (case fmlookup (sy_WouldRestart s) wkey of None \<Rightarrow> False | Some t \<Rightarrow> time_Sub now t < cooldown) }"

definition store_would_restart :: "string \<Rightarrow> time \<Rightarrow> ('w, unit) op" where
  "store_would_restart wkey now = do {
     s \<leftarrow> State_Monad.get;
     State_Monad.set (s\<lparr>sy_WouldRestart := fmupd wkey now (sy_WouldRestart s)\<rparr>) }"

section \<open>Notification and profile capture\<close>

text \<open>The route names that are registered; an unknown one is recorded as an event.\<close>

fun known_routes :: "'w reconciler \<Rightarrow> workload \<Rightarrow> string list \<Rightarrow> ('w, string list) op" where
  "known_routes R wl [] = ret []"
| "known_routes R wl (name # names) =
     (if KnownRoute (rc_Notifier R) name
      then do { rs \<leftarrow> known_routes R wl names; ret (name # rs) }
      else do {
        emit (EEvent (object_ref wl) ''Warning'' reasonInvalidConfig ''Resolve''
          (''unknown notification route '' @ quote name @ '' (not registered in the controller)''));
        known_routes R wl names })"

definition notify :: "'w reconciler \<Rightarrow> string \<Rightarrow> workload \<Rightarrow> breach \<Rightarrow> time \<Rightarrow> pod_config \<Rightarrow> ('w, unit) op" where
  "notify R t wl b now cfg =
     (if rc_Notifier R = None then ret ()
      else do {
        routes \<leftarrow> known_routes R wl (pc_NotifyRoutes cfg);
        Notify (rc_Lib R) (rc_API R) (rc_Notifier R)
          \<lparr>ev_Type = t, ev_Kind = wl_Kind wl, ev_Workload = wl_Name wl, ev_Namespace = wl_Namespace wl,
           ev_Container = tg_Name (br_Target b), ev_Mode = d_Mode (tg_Det (br_Target b)),
           ev_Observed = res_Observed (br_Result b), ev_Threshold = res_Threshold (br_Result b),
           ev_Window = d_Window (tg_Det (br_Target b)), ev_Reason = res_Reason (br_Result b),
           ev_DryRun = pc_DryRun cfg, ev_Time = now, ev_Samples = toSamplePoints (br_Samples b),
           ev_ClusterName = rc_ClusterName R, ev_Routes = routes, ev_SlackChannel = pc_SlackChannel cfg\<rparr> })"

definition capture_key :: "pod \<Rightarrow> string \<Rightarrow> time \<Rightarrow> string" where
  "capture_key pod container now = pod_Namespace pod @ ''/'' @ pod_Name pod @ ''/'' @ container @ ''/''
     @ format_compact_UTC now @ ''.pb.gz''"

text \<open>The status is handed in by pointer; it comes back with the profile reference when one was stored.\<close>

definition captureProfile ::
  "'w reconciler \<Rightarrow> workload \<Rightarrow> pod_config \<Rightarrow> breach \<Rightarrow> time \<Rightarrow> policy_status \<Rightarrow> ('w, policy_status) op" where
  "captureProfile R wl cfg b now st =
     (case rc_Capturer R of
        None \<Rightarrow> ret st
      | Some c \<Rightarrow>
         if \<not> (case pc_ProfileCapture cfg of Some v \<Rightarrow> v | None \<Rightarrow> rc_ProfileEnabled R) then ret st
         else if pc_DryRun cfg then do {
           emit (ECounter ''memreload_profile_captures_total'' (wl_labels wl @ [''skipped'']));
           ret st }
         else do {
           res \<leftarrow> Capture (rc_API R) c (pod_IP (br_Pod b))
                    (if pc_PprofPath cfg = '''' then ''/debug/pprof/heap'' else pc_PprofPath cfg)
                    (capture_key (br_Pod b) (tg_Name (br_Target b)) now);
           case res of
             Inl e \<Rightarrow> do {
               emit (ECounter ''memreload_profile_captures_total'' (wl_labels wl @ [''error'']));
               emit (ELog ''profile capture failed (non-fatal)'');
               ret st }
           | Inr r \<Rightarrow> do {
               emit (ECounter ''memreload_profile_captures_total'' (wl_labels wl @ [''success'']));
               emit (EEvent (RefPod (pod_Namespace (br_Pod b)) (pod_Name (br_Pod b))) ''Normal''
                 reasonProfileCaptured ''CaptureProfile''
                 (''captured heap profile ('' @ itoa (int (cr_Size r)) @ '' bytes) to '' @ cr_URI r));
               ret (st\<lparr>st_LastProfile := Some \<lparr>pr_URL = cr_URI r, pr_CapturedAt = now\<rparr>\<rparr>) } })"

section \<open>The scan for a leak\<close>

fun scan_targets :: "pod \<Rightarrow> time \<Rightarrow> target list \<Rightarrow> ('w, breach option) op" where
  "scan_targets pod now [] = ret None"
| "scan_targets pod now (t # ts) = do {
     store \<leftarrow> get_samples;
     let key = \<lparr>k_Namespace = pod_Namespace pod, k_Pod = pod_Name pod, k_Container = tg_Name t\<rparr>;
         samples = Samples store key;
         res = Detect samples (tg_Det t) now
     in if res_Leaking res
        then ret (Some \<lparr>br_Target = t, br_Pod = pod, br_Result = res,
                        br_Samples = WindowSamples samples (d_Window (tg_Det t)) now\<rparr>)
        else scan_targets pod now ts }"

definition scan_owned :: "'w reconciler \<Rightarrow> pod_config \<Rightarrow> time \<Rightarrow> pod \<Rightarrow> ('w, breach option) op" where
  "scan_owned R cfg now pod =
     (case SelectTargets pod cfg of (targets, dropped) \<Rightarrow>
        if length targets = 0
        then do { _ \<leftarrow> (if dropped > 0 then warnUnmonitorableOnce pod else ret ()); ret None }
        else scan_targets pod now targets)"

text \<open>
  One iteration of the pod loop: \<open>continue\<close> and a pod without a leak are both \<open>Inr None\<close>, the early
  return is an error.
\<close>

definition scan_pod :: "'w reconciler \<Rightarrow> pod_config \<Rightarrow> time \<Rightarrow> pod \<Rightarrow> ('w, breach option result) op" where
  "scan_pod R cfg now pod =
     (if \<not> podReady pod then ret (Inr None)
      else do {
        age \<leftarrow> podAge (rc_API R) pod;
        if age < pc_StartupGrace cfg then ret (Inr None)
        else do {
          owner \<leftarrow> ResolveOwner (rc_Lib R) (rc_API R) pod (rc_Kinds R);
          case owner of
            Inl e \<Rightarrow> ret (if err_is e ErrNoOwner then Inr None else Inl e)
          | Inr ow \<Rightarrow>
              (case IsCurrentRevision (rc_Lib R) ow of
                 Inl e \<Rightarrow> ret (Inl e)
               | Inr current \<Rightarrow>
                   if \<not> current then ret (Inr None)
                   else do { b \<leftarrow> scan_owned R cfg now pod; ret (Inr b) }) } })"

fun scan_pods :: "'w reconciler \<Rightarrow> pod_config \<Rightarrow> time \<Rightarrow> pod list \<Rightarrow> ('w, breach option result) op" where
  "scan_pods R cfg now [] = ret (Inr None)"
| "scan_pods R cfg now (pod # pods) = do {
     r \<leftarrow> scan_pod R cfg now pod;
     case r of
       Inl e \<Rightarrow> ret (Inl e)
     | Inr b \<Rightarrow> (case b of Some br \<Rightarrow> ret (Inr (Some br)) | None \<Rightarrow> scan_pods R cfg now pods) }"

section \<open>The restart\<close>

definition observed_threshold :: "breach \<Rightarrow> string" where
  "observed_threshold b = ''observed='' @ itoa (res_Observed (br_Result b)) @ '' threshold='' @ itoa (res_Threshold (br_Result b))"

definition dry_run_restart ::
  "'w reconciler \<Rightarrow> workload \<Rightarrow> pod_config \<Rightarrow> breach \<Rightarrow> time \<Rightarrow> policy \<Rightarrow> string \<Rightarrow> ('w, duration result) op" where
  "dry_run_restart R wl cfg b now policy wkey = do {
     release_slot wkey;
     recent \<leftarrow> recentlyWouldRestart wkey now (pc_Cooldown cfg);
     if recent then skip policy ''cooldown''
     else do {
       store_would_restart wkey now;
       emit (EEvent (object_ref wl) ''Normal'' reasonWouldRestart ''Restart''
         (''[dry-run] would restart '' @ wkey @ '' due to container '' @ tg_Name (br_Target b)
            @ '' ('' @ observed_threshold b @ '')''));
       emit (ECounter ''memreload_rollouts_triggered_total'' (wl_labels wl @ [''dry_run'']));
       notify R EventRestartTriggered wl b now cfg;
       ret (Inr 0) } }"

definition restarted_status ::
  "'w reconciler \<Rightarrow> policy_status \<Rightarrow> workload \<Rightarrow> pod_config \<Rightarrow> breach \<Rightarrow> time \<Rightarrow> policy_status" where
  "restarted_status R st wl cfg b now =
     (let st1 = ApplyRestart (rc_Lib R) st wl
                  \<lparr>ca_Container = tg_Name (br_Target b), ca_Observed = res_Observed (br_Result b),
                   ca_Threshold = res_Threshold (br_Result b), ca_Mode = d_Mode (tg_Det (br_Target b))\<rparr>
                  now (pc_RestartWindow cfg);
          st2 = st1\<lparr>st_LastNotification := Some \<lparr>nr_Event = EventRestartTriggered, nr_NotifiedAt = now\<rparr>\<rparr>
      in RecomputeObservability st2 now (pc_Cooldown cfg) (pc_RestartWindow cfg) (pc_MaxRestartsPerWindow cfg))"

definition restart_failed :: "workload \<Rightarrow> string \<Rightarrow> string \<Rightarrow> err \<Rightarrow> ('w, duration result) op" where
  "restart_failed wl wkey what e = do {
     release_slot wkey;
     emit (ECounter ''memreload_rollouts_triggered_total'' (wl_labels wl @ [''error'']));
     ret (Inl (ErrWrap (what @ wkey) e)) }"

definition announce_restart ::
  "'w reconciler \<Rightarrow> workload \<Rightarrow> pod_config \<Rightarrow> breach \<Rightarrow> time \<Rightarrow> string \<Rightarrow> ('w, duration result) op" where
  "announce_restart R wl cfg b now wkey = do {
     emit (ECounter ''memreload_rollouts_triggered_total'' (wl_labels wl @ [''success'']));
     emit (EEvent (object_ref wl) ''Normal'' reasonRestartTriggered ''Restart''
       (''restarted '' @ wkey @ '' due to container '' @ tg_Name (br_Target b) @ '' ('' @ observed_threshold b
          @ '', mode='' @ d_Mode (tg_Det (br_Target b)) @ '')''));
     notify R EventRestartTriggered wl b now cfg;
     ret (Inr (rc_RequeueAfter R)) }"

definition dispatch_restart ::
  "'w reconciler \<Rightarrow> workload \<Rightarrow> pod_config \<Rightarrow> breach \<Rightarrow> time \<Rightarrow> string \<Rightarrow> ('w, duration result) op" where
  "dispatch_restart R wl cfg b now wkey = do {
     d \<leftarrow> Dispatch (rc_Lib R) (rc_API R) wl now;
     case fst d of
       Inl e \<Rightarrow> restart_failed wl wkey ''dispatch restart for '' e
     | Inr _ \<Rightarrow> announce_restart R (snd d) cfg b now wkey }"

definition real_restart ::
  "'w reconciler \<Rightarrow> workload \<Rightarrow> pod_config \<Rightarrow> breach \<Rightarrow> time \<Rightarrow> policy \<Rightarrow> string \<Rightarrow> ('w, duration result) op" where
  "real_restart R wl cfg b now policy wkey = do {
     p \<leftarrow> Persist (rc_API R) (policy\<lparr>p_Status := restarted_status R (p_Status policy) wl cfg b now\<rparr>);
     case fst p of
       Inl e \<Rightarrow> restart_failed wl wkey ''persist restart state for '' e
     | Inr _ \<Rightarrow> dispatch_restart R wl cfg b now wkey }"

text \<open>With the slot held: the supersession guard, the profile, then the restart or its dry run.\<close>

definition act ::
  "'w reconciler \<Rightarrow> workload \<Rightarrow> pod_config \<Rightarrow> breach \<Rightarrow> time \<Rightarrow> policy \<Rightarrow> string \<Rightarrow> string \<Rightarrow> ('w, duration result) op" where
  "act R wl cfg b now policy wkey curVersion = do {
     fresh \<leftarrow> GetWorkload (rc_API R) (wl_Kind wl) (wl_Namespace wl) (wl_Name wl);
     case fresh of
       Inl ferr \<Rightarrow> do { release_slot wkey; ret (Inl ferr) }
     | Inr fw \<Rightarrow>
         if TemplateVersion (rc_Lib R) fw \<noteq> curVersion
         then do { release_slot wkey; skip policy ''superseded'' }
         else do {
           st \<leftarrow> captureProfile R wl cfg b now (p_Status policy);
           let policy1 = policy\<lparr>p_Status := st\<rparr>
           in if pc_DryRun cfg then dry_run_restart R wl cfg b now policy1 wkey
              else real_restart R wl cfg b now policy1 wkey } }"

section \<open>The gates\<close>

fun err_text :: "err \<Rightarrow> string" where
  "err_text (ErrMsg m) = m"
| "err_text (ErrApi m) = m"
| "err_text (ErrWrap m e) = m @ '': '' @ err_text e"
| "err_text ErrNoOwner = ''pod has no eligible owning workload''"
| "err_text ErrNotAutoRestartable = ''workload is not auto-restartable''"
| "err_text ErrNotFound = ''not found''"
| "err_text ErrConflict = ''the object has been modified''"
| "err_text NilDeref = ''invalid memory address or nil pointer dereference''"
| "err_text DivideByZero = ''integer divide by zero''"

definition effective_windows :: "'w reconciler \<Rightarrow> policy \<Rightarrow> pod_config \<Rightarrow> ('w, windows) op" where
  "effective_windows R policy cfg =
     (if length (pc_MaintenanceWindows cfg) > 0 then
        (case FromWindows (l_tzdb (rc_Lib R)) (pc_MaintenanceWindows cfg) of
           Inl perr \<Rightarrow> do {
             emit (EEvent (RefPolicy (p_Namespace policy) (p_Name policy)) ''Warning'' reasonInvalidConfig
               ''Resolve'' (err_text perr));
             ret (rc_Windows R) }
         | Inr w \<Rightarrow> ret w)
      else ret (rc_Windows R))"

definition defer_restart ::
  "'w reconciler \<Rightarrow> workload \<Rightarrow> pod_config \<Rightarrow> breach \<Rightarrow> time \<Rightarrow> windows \<Rightarrow> ('w, duration result) op" where
  "defer_restart R wl cfg b now windows = do {
     emit (ECounter ''memreload_rollouts_deferred_total'' (wl_labels wl));
     emit (EEvent (object_ref wl) ''Normal'' reasonRestartDeferred ''Restart''
       ''restart deferred: outside maintenance window'');
     notify R EventRestartDeferred wl b now cfg;
     let d = time_Sub (NextOpening windows now) now
     in ret (Inr (if d \<le> 0 then rc_RequeueAfter R else d)) }"

definition acquire_and_act ::
  "'w reconciler \<Rightarrow> workload \<Rightarrow> pod_config \<Rightarrow> breach \<Rightarrow> time \<Rightarrow> policy \<Rightarrow> string \<Rightarrow> string \<Rightarrow> ('w, duration result) op" where
  "acquire_and_act R wl cfg b now policy wkey curVersion = do {
     out \<leftarrow> acquire_slot wkey now;
     case out of
       AlreadyInF \<Rightarrow> skip policy ''in_progress''
     | CapReached \<Rightarrow> skipRequeue R policy ''cap''
     | Acquired \<Rightarrow> do { inflight_gauge; act R wl cfg b now policy wkey curVersion } }"

definition window_gate ::
  "'w reconciler \<Rightarrow> workload \<Rightarrow> pod_config \<Rightarrow> breach \<Rightarrow> time \<Rightarrow> policy \<Rightarrow> string \<Rightarrow> string \<Rightarrow> ('w, duration result) op" where
  "window_gate R wl cfg b now policy wkey curVersion = do {
     windows \<leftarrow> effective_windows R policy cfg;
     if \<not> IsAllowed windows now then defer_restart R wl cfg b now windows
     else acquire_and_act R wl cfg b now policy wkey curVersion }"

definition handle_breach ::
  "'w reconciler \<Rightarrow> workload \<Rightarrow> pod_config \<Rightarrow> breach \<Rightarrow> time \<Rightarrow> policy \<Rightarrow> string \<Rightarrow> string \<Rightarrow> ('w, duration result) op" where
  "handle_breach R wl cfg b now policy wkey curVersion = do {
     emit (ECounter ''memreload_threshold_breaches_total'' (wl_labels wl @ [d_Mode (tg_Det (br_Target b))]));
     emit (EEvent (RefPod (pod_Namespace (br_Pod b)) (pod_Name (br_Pod b))) ''Normal'' reasonBreachDetected ''Detect''
       (''container '' @ tg_Name (br_Target b) @ '' leaking: '' @ res_Reason (br_Result b)
          @ '' ('' @ observed_threshold b @ '')''));
     if InCooldown (p_Status policy) now (pc_Cooldown cfg) then skip policy ''cooldown''
     else if BreakerTripped (p_Status policy) curVersion now (pc_RestartWindow cfg) (pc_MaxRestartsPerWindow cfg) then do {
       emit (EEvent (object_ref wl) ''Warning'' reasonCircuitBreaker ''Restart''
         (''max restarts per window reached; not restarting '' @ wkey));
       notify R EventCircuitBreakerTripped wl b now cfg;
       skip policy ''circuit_breaker'' }
     else window_gate R wl cfg b now policy wkey curVersion }"

section \<open>In-flight rollouts and the top level\<close>

definition detect_phase ::
  "'w reconciler \<Rightarrow> workload \<Rightarrow> pod_config \<Rightarrow> time \<Rightarrow> policy \<Rightarrow> string \<Rightarrow> string \<Rightarrow> ('w, duration result) op" where
  "detect_phase R wl cfg now policy wkey curVersion = do {
     pods \<leftarrow> listWorkloadPods (rc_Lib R) (rc_API R) wl;
     case pods of
       Inl e \<Rightarrow> ret (Inl e)
     | Inr ps \<Rightarrow> do {
         r \<leftarrow> scan_pods R cfg now ps;
         case r of
           Inl e \<Rightarrow> ret (Inl e)
         | Inr b \<Rightarrow> (case b of
             None \<Rightarrow> ret (Inr 0)
           | Some br \<Rightarrow> handle_breach R wl cfg br now policy wkey curVersion) } }"

definition unsettled_phase :: "'w reconciler \<Rightarrow> policy \<Rightarrow> string \<Rightarrow> string \<Rightarrow> ('w, duration result) op" where
  "unsettled_phase R policy wkey curVersion = do {
     g \<leftarrow> get_gate;
     if Holds g wkey then ret (Inr (rc_RequeueAfter R))
     else (case st_InFlight (p_Status policy) of
         Some f \<Rightarrow>
           if if_DispatchedVersion f = curVersion then do {
             _ \<leftarrow> acquire_slot wkey (if_DispatchedAt f);
             inflight_gauge;
             ret (Inr (rc_RequeueAfter R)) }
           else skip policy ''in_progress''
       | None \<Rightarrow> skip policy ''in_progress'') }"

definition complete_phase ::
  "'w reconciler \<Rightarrow> pod_config \<Rightarrow> time \<Rightarrow> policy \<Rightarrow> string \<Rightarrow> string \<Rightarrow> ('w, duration result) op" where
  "complete_phase R cfg now policy wkey curVersion = do {
     release_slot wkey;
     case st_InFlight (p_Status policy) of
       None \<Rightarrow> ret (Inr 0)
     | Some f \<Rightarrow>
         let outcome = (if if_DispatchedVersion f \<noteq> curVersion then OutcomeSuperseded else OutcomeSettled);
             st1 = CompleteInFlight (rc_Lib R) (p_Status policy) now outcome;
             st2 = RecomputeObservability st1 now (pc_Cooldown cfg) (pc_RestartWindow cfg) (pc_MaxRestartsPerWindow cfg)
         in do {
           r \<leftarrow> Persist (rc_API R) (policy\<lparr>p_Status := st2\<rparr>);
           ret (case fst r of Inl e \<Rightarrow> Inl e | Inr _ \<Rightarrow> Inr 0) } }"

definition settle_phase ::
  "'w reconciler \<Rightarrow> workload \<Rightarrow> pod_config \<Rightarrow> time \<Rightarrow> policy \<Rightarrow> string \<Rightarrow> string \<Rightarrow> ('w, duration result) op" where
  "settle_phase R wl cfg now policy wkey curVersion =
     (case IsSettled (rc_Lib R) wl of
        Inl e \<Rightarrow> if err_is e ErrNotAutoRestartable then skip policy ''not_autorestartable'' else ret (Inl e)
      | Inr settled \<Rightarrow>
          if \<not> settled then unsettled_phase R policy wkey curVersion
          else do {
            g \<leftarrow> get_gate;
            if Holds g wkey then complete_phase R cfg now policy wkey curVersion
            else detect_phase R wl cfg now policy wkey curVersion })"

text \<open>Adopting the live UID; the status is persisted when the recorded UID changed.\<close>

definition workload_phase ::
  "'w reconciler \<Rightarrow> workload \<Rightarrow> pod_config \<Rightarrow> policy \<Rightarrow> string \<Rightarrow> ('w, duration result) op" where
  "workload_phase R wl cfg policy wkey = do {
     now \<leftarrow> call (a_Now (rc_API R));
     let curVersion = TemplateVersion (rc_Lib R) wl
     in (case Workload_UID wl of
        Inl e \<Rightarrow> ret (Inl e)
      | Inr uid \<Rightarrow>
          let policy1 = policy\<lparr>p_Status := AdoptWorkload (p_Status policy) uid\<rparr>
          in if st_WorkloadUID (p_Status policy) \<noteq> st_WorkloadUID (p_Status policy1) then do {
               r \<leftarrow> Persist (rc_API R) policy1;
               case fst r of
                 Inl e \<Rightarrow> ret (Inl e)
               | Inr _ \<Rightarrow> settle_phase R wl cfg now (snd r) wkey curVersion }
             else settle_phase R wl cfg now policy1 wkey curVersion) }"

definition get_workload_phase ::
  "'w reconciler \<Rightarrow> pod_config \<Rightarrow> policy \<Rightarrow> string \<Rightarrow> ('w, duration result) op" where
  "get_workload_phase R cfg policy wkey = do {
     r \<leftarrow> GetWorkload (rc_API R) (wr_Kind (sp_WorkloadRef (p_Spec policy))) (p_Namespace policy)
            (wr_Name (sp_WorkloadRef (p_Spec policy)));
     case r of
       Inl e \<Rightarrow> ret (if err_is e ErrNotFound then Inr (rc_RequeueAfter R) else Inl e)
     | Inr wl \<Rightarrow> workload_phase R wl cfg policy wkey }"

definition live_phase :: "'w reconciler \<Rightarrow> policy \<Rightarrow> string \<Rightarrow> ('w, duration result) op" where
  "live_phase R policy wkey =
     (let cfg = ResolvePolicy (rc_Defaults R) (p_Spec policy)
      in if st_DryRun (p_Status policy) \<noteq> pc_DryRun cfg then do {
           r \<leftarrow> Persist (rc_API R) (policy\<lparr>p_Status := (p_Status policy)\<lparr>st_DryRun := pc_DryRun cfg\<rparr>\<rparr>);
           case fst r of
             Inl e \<Rightarrow> ret (Inl e)
           | Inr _ \<Rightarrow> get_workload_phase R cfg (snd r) wkey }
         else get_workload_phase R cfg policy wkey)"

definition finalize :: "'w reconciler \<Rightarrow> policy \<Rightarrow> string \<Rightarrow> ('w, duration result) op" where
  "finalize R policy wkey =
     (if l_ContainsFinalizer (rc_Lib R) (p_Finalizers policy) PolicyFinalizer then do {
        g \<leftarrow> get_gate;
        _ \<leftarrow> (if Holds g wkey then release_slot wkey else ret ());
        r \<leftarrow> update_policy (rc_API R)
               (policy\<lparr>p_Finalizers := l_RemoveFinalizer (rc_Lib R) (p_Finalizers policy) PolicyFinalizer\<rparr>);
        ret (case r of Inl e \<Rightarrow> Inl e | Inr _ \<Rightarrow> Inr 0) }
      else ret (Inr 0))"

definition add_finalizer_phase :: "'w reconciler \<Rightarrow> policy \<Rightarrow> string \<Rightarrow> ('w, duration result) op" where
  "add_finalizer_phase R policy wkey =
     (case l_AddFinalizer (rc_Lib R) (p_Finalizers policy) PolicyFinalizer of (fs, added) \<Rightarrow>
        if added then do {
          r \<leftarrow> update_policy (rc_API R) (policy\<lparr>p_Finalizers := fs\<rparr>);
          ret (case r of Inl e \<Rightarrow> Inl e | Inr _ \<Rightarrow> Inr 0) }
        else live_phase R policy wkey)"

definition Reconcile :: "'w reconciler \<Rightarrow> string \<Rightarrow> string \<Rightarrow> ('w, duration result) op" where
  "Reconcile R ns name = do {
     g \<leftarrow> call (a_GetPolicy (rc_API R) ns name);
     case g of
       Inl e \<Rightarrow> ret (if err_is e ErrNotFound then Inr 0 else Inl e)
     | Inr policy \<Rightarrow>
         let wkey = WorkloadKey (wr_Kind (sp_WorkloadRef (p_Spec policy))) (p_Namespace policy)
                      (wr_Name (sp_WorkloadRef (p_Spec policy)))
         in if (case p_DeletionTimestamp policy of None \<Rightarrow> False | Some t \<Rightarrow> \<not> time_IsZero t)
            then finalize R policy wkey
            else add_finalizer_phase R policy wkey }"

end
