(* ===== verification/Metrics.thy ===== *)
theory Metrics
  imports Platform
begin

text \<open>
  \<open>internal/metrics/metrics.go\<close>: the collectors with their kinds, names and labels, and their registration.
  The registry is the metrics library's: what it answers to a registration is a parameter.
\<close>

datatype metric_kind = MCounter | MGauge

record collector =
  mc_Kind :: metric_kind
  mc_Name :: string
  mc_Labels :: "string list"

definition NewCounterVec :: "string \<Rightarrow> string list \<Rightarrow> collector" where
  "NewCounterVec name labels = \<lparr>mc_Kind = MCounter, mc_Name = name, mc_Labels = labels\<rparr>"

definition NewGaugeVec :: "string \<Rightarrow> string list \<Rightarrow> collector" where
  "NewGaugeVec name labels = \<lparr>mc_Kind = MGauge, mc_Name = name, mc_Labels = labels\<rparr>"

definition NewGauge :: "string \<Rightarrow> collector" where
  "NewGauge name = NewGaugeVec name []"

definition workload_labels :: "string list" where
  "workload_labels = [''workload_namespace'', ''workload_kind'', ''workload_name'']"

definition PodsMonitored :: collector where
  "PodsMonitored = NewGaugeVec ''memreload_pods_monitored'' workload_labels"
definition ThresholdBreaches :: collector where
  "ThresholdBreaches = NewCounterVec ''memreload_threshold_breaches_total'' (workload_labels @ [''mode''])"
definition RolloutsTriggered :: collector where
  "RolloutsTriggered = NewCounterVec ''memreload_rollouts_triggered_total'' (workload_labels @ [''result''])"
definition RolloutsSkipped :: collector where
  "RolloutsSkipped = NewCounterVec ''memreload_rollouts_skipped_total'' (workload_labels @ [''reason''])"
definition RolloutsDeferred :: collector where
  "RolloutsDeferred = NewCounterVec ''memreload_rollouts_deferred_total'' workload_labels"
definition ProfileCaptures :: collector where
  "ProfileCaptures = NewCounterVec ''memreload_profile_captures_total'' (workload_labels @ [''result''])"
definition Notifications :: collector where
  "Notifications = NewCounterVec ''memreload_notifications_total'' (workload_labels @ [''sink'', ''result''])"
definition ContainersIgnored :: collector where
  "ContainersIgnored = NewGaugeVec ''memreload_containers_ignored'' (workload_labels @ [''reason''])"
definition InflightRollouts :: collector where
  "InflightRollouts = NewGauge ''memreload_inflight_rollouts''"
definition GlobalCap :: collector where
  "GlobalCap = NewGauge ''memreload_global_cap''"
definition SampleBufferSeries :: collector where
  "SampleBufferSeries = NewGauge ''memreload_sample_buffer_series''"
definition DatasourceErrors :: collector where
  "DatasourceErrors = NewCounterVec ''memreload_datasource_errors_total'' [''source'']"
definition Policies :: collector where
  "Policies = NewGaugeVec ''memreload_policies'' [''workload_namespace'', ''dry_run'']"

definition collectors :: "collector list" where
  "collectors = [PodsMonitored, ThresholdBreaches, RolloutsTriggered, RolloutsSkipped, RolloutsDeferred, ProfileCaptures,
     Notifications, ContainersIgnored, InflightRollouts, GlobalCap, SampleBufferSeries, DatasourceErrors, Policies]"

lemmas collector_defs = collectors_def PodsMonitored_def ThresholdBreaches_def RolloutsTriggered_def RolloutsSkipped_def
  RolloutsDeferred_def ProfileCaptures_def Notifications_def ContainersIgnored_def InflightRollouts_def GlobalCap_def
  SampleBufferSeries_def DatasourceErrors_def Policies_def NewCounterVec_def NewGaugeVec_def NewGauge_def workload_labels_def

text \<open>An answer of the registry; a failure other than a duplicate is a panic.\<close>

datatype reg_answer = RegOk | AlreadyRegistered | RegFailed err

fun register_loop :: "(collector \<Rightarrow> 'r \<Rightarrow> reg_answer \<times> 'r) \<Rightarrow> 'r \<Rightarrow> collector list \<Rightarrow> 'r result" where
  "register_loop reg r [] = Inr r"
| "register_loop reg r (c # cs) =
     (case reg c r of
        (RegFailed e, r') \<Rightarrow> Inl e
      | (_, r') \<Rightarrow> register_loop reg r' cs)"

definition RegisterMetrics :: "(collector \<Rightarrow> 'r \<Rightarrow> reg_answer \<times> 'r) \<Rightarrow> 'r \<Rightarrow> 'r result" where
  "RegisterMetrics reg r = register_loop reg r collectors"

section \<open>Uses of a collector\<close>

text \<open>
  \<open>WithLabelValues\<close> panics when it is given another number of values than the collector has labels. An effect
  fits when it names a collector of its kind with that many labels.
\<close>

definition fits :: "metric_kind \<Rightarrow> string \<Rightarrow> nat \<Rightarrow> bool" where
  "fits k name n = list_ex (\<lambda>c. mc_Name c = name \<and> mc_Kind c = k \<and> length (mc_Labels c) = n) collectors"

definition metric_fits :: "effect \<Rightarrow> bool" where
  "metric_fits e = (case e of
      ECounter name ls \<Rightarrow> fits MCounter name (length ls)
    | EGauge name ls v \<Rightarrow> fits MGauge name (length ls)
    | EGaugeReset name \<Rightarrow> list_ex (\<lambda>c. mc_Name c = name \<and> mc_Kind c = MGauge) collectors
    | _ \<Rightarrow> True)"

lemma metric_fits_simps [simp]:
  "metric_fits (EUpdatePolicy p ok)" "metric_fits (EUpdateStatus p ok)" "metric_fits (EEvent r a b c d)"
  "metric_fits (ELog l)" "metric_fits (EHTTP q)" "metric_fits (EStore k j)" "metric_fits (EEnqueue a b)"
  "metric_fits (EPatch x y ok)"
  by (simp_all add: metric_fits_def)

lemma metric_fits_counters [simp]:
  "metric_fits (ECounter ''memreload_threshold_breaches_total'' ls) \<longleftrightarrow> length ls = 4"
  "metric_fits (ECounter ''memreload_rollouts_triggered_total'' ls) \<longleftrightarrow> length ls = 4"
  "metric_fits (ECounter ''memreload_rollouts_skipped_total'' ls) \<longleftrightarrow> length ls = 4"
  "metric_fits (ECounter ''memreload_rollouts_deferred_total'' ls) \<longleftrightarrow> length ls = 3"
  "metric_fits (ECounter ''memreload_profile_captures_total'' ls) \<longleftrightarrow> length ls = 4"
  "metric_fits (ECounter ''memreload_notifications_total'' ls) \<longleftrightarrow> length ls = 5"
  "metric_fits (ECounter ''memreload_datasource_errors_total'' ls) \<longleftrightarrow> length ls = 1"
  by (auto simp: metric_fits_def fits_def collector_defs)

lemma metric_fits_gauges [simp]:
  "metric_fits (EGauge ''memreload_pods_monitored'' ls v) \<longleftrightarrow> length ls = 3"
  "metric_fits (EGauge ''memreload_containers_ignored'' ls v) \<longleftrightarrow> length ls = 4"
  "metric_fits (EGauge ''memreload_policies'' ls v) \<longleftrightarrow> length ls = 2"
  "metric_fits (EGauge ''memreload_inflight_rollouts'' ls v) \<longleftrightarrow> length ls = 0"
  "metric_fits (EGauge ''memreload_global_cap'' ls v) \<longleftrightarrow> length ls = 0"
  "metric_fits (EGauge ''memreload_sample_buffer_series'' ls v) \<longleftrightarrow> length ls = 0"
  "metric_fits (EGaugeReset ''memreload_pods_monitored'')" "metric_fits (EGaugeReset ''memreload_containers_ignored'')"
  "metric_fits (EGaugeReset ''memreload_policies'')"
  by (auto simp: metric_fits_def fits_def collector_defs)

text \<open>Names are unique, so a registry that refuses duplicates only takes them all.\<close>

lemma collectors_distinct: "distinct (map mc_Name collectors)"
  by (simp add: collector_defs)

lemma register_loop_ok:
  "(\<And>c r e. c \<in> set cs \<Longrightarrow> fst (reg c r) \<noteq> RegFailed e) \<Longrightarrow> is_ok (register_loop reg r cs)"
proof (induction cs arbitrary: r)
  case (Cons c cs)
  obtain a r' where a: "reg c r = (a, r')" by (cases "reg c r")
  have "a \<noteq> RegFailed e" for e using Cons.prems [of c r e] a by simp
  then show ?case using Cons.IH [of r'] Cons.prems a by (cases a) auto
qed simp

end
