(* ===== verification/Wiring.thy ===== *)
theory Wiring
  imports Platform
begin

text \<open>
  What ties the parts to the platform: \<open>internal/clock/clock.go\<close>, the registration of the API types in
  \<open>api/v1alpha1/groupversion_info.go\<close> and \<open>cmd/main.go\<close>, and \<open>internal/controller/setup.go\<close> with the channel
  through which the sampler wakes the reconciler. The scheme, the builder of controller-runtime and the channel at work are
  library code and the runtime of Go; what the sampler sends is an effect of its model.
\<close>

section \<open>Clocks\<close>

text \<open>\<open>clock.Real\<close> reads the clock of the platform, \<open>clock.Fake\<close> its own; a mutex makes each of its methods atomic.\<close>

definition Real_Now :: "'w api \<Rightarrow> ('w, time) op" where
  "Real_Now A = call (a_Now A)"

record fake_clock =
  fk_t :: time

definition NewFake :: "time \<Rightarrow> fake_clock" where
  "NewFake t = \<lparr>fk_t = t\<rparr>"

definition Fake_Now :: "fake_clock \<Rightarrow> time \<times> fake_clock" where
  "Fake_Now f = (fk_t f, f)"

definition Fake_Advance :: "fake_clock \<Rightarrow> duration \<Rightarrow> fake_clock" where
  "Fake_Advance f d = f\<lparr>fk_t := time_Add (fk_t f) d\<rparr>"

definition Fake_Set :: "fake_clock \<Rightarrow> time \<Rightarrow> fake_clock" where
  "Fake_Set f t = f\<lparr>fk_t := t\<rparr>"

lemma Fake_Now_advanced: "fst (Fake_Now (fold (\<lambda>d f. Fake_Advance f d) ds f)) = fst (Fake_Now f) + sum_list ds"
  by (induction ds arbitrary: f) (simp_all add: Fake_Advance_def Fake_Now_def)

section \<open>Registration of the API types\<close>

record group_version =
  gv_Group :: string
  gv_Version :: string

definition GroupVersion :: group_version where
  "GroupVersion = \<lparr>gv_Group = ''memreload.io'', gv_Version = ''v1alpha1''\<rparr>"

text \<open>A scheme \<open>'s\<close>, and the library functions on it; a type goes by its name.\<close>

record 's scheme_lib =
  sl_AddKnownTypes :: "'s \<Rightarrow> group_version \<Rightarrow> string list \<Rightarrow> 's"
  sl_AddToGroupVersion :: "'s \<Rightarrow> group_version \<Rightarrow> 's"
  sl_Apply :: "('s \<Rightarrow> 's result) list \<Rightarrow> 's \<Rightarrow> 's result"
  sl_ClientGo :: "'s \<Rightarrow> 's result"

definition addKnownTypes :: "'s scheme_lib \<Rightarrow> 's \<Rightarrow> 's result" where
  "addKnownTypes L s =
     (let s1 = sl_AddKnownTypes L s GroupVersion [''MemoryLeakPolicy'', ''MemoryLeakPolicyList'']
      in Inr (sl_AddToGroupVersion L s1 GroupVersion))"

definition SchemeBuilder :: "'s scheme_lib \<Rightarrow> ('s \<Rightarrow> 's result) list" where
  "SchemeBuilder L = [addKnownTypes L]"

definition AddToScheme :: "'s scheme_lib \<Rightarrow> 's \<Rightarrow> 's result" where
  "AddToScheme L = sl_Apply L (SchemeBuilder L)"

text \<open>\<open>init\<close>: \<open>utilruntime.Must\<close> panics with the error, the left value.\<close>

definition init_scheme :: "'s scheme_lib \<Rightarrow> 's \<Rightarrow> 's result" where
  "init_scheme L s = (case sl_ClientGo L s of Inl e \<Rightarrow> Inl e | Inr s1 \<Rightarrow> AddToScheme L s1)"

section \<open>The event channel\<close>

text \<open>A buffered channel of references to policies, by namespace and name.\<close>

record event_channel =
  ch_Cap :: nat
  ch_Buf :: "(string \<times> string) list"

text \<open>\<open>make(chan event.GenericEvent, 1024)\<close>.\<close>

definition policyEvents :: event_channel where
  "policyEvents = \<lparr>ch_Cap = 1024, ch_Buf = []\<rparr>"

text \<open>What the builder is told: the name, the watched kind, and the channels whose objects are queued.\<close>

record controller_build =
  cb_Name :: string
  cb_For :: string
  cb_Sources :: "event_channel list"

definition SetupWithManager :: "(controller_build \<Rightarrow> unit result) \<Rightarrow> event_channel option \<Rightarrow> unit result" where
  "SetupWithManager Complete events =
     (let b = \<lparr>cb_Name = ''memory-leak-reloader'', cb_For = ''MemoryLeakPolicy'', cb_Sources = []\<rparr>;
          b1 = (case events of None \<Rightarrow> b | Some c \<Rightarrow> b\<lparr>cb_Sources := cb_Sources b @ [c]\<rparr>)
      in Complete b1)"

end
