(* ===== verification/Startup.thy ===== *)
theory Startup
  imports Datasource Routes Expirer Reconciler Metrics Wiring
begin

text \<open>
  \<open>cmd/main.go\<close>: from the flags and the environment to the reconciler, the sampler and the expirer with the
  state they share. Parsing the command line, the cluster connection and its manager, and the library
  parsers are parameters: a named step of the manager either succeeds or fails with an error. What \<open>run\<close>
  hands over to \<open>mgr.Start\<close> is its value here.
\<close>

section \<open>Flags\<close>

text \<open>\<open>stringSlice\<close>, a repeatable flag.\<close>

definition stringSlice_String :: "string list \<Rightarrow> string" where
  "stringSlice_String s = Join '';'' s"

definition stringSlice_Set :: "string list \<Rightarrow> string \<Rightarrow> string list" where
  "stringSlice_Set s v = s @ [v]"

record flags =
  fl_MetricsAddr :: string
  fl_ProbeAddr :: string
  fl_LeaderElect :: bool
  fl_LeaderID :: string
  fl_LogFormat :: string
  fl_LogLevel :: string
  fl_ScopeMode :: string
  fl_Datasource :: string
  fl_Mode :: string
  fl_ThresholdPercent :: int
  fl_Window :: duration
  fl_SampleInterval :: duration
  fl_TrendMinGrowth :: string
  fl_StartupGrace :: duration
  fl_Cooldown :: duration
  fl_GlobalMax :: int
  fl_MaxPerWindow :: int
  fl_RestartWindow :: duration
  fl_InflightTimeout :: duration
  fl_RequeueAfter :: duration
  fl_EnableDeployments :: bool
  fl_EnableStatefulSets :: bool
  fl_EnableRollouts :: bool
  fl_PromURL :: string
  fl_PromQuery :: string
  fl_DDSite :: string
  fl_DDMetric :: string
  fl_ProfileEnabled :: bool
  fl_ProfilePort :: int
  fl_ProfileTimeout :: duration
  fl_ProfileSink :: sink_config
  fl_NotifyEvents :: string
  fl_ClusterName :: string
  fl_SlackDefaultChannel :: string
  fl_NotifyRoutesFile :: string
  fl_Namespaces :: "string list"
  fl_WindowSpecs :: "string list"

definition default_flags :: flags where
  "default_flags = \<lparr>fl_MetricsAddr = '':8080'', fl_ProbeAddr = '':8081'', fl_LeaderElect = True,
     fl_LeaderID = ''memory-leak-reloader'', fl_LogFormat = ''logfmt'', fl_LogLevel = ''info'',
     fl_ScopeMode = ''cluster'', fl_Datasource = ''metrics-server'', fl_Mode = ''sustained'',
     fl_ThresholdPercent = 85, fl_Window = 10 * Minute, fl_SampleInterval = 30 * Second, fl_TrendMinGrowth = ''100Mi'',
     fl_StartupGrace = 5 * Minute, fl_Cooldown = 30 * Minute, fl_GlobalMax = 1, fl_MaxPerWindow = 3,
     fl_RestartWindow = 24 * Hour, fl_InflightTimeout = 15 * Minute, fl_RequeueAfter = 30 * Second,
     fl_EnableDeployments = True, fl_EnableStatefulSets = True, fl_EnableRollouts = True,
     fl_PromURL = '''', fl_PromQuery = ''container_memory_working_set_bytes'', fl_DDSite = ''datadoghq.com'',
     fl_DDMetric = ''kubernetes.memory.working_set'', fl_ProfileEnabled = False, fl_ProfilePort = 6060,
     fl_ProfileTimeout = 10 * Second,
     fl_ProfileSink = \<lparr>sc_Type = ''objectstore'', sc_VolumeDir = ''/var/run/memreload/profiles'', sc_Provider = ''s3'',
       sc_Bucket = '''', sc_Prefix = ''memreload-profiles/'', sc_Region = ''''\<rparr>,
     fl_NotifyEvents = ''RestartTriggered,CircuitBreakerTripped'', fl_ClusterName = '''', fl_SlackDefaultChannel = '''',
     fl_NotifyRoutesFile = ''/etc/memreload/routes/routes.json'', fl_Namespaces = [], fl_WindowSpecs = []\<rparr>"

section \<open>The parameters of a start\<close>

text \<open>The options of the manager: what its cache holds, where it listens, and who may lead.\<close>

record manager_options =
  mo_Namespaces :: "string fset option"
  mo_MetricsAddr :: string
  mo_ProbeAddr :: string
  mo_LeaderElection :: bool
  mo_LeaderElectionID :: string
  mo_LeaderElectionNamespace :: string
  mo_ReleaseOnCancel :: bool

record 'w host =
  ho_Lib :: lib
  ho_Net :: net_lib
  ho_API :: "'w api"
  ho_Getenv :: "string \<Rightarrow> string"
  ho_ParseQuantity :: "string \<Rightarrow> quantity result"
  ho_MetricsClient :: "'w metrics_client result"
  ho_Hostname :: "string \<Rightarrow> string result"
  ho_ReadFile :: "string \<Rightarrow> nat list result"
  ho_ParseRoutes :: "nat list \<Rightarrow> route list result"
  ho_AWS :: "string \<Rightarrow> unit result"
  ho_NewManager :: "manager_options \<Rightarrow> unit result"
  ho_Register :: "collector \<Rightarrow> collector list \<Rightarrow> reg_answer \<times> collector list"
  ho_Complete :: "controller_build \<Rightarrow> unit result"
  ho_Manager :: "string \<Rightarrow> unit result"

definition envOr :: "(string \<Rightarrow> string) \<Rightarrow> string \<Rightarrow> string \<Rightarrow> string" where
  "envOr getenv k d = (if getenv k \<noteq> '''' then getenv k else d)"

definition ownNamespace :: "'w host \<Rightarrow> string" where
  "ownNamespace H = envOr (ho_Getenv H) ''POD_NAMESPACE'' ''default''"

section \<open>The notifier\<close>

definition default_sinks :: "(string \<Rightarrow> string) \<Rightarrow> string \<Rightarrow> string \<Rightarrow> sink list" where
  "default_sinks getenv ddSite slackDefaultChannel =
     (if getenv ''SLACK_BOT_TOKEN'' \<noteq> '''' then [SlackBotSink (getenv ''SLACK_BOT_TOKEN'') slackDefaultChannel]
      else if getenv ''SLACK_WEBHOOK_URL'' \<noteq> '''' then [SlackSink (getenv ''SLACK_WEBHOOK_URL'')] else [])
     @ (if getenv ''WEBHOOK_URL'' \<noteq> '''' then [WebhookSink (getenv ''WEBHOOK_URL'') (getenv ''WEBHOOK_AUTH_HEADER'')] else [])
     @ (if getenv ''DATADOG_EVENT_ENABLED'' = ''true'' then [DatadogEventSink ddSite (getenv ''DD_API_KEY'')] else [])"

definition event_types :: "string \<Rightarrow> string list" where
  "event_types events = filter (\<lambda>e. e \<noteq> '''') (map TrimSpace (Split (CHR '','') events))"

definition buildNotifier :: "'w host \<Rightarrow> string \<Rightarrow> string \<Rightarrow> string \<Rightarrow> string \<Rightarrow> notifier option result" where
  "buildNotifier H events ddSite slackDefaultChannel routesFile =
     (let sinks = default_sinks (ho_Getenv H) ddSite slackDefaultChannel
      in case LoadRoutes (ho_Hostname H) (ho_ParseRoutes H) routesFile (ho_ReadFile H routesFile) of
           Inl e \<Rightarrow> Inl (ErrWrap ''load notification routes'' e)
         | Inr routes \<Rightarrow>
             if length sinks = 0 \<and> fcard (fmdom routes) = 0 then Inr None
             else Inr (Some (NewNotifier sinks routes (event_types events) (5 * Second))))"

section \<open>The parts of the start\<close>

definition cache_namespaces :: "string \<Rightarrow> flags \<Rightarrow> string fset option result" where
  "cache_namespaces own F =
     (if fl_ScopeMode F \<noteq> ''cluster'' then
        (if length (fl_Namespaces F) = 0
         then Inl (ErrMsg (''--namespace is required when --scope-mode='' @ fl_ScopeMode F))
         else Inr (Some (finsert own (fset_of_list (fl_Namespaces F)))))
      else Inr None)"

definition manager_options_of :: "string \<Rightarrow> flags \<Rightarrow> string fset option \<Rightarrow> manager_options" where
  "manager_options_of own F scope = \<lparr>mo_Namespaces = scope, mo_MetricsAddr = fl_MetricsAddr F, mo_ProbeAddr = fl_ProbeAddr F,
     mo_LeaderElection = fl_LeaderElect F, mo_LeaderElectionID = fl_LeaderID F, mo_LeaderElectionNamespace = own,
     mo_ReleaseOnCancel = True\<rparr>"

definition source_options :: "(string \<Rightarrow> string) \<Rightarrow> flags \<Rightarrow> ds_options" where
  "source_options getenv F = \<lparr>so_Type = fl_Datasource F, so_Namespaces = fl_Namespaces F,
     so_Prometheus = \<lparr>po_URL = fl_PromURL F, po_Query = fl_PromQuery F, po_BearerToken = getenv ''PROM_BEARER_TOKEN''\<rparr>,
     so_Datadog = \<lparr>do_Site = fl_DDSite F, do_APIKey = getenv ''DD_API_KEY'', do_AppKey = getenv ''DD_APP_KEY'',
       do_Metric = fl_DDMetric F\<rparr>\<rparr>"

definition build_source :: "'w host \<Rightarrow> flags \<Rightarrow> 'w source result" where
  "build_source H F =
     (let opts = source_options (ho_Getenv H) F; wrap = (\<lambda>r. case r of Inl e \<Rightarrow> Inl (ErrWrap ''build datasource'' e) | Inr s \<Rightarrow> Inr s)
      in if fl_Datasource F = TypeMetricsServer then
           (case ho_MetricsClient H of
              Inl e \<Rightarrow> Inl (ErrWrap ''metrics client'' e)
            | Inr mc \<Rightarrow> wrap (NewSource (ho_Net H) (ho_API H) opts (Some mc)))
         else wrap (NewSource (ho_Net H) (ho_API H) opts None))"

definition build_defaults :: "string \<Rightarrow> quantity \<Rightarrow> flags \<Rightarrow> defaults" where
  "build_defaults detMode growth F = \<lparr>df_Detection = \<lparr>d_Mode = detMode, d_ThresholdPercent = fl_ThresholdPercent F,
       d_ThresholdAbsolute = None, d_Window = fl_Window F, d_TrendMinGrowth = growth\<rparr>,
     df_SampleInterval = fl_SampleInterval F, df_StartupGrace = fl_StartupGrace F, df_Cooldown = fl_Cooldown F,
     df_RestartWindow = fl_RestartWindow F, df_MaxRestartsPerWindow = fl_MaxPerWindow F\<rparr>"

definition build_capturer :: "'w host \<Rightarrow> flags \<Rightarrow> capturer option result" where
  "build_capturer H F =
     (if fl_ProfileEnabled F then
        (case NewSink (ho_AWS H) (fl_ProfileSink F) of
           Inl e \<Rightarrow> Inl (ErrWrap ''build profile sink'' e)
         | Inr sink \<Rightarrow> Inr (Some (NewCapturer sink (fl_ProfilePort F) (fl_ProfileTimeout F))))
      else Inr None)"

text \<open>The retention and the length of the sample buffer; the division panics for a zero interval.\<close>

definition buffer_size :: "flags \<Rightarrow> (duration \<times> int) result" where
  "buffer_size F =
     (let retention = i64 (i64 (fl_Window F * 2) + fl_SampleInterval F)
      in if fl_SampleInterval F = 0 then Inl DivideByZero
         else Inr (retention, i64 (i64 (go_div (fl_Window F) (fl_SampleInterval F)) + 8)))"

record 'w controller =
  co_Reconciler :: "'w reconciler"
  co_Sampler :: "'w sampler"
  co_Expirer :: "'w expirer"
  co_Gate :: gate
  co_Store :: sample_store

definition build_controller ::
  "'w host \<Rightarrow> flags \<Rightarrow> 'w source \<Rightarrow> defaults \<Rightarrow> windows \<Rightarrow> capturer option \<Rightarrow> notifier option
     \<Rightarrow> duration \<Rightarrow> int \<Rightarrow> 'w controller" where
  "build_controller H F src defaults windows capturer notifier retention maxLen =
     (let kinds = \<lparr>kd_Deployments = fl_EnableDeployments F, kd_StatefulSets = fl_EnableStatefulSets F,
            kd_Rollouts = fl_EnableRollouts F\<rparr>
      in \<lparr>co_Reconciler = \<lparr>rc_Lib = ho_Lib H, rc_API = ho_API H, rc_Defaults = defaults, rc_Kinds = kinds,
            rc_Windows = windows, rc_Capturer = capturer, rc_ProfileEnabled = fl_ProfileEnabled F, rc_Notifier = notifier,
            rc_ClusterName = fl_ClusterName F, rc_RequeueAfter = fl_RequeueAfter F\<rparr>,
          co_Sampler = \<lparr>sm_Lib = ho_Lib H, sm_API = ho_API H, sm_Source = src, sm_Defaults = defaults, sm_Kinds = kinds,
            sm_Namespaces = fl_Namespaces F, sm_Interval = fl_SampleInterval F, sm_Events = True\<rparr>,
          co_Expirer = newExpirer (ho_Lib H) (ho_API H) True (fl_InflightTimeout F) (fl_RequeueAfter F),
          co_Gate = NewGate (fl_GlobalMax F), co_Store = NewStore retention maxLen\<rparr>)"

section \<open>The start\<close>

text \<open>\<open>if err != nil { return wrap(err) }\<close>, and the same for a value at hand.\<close>

definition guarded :: "(err \<Rightarrow> err) \<Rightarrow> 'a result \<Rightarrow> ('a \<Rightarrow> ('w, 'b result) op) \<Rightarrow> ('w, 'b result) op" where
  "guarded wrap r k = (case r of Inl e \<Rightarrow> ret (Inl (wrap e)) | Inr x \<Rightarrow> k x)"

text \<open>From the windows to the last check handed to the manager.\<close>

definition setup_controller ::
  "'w host \<Rightarrow> flags \<Rightarrow> quantity \<Rightarrow> string \<Rightarrow> 'w source \<Rightarrow> ('w, 'w controller result) op" where
  "setup_controller H F growth detMode src =
     guarded (ErrWrap ''invalid --maintenance-window'') (ParseString (l_tzdb (ho_Lib H)) (stringSlice_String (fl_WindowSpecs F)))
       (\<lambda>windows. guarded id (build_capturer H F)
       (\<lambda>capturer. guarded id (buildNotifier H (fl_NotifyEvents F) (fl_DDSite F) (fl_SlackDefaultChannel F) (fl_NotifyRoutesFile F))
       (\<lambda>notifier. guarded id (buffer_size F)
       (\<lambda>sz. guarded (ErrWrap ''setup reconciler'') (SetupWithManager (ho_Complete H) (Some policyEvents))
       (\<lambda>_. guarded (ErrWrap ''add sampler'') (ho_Manager H ''sampler'')
       (\<lambda>_. guarded (ErrWrap ''add expirer'') (ho_Manager H ''expirer'')
       (\<lambda>_. guarded id (ho_Manager H ''healthz'')
       (\<lambda>_. guarded id (ho_Manager H ''readyz'')
       (\<lambda>_. do {
          emit (ELog ''starting controller'');
          ret (Inr (build_controller H F src (build_defaults detMode growth F) windows capturer notifier
                      (fst sz) (snd sz))) })))))))))"

definition run :: "'w host \<Rightarrow> flags \<Rightarrow> ('w, 'w controller result) op" where
  "run H F =
     guarded (ErrWrap ''invalid --trend-min-growth'') (ho_ParseQuantity H (fl_TrendMinGrowth F))
       (\<lambda>growth. guarded id (ParseMode (fl_Mode F))
       (\<lambda>detMode. guarded id (cache_namespaces (ownNamespace H) F)
       (\<lambda>scope. guarded (ErrWrap ''create manager'') (ho_NewManager H (manager_options_of (ownNamespace H) F scope))
       (\<lambda>_. guarded id (RegisterMetrics (ho_Register H) [])
       (\<lambda>_. do {
          emit (EGauge ''memreload_global_cap'' [] (fl_GlobalMax F));
          guarded id (build_source H F) (\<lambda>src. do {
            probed \<leftarrow> src_Probe src;
            guarded (ErrWrap (''datasource probe ('' @ src_Name src @ '')'')) probed (\<lambda>_. do {
              emit (ELog ''datasource ready'');
              setup_controller H F growth detMode src }) }) })))))"

text \<open>\<open>main\<close>: the exit status of the process that fails to start.\<close>

definition main_status :: "'a result \<Rightarrow> int option" where
  "main_status r = (case r of Inl e \<Rightarrow> Some 1 | Inr c \<Rightarrow> None)"

section \<open>Lemmas\<close>

text \<open>\<open>starts P m\<close>: a value of \<open>m\<close> is an error or satisfies \<open>P\<close>.\<close>

definition starts :: "('a \<Rightarrow> bool) \<Rightarrow> ('w, 'a result) op \<Rightarrow> bool" where
  "starts P m \<longleftrightarrow> (\<forall>s. wp m (\<lambda>r _. \<forall>x. r = Inr x \<longrightarrow> P x) s)"

lemma starts_guarded: "(\<And>x. r = Inr x \<Longrightarrow> starts P (k x)) \<Longrightarrow> starts P (guarded wrap r k)"
  by (cases r) (simp_all add: guarded_def starts_def)

lemma starts_bind: "(\<And>a. starts P (f a)) \<Longrightarrow> starts P (State_Monad.bind m f)"
  by (auto simp: starts_def intro: wp_runI)

lemma starts_ret: "P x \<Longrightarrow> starts P (ret (Inr x))"
  by (simp add: starts_def)

lemmas starts_rules = starts_guarded starts_bind starts_ret

text \<open>What \<open>run\<close> hands over, whichever flags it was started with.\<close>

definition well_started :: "flags \<Rightarrow> 'w controller \<Rightarrow> bool" where
  "well_started F c \<longleftrightarrow>
     usage_source (sm_Source (co_Sampler c))
     \<and> ParseMode (fl_Mode F) = Inr (d_Mode (df_Detection (rc_Defaults (co_Reconciler c))))
     \<and> sm_Defaults (co_Sampler c) = rc_Defaults (co_Reconciler c) \<and> sm_Kinds (co_Sampler c) = rc_Kinds (co_Reconciler c)
     \<and> co_Gate c = NewGate (fl_GlobalMax F) \<and> 0 < ex_Interval (co_Expirer c)
     \<and> (fl_ScopeMode F \<noteq> ''cluster'' \<longrightarrow> sm_Namespaces (co_Sampler c) \<noteq> [])
     \<and> (rc_Capturer (co_Reconciler c) \<noteq> None \<longleftrightarrow> rc_ProfileEnabled (co_Reconciler c))
     \<and> (case buffer_size F of Inl _ \<Rightarrow> False | Inr (retention, maxLen) \<Rightarrow> co_Store c = NewStore retention maxLen)"

lemma newExpirer_interval: "0 < ex_Interval (newExpirer L A st to iv)"
  by (simp add: newExpirer_def duration_units)

lemma build_source_ok: "build_source H F = Inr src \<Longrightarrow> usage_source src"
  by (auto simp: build_source_def Let_def split: if_splits sum.splits intro: NewSource_usage_source)

lemma build_capturer_ok: "build_capturer H F = Inr c \<Longrightarrow> (\<exists>y. c = Some y) \<longleftrightarrow> fl_ProfileEnabled F"
  by (auto simp: build_capturer_def split: if_splits sum.splits)

lemma cache_namespaces_ok: "cache_namespaces own F = Inr x \<Longrightarrow> fl_ScopeMode F \<noteq> ''cluster'' \<longrightarrow> fl_Namespaces F \<noteq> []"
  by (auto simp: cache_namespaces_def split: if_splits)

lemma setup_controller_starts:
  assumes "usage_source src" and "ParseMode (fl_Mode F) = Inr detMode"
    and "fl_ScopeMode F \<noteq> ''cluster'' \<longrightarrow> fl_Namespaces F \<noteq> []"
  shows "starts (well_started F) (setup_controller H F growth detMode src)"
  unfolding setup_controller_def
  by (intro starts_rules)
     (use assms in \<open>simp add: well_started_def build_controller_def build_defaults_def Let_def newExpirer_interval
        build_capturer_ok split: prod.split\<close>)

lemma run_starts: "starts (well_started F) (run H F)"
  unfolding run_def
  by (intro starts_rules setup_controller_starts build_source_ok cache_namespaces_ok)
     (assumption | auto simp: ParseMode_def split: if_splits)+

section \<open>Regular sampling\<close>

text \<open>The observations \<open>x 0\<close> to \<open>x n\<close> of one container that does not restart.\<close>

fun observe_upto :: "sample_store \<Rightarrow> key \<Rightarrow> (nat \<Rightarrow> sample) \<Rightarrow> int \<Rightarrow> nat \<Rightarrow> sample_store" where
  "observe_upto s k x rc 0 = Observe s k (x 0) rc"
| "observe_upto s k x rc (Suc n) = Observe (observe_upto s k x rc n) k (x (Suc n)) rc"

text \<open>Filtering an increasing series by a lower bound drops a front, whose last sample is below the bound.\<close>

lemma filter_upt_front:
  fixes f :: "nat \<Rightarrow> int"
  assumes "mono f" and "lo \<le> N"
  shows "\<exists>lo'. lo \<le> lo' \<and> lo' \<le> N \<and> filter (\<lambda>j. \<not> f j < c) [lo..<N] = [lo'..<N] \<and> (lo' = lo \<or> f (lo' - 1) < c)"
  using assms(2)
proof (induction "N - lo" arbitrary: lo)
  case 0
  then show ?case by (intro exI [of _ lo]) simp
next
  case (Suc d)
  then have lo: "lo < N" by simp
  show ?case
  proof (cases "f lo < c")
    case True
    obtain lo' where "Suc lo \<le> lo'" "lo' \<le> N" "filter (\<lambda>j. \<not> f j < c) [Suc lo..<N] = [lo'..<N]"
      "lo' = Suc lo \<or> f (lo' - 1) < c"
      using Suc.hyps(1) [of "Suc lo"] Suc.hyps(2) lo by (metis Suc_diff_Suc Suc_inject Suc_leI diff_Suc_1)
    then show ?thesis using True lo by (intro exI [of _ lo']) (auto simp: upt_conv_Cons)
  next
    case False
    have "filter (\<lambda>j. \<not> f j < c) [lo..<N] = [lo..<N]"
      using False monoD [OF assms(1), of lo] by (auto intro!: filter_True simp: not_less intro: order.trans)
    then show ?thesis using lo by (intro exI [of _ lo]) simp
  qed
qed

lemma keep_recent_upt:
  assumes "filter (\<lambda>j. \<not> s_Time (x j) < c) [lo..<N] = [l1..<N]"
  shows "keep_recent c m (map x [lo..<N]) = map x [l1 + (N - l1 - nat m)..<N]"
proof -
  have "filter (\<lambda>y. \<not> time_Before (s_Time y) c) (map x [lo..<N]) = map x [l1..<N]"
    using assms by (simp add: filter_map o_def time_Before_def)
  then show ?thesis by (simp add: keep_recent_def Let_def drop_map)
qed

text \<open>What a store of the size \<open>run\<close> gives it keeps of a regular series: all of it, or at least a window.\<close>

lemma keep_recent_regular:
  fixes t0 iv w :: int
  assumes iv: "0 < iv" and w: "0 < w" and t: "\<And>j. s_Time (x j) = t0 + int j * iv"
    and lo: "lo \<le> n" "lo = 0 \<or> w \<le> int (n - lo) * iv"
  shows "\<exists>lo'. lo' \<le> Suc n \<and> (lo' = 0 \<or> w \<le> int (Suc n - lo') * iv) \<and>
    keep_recent (t0 + int (Suc n) * iv - (2 * w + iv)) (w div iv + 8) (map x [lo..<Suc (Suc n)]) = map x [lo'..<Suc (Suc n)]"
proof -
  let ?N = "Suc (Suc n)" and ?c = "t0 + int (Suc n) * iv - (2 * w + iv)" and ?m = "nat (w div iv + 8)"
  have m: "mono (\<lambda>j. s_Time (x j))" using iv by (auto simp: mono_def t intro: mult_right_mono)
  obtain l1 where l1: "lo \<le> l1" "l1 \<le> ?N" "filter (\<lambda>j. \<not> s_Time (x j) < ?c) [lo..<?N] = [l1..<?N]"
    "l1 = lo \<or> s_Time (x (l1 - 1)) < ?c"
    using filter_upt_front [OF m, of lo ?N ?c] lo(1) by auto
  have "w = w div iv * iv + w mod iv" "w mod iv < iv" "int ?m = w div iv + 8"
    using iv w pos_imp_zdiv_nonneg_iff [OF iv, of w] by simp_all
  then have len: "w < int ?m * iv - 7 * iv" by (simp only: algebra_simps)
  define l2 where "l2 = l1 + (?N - l1 - ?m)"
  have eq: "keep_recent ?c (w div iv + 8) (map x [lo..<?N]) = map x [l2..<?N]"
    unfolding l2_def by (rule keep_recent_upt [OF l1(3)])
  consider "l2 = 0" | "l2 > l1" | "l2 = l1" "l1 > lo" | "l2 = l1" "l1 = lo" "lo > 0"
    using l1(1) unfolding l2_def by linarith
  then have "l2 \<le> Suc n \<and> (l2 = 0 \<or> w \<le> int (Suc n - l2) * iv)"
  proof cases
    case 2
    then have "?N - l2 = ?m" by (auto simp: l2_def)
    moreover have "8 \<le> ?m" using pos_imp_zdiv_nonneg_iff [OF iv, of w] w by simp
    ultimately have A: "int (Suc n - l2) = int ?m - 1" and B: "l2 \<le> Suc n" by linarith+
    have "int (Suc n - l2) * iv = int ?m * iv - iv" unfolding A by (simp only: left_diff_distrib mult_1)
    then have "w \<le> int (Suc n - l2) * iv" using len iv by linarith
    then show ?thesis using B by blast
  next
    case 3
    have "(int l1 - 1) * iv < (int (Suc n)) * iv - (2 * w + iv)"
      using l1(4) 3 by (simp add: t of_nat_diff)
    then have "2 * w < (int (Suc n) - int l1) * iv" by (simp add: algebra_simps)
    moreover from this w iv have "0 < int (Suc n) - int l1"
      by (metis mult_2 add_pos_pos order.strict_trans zero_less_mult_pos2)
    ultimately show ?thesis using 3 w by (auto simp: of_nat_diff)
  next
    case 4
    then have "w \<le> int (n - lo) * iv" using lo(2) by simp
    also have "\<dots> \<le> int (Suc n - l2) * iv" using 4 lo(1) iv by (intro mult_right_mono) auto
    finally show ?thesis using 4 lo(1) by simp
  qed simp
  then show ?thesis using eq by blast
qed

text \<open>The store \<open>run\<close> builds, for flags without overflow.\<close>

lemma buffer_size_plain:
  assumes "0 < fl_SampleInterval F" and "0 < fl_Window F" and "2 * fl_Window F + fl_SampleInterval F \<le> maxDuration"
  shows "buffer_size F = Inr (2 * fl_Window F + fl_SampleInterval F, fl_Window F div fl_SampleInterval F + 8)"
proof -
  have "fl_Window F div fl_SampleInterval F \<le> fl_Window F"
    using zdiv_mono2 [of "fl_Window F" 1 "fl_SampleInterval F"] assms(1,2) by simp
  then show ?thesis
    using assms pos_imp_zdiv_nonneg_iff [OF assms(1), of "fl_Window F"]
    by (simp add: buffer_size_def Let_def in_i64_def maxDuration_def mult.commute)
qed

lemma observe_upto_regular:
  fixes t0 iv w :: int
  assumes iv: "0 < iv" and w: "0 < w" and t: "\<And>j. s_Time (x j) = t0 + int j * iv" and max: "2 * w + iv \<le> maxDuration"
  defines "s \<equiv> NewStore (2 * w + iv) (w div iv + 8)"
  shows "store_ok (observe_upto s k x rc n) \<and> sto_retention (observe_upto s k x rc n) = 2 * w + iv
    \<and> sto_maxLen (observe_upto s k x rc n) = w div iv + 8
    \<and> (\<exists>lo. lo \<le> n \<and> (lo = 0 \<or> w \<le> int (n - lo) * iv) \<and>
        fmlookup (sto_data (observe_upto s k x rc n)) k = Some \<lparr>ser_samples = map x [lo..<Suc n], ser_lastRestarts = rc\<rparr>)"
proof (induction n)
  case 0
  have pos: "0 \<le> w div iv" using w by (simp add: pos_imp_zdiv_nonneg_iff [OF iv])
  have ok: "store_ok s" unfolding s_def by (rule NewStore_ok) (use iv w max in auto)
  have seen: "seen_before s k (s_Time (x 0))" by (simp add: seen_before_def Samples_def s_def NewStore_def)
  have l: "fmlookup (sto_data (Observe s k (x 0) rc)) k = Some \<lparr>ser_samples = [x 0], ser_lastRestarts = rc\<rparr>"
    unfolding Observe_lookup [OF ok seen]
    using pos iv w by (simp add: pending_samples_def s_def NewStore_def keep_recent_def Let_def)
  show ?case using l Observe_ok [OF ok seen] pos by (simp add: s_def NewStore_def)
next
  case (Suc n)
  let ?s = "observe_upto s k x rc n"
  obtain lo where lo: "lo \<le> n" "lo = 0 \<or> w \<le> int (n - lo) * iv"
    "fmlookup (sto_data ?s) k = Some \<lparr>ser_samples = map x [lo..<Suc n], ser_lastRestarts = rc\<rparr>" and ok: "store_ok ?s"
    and sz: "sto_retention ?s = 2 * w + iv" "sto_maxLen ?s = w div iv + 8"
    using Suc.IH by blast
  have seen: "seen_before ?s k (s_Time (x (Suc n)))"
    using iv by (auto simp: seen_before_def Samples_def lo(3) t intro!: mult_right_mono)
  have "pending_samples ?s k rc @ [x (Suc n)] = map x [lo..<Suc (Suc n)]"
    using lo(1) by (simp add: pending_samples_def lo(3))
  moreover obtain lo' where "lo' \<le> Suc n" "lo' = 0 \<or> w \<le> int (Suc n - lo') * iv"
    "keep_recent (t0 + int (Suc n) * iv - (2 * w + iv)) (w div iv + 8) (map x [lo..<Suc (Suc n)]) = map x [lo'..<Suc (Suc n)]"
    using keep_recent_regular [OF iv w t lo(1,2)] by blast
  ultimately show ?case
    using Observe_ok [OF ok seen, of rc] Observe_lookup [OF ok seen, of rc] sz
    by (auto simp: t simp del: upt_Suc of_nat_Suc intro!: exI [of _ lo'])
qed

text \<open>
  C20: the store that \<open>run\<close> sizes from the flags is big enough for its own detection window. A container
  sampled once per interval without a restart counts as covered from the moment one default window of
  samples has gone by, and stays covered at every later sample: neither the retention nor the length of
  the buffer ever drops a sample the window still needs.
\<close>

theorem default_window_gets_covered:
  assumes "0 < fl_SampleInterval F" and "0 < fl_Window F" and "2 * fl_Window F + fl_SampleInterval F \<le> maxDuration"
    and "buffer_size F = Inr (retention, maxLen)"
    and "\<And>j. s_Time (x j) = t0 + int j * fl_SampleInterval F" and "fl_Window F \<le> int n * fl_SampleInterval F"
  shows "StoreWindowCovered (observe_upto (NewStore retention maxLen) k x rc n) k (fl_Window F) (s_Time (x n))"
proof -
  let ?iv = "fl_SampleInterval F" and ?w = "fl_Window F"
  have sz: "retention = 2 * ?w + ?iv" "maxLen = ?w div ?iv + 8"
    using assms(4) buffer_size_plain [OF assms(1-3)] by simp_all
  obtain lo where lo: "lo \<le> n" "lo = 0 \<or> ?w \<le> int (n - lo) * ?iv"
    "fmlookup (sto_data (observe_upto (NewStore retention maxLen) k x rc n)) k
       = Some \<lparr>ser_samples = map x [lo..<Suc n], ser_lastRestarts = rc\<rparr>"
    using observe_upto_regular [OF assms(1,2) assms(5) assms(3)] unfolding sz by blast
  have span: "?w \<le> int (n - lo) * ?iv" using lo(2) assms(6) by auto
  with assms(1,2) have "lo < n" using lo(1) by (cases "lo = n") auto
  moreover have "?w \<le> maxDuration" using assms(1-3) by simp
  moreover have "int lo * ?iv \<le> int n * ?iv - ?w" using span lo(1) by (simp add: of_nat_diff algebra_simps)
  ultimately show ?thesis
    using assms(2) by (simp add: StoreWindowCovered_def lo(3) assms(5) nth_append del: upt_Suc)
qed

lemma default_window_gets_covered_witness:
  "StoreWindowCovered (observe_upto (NewStore (1230 * Second) 28) demo_key
      (\<lambda>j. \<lparr>s_Time = int j * (30 * Second), s_WorkingSet = 900, s_Limit = 1000\<rparr>) 0 20) demo_key (10 * Minute) (600 * Second)"
proof -
  have b: "buffer_size default_flags = Inr (1230 * Second, 28)"
    by (simp add: buffer_size_def default_flags_def duration_units Let_def in_i64_def)
  show ?thesis
    using default_window_gets_covered [OF _ _ _ b,
        of "\<lambda>j. \<lparr>s_Time = int j * (30 * Second), s_WorkingSet = 900, s_Limit = 1000\<rparr>" 0 20 demo_key 0]
    by (simp add: default_flags_def duration_units maxDuration_def)
qed

text \<open>
  C21: a controller that starts is wired as its parts expect. Its sampler reads a source that leaves the
  slots and the samples alone; its detection mode is one of the three; sampler and reconciler share the
  defaults and the workload kinds; its gate is empty and capped by the flag; its expirer has a positive
  interval; outside cluster scope the namespaces are given; a capturer is present exactly when profiling is
  on; and its sample store has the size the flags ask for.
\<close>

theorem started_controller_sound:
  assumes "run_state (run H F) s = (Inr c, t)"
  shows "well_started F c"
  using assms run_starts [of F H] by (auto simp: starts_def dest: spec [of _ s] wp_run)

definition demo_host :: "cluster host" where
  "demo_host = \<lparr>ho_Lib = demo_lib,
     ho_Net = \<lparr>nl_Query = (\<lambda>u kvs. Inr u), nl_ParseFloat = (\<lambda>s. Inl (ErrMsg s)), nl_IntOf = (\<lambda>x. 0)\<rparr>,
     ho_API = demo_api, ho_Getenv = (\<lambda>v. ''''),
     ho_ParseQuantity = (\<lambda>s. Inr \<lparr>q_Value = 104857600, q_String = s\<rparr>),
     ho_MetricsClient = Inr (\<lambda>ns n w. (Inr [], w)), ho_Hostname = (\<lambda>u. Inr ''''), ho_ReadFile = (\<lambda>p. Inl ErrNotFound),
     ho_ParseRoutes = (\<lambda>b. Inr []), ho_AWS = (\<lambda>r. Inr ()), ho_NewManager = (\<lambda>sc. Inr ()),
     ho_Register = (\<lambda>c cs. if c \<in> set cs then (AlreadyRegistered, cs) else (RegOk, c # cs)), ho_Complete = (\<lambda>b. Inr ()),
     ho_Manager = (\<lambda>st. Inr ())\<rparr>"

lemma demo_steps:
  "ho_ParseQuantity demo_host v = Inr \<lparr>q_Value = 104857600, q_String = v\<rparr>" "ho_NewManager demo_host scope = Inr ()"
  "ho_Manager demo_host what = Inr ()" "SetupWithManager (ho_Complete demo_host) ev = Inr ()" "ParseMode (fl_Mode default_flags) = Inr ModeSustained"
  "cache_namespaces own default_flags = Inr None" "build_capturer demo_host default_flags = Inr None"
  "buildNotifier demo_host events site channel path = Inr None"
  by (simp_all add: demo_host_def default_flags_def ParseMode_def mode_defs cache_namespaces_def build_capturer_def
      buildNotifier_def default_sinks_def LoadRoutes_def SetupWithManager_def Let_def)

lemma demo_buffer: "buffer_size default_flags = Inr (1230 * Second, 28)"
  by (simp add: buffer_size_def default_flags_def duration_units Let_def in_i64_def)

lemma demo_windows: "ParseString tzdb (stringSlice_String (fl_WindowSpecs default_flags)) = Inr []"
  by (simp add: default_flags_def stringSlice_String_def ParseString_def TrimSpace_def)

lemma demo_registered: "\<exists>cs. RegisterMetrics (ho_Register demo_host) [] = Inr cs"
proof -
  have "is_ok (RegisterMetrics (ho_Register demo_host) [])"
    unfolding RegisterMetrics_def by (rule register_loop_ok) (simp add: demo_host_def)
  then show ?thesis by (simp add: is_ok_iff)
qed

lemma demo_start: "wp (run demo_host default_flags) (\<lambda>r _. is_ok r) sampled_sys"
proof -
  have s: "\<exists>src. build_source demo_host default_flags = Inr src \<and> src_Probe src = ms_Probe (\<lambda>ns n w. (Inr [], w)) []"
    by (simp add: build_source_def default_flags_def demo_host_def TypeMetricsServer_def NewSource_def source_options_def)
  then obtain src where src: "build_source demo_host default_flags = Inr src"
    "src_Probe src = ms_Probe (\<lambda>ns n w. (Inr [], w)) []" by blast
  obtain cs where "RegisterMetrics (ho_Register demo_host) [] = Inr cs" using demo_registered by blast
  then show ?thesis
    by (simp add: run_def setup_controller_def guarded_def src demo_windows demo_buffer demo_steps ms_Probe_def)
qed

lemma started_controller_sound_witness:
  "\<exists>c t. run_state (run demo_host default_flags) sampled_sys = (Inr c, t) \<and> co_Gate c = NewGate 1 \<and> sto_maxLen (co_Store c) = 28"
proof -
  obtain c t where r: "run_state (run demo_host default_flags) sampled_sys = (Inr c, t)"
    using demo_start by (auto simp: wp_def is_ok_iff split: prod.splits)
  have "co_Gate c = NewGate 1 \<and> sto_maxLen (co_Store c) = 28"
    using started_controller_sound [OF r] by (simp add: well_started_def NewStore_def demo_buffer) (simp add: default_flags_def)
  with r show ?thesis by blast
qed

lemma setup_refuses:
  assumes "fl_SampleInterval F = 0 \<or> \<not> is_ok (build_capturer H F)"
  shows "wp (setup_controller H F growth mode src) (\<lambda>r _. \<not> is_ok r) s"
  using assms by (auto simp: setup_controller_def guarded_def buffer_size_def Let_def split: sum.splits)

lemma build_source_unknown:
  "fl_Datasource F \<notin> {[], TypeMetricsServer, TypePrometheus, TypeDatadog} \<Longrightarrow> \<not> is_ok (build_source H F)"
  by (auto simp: build_source_def NewSource_def source_options_def Let_def)

text \<open>
  C37: bad flags never start a controller. An unknown detection mode, or a narrower scope without a
  namespace, is refused before anything is touched; an unknown datasource, a profile sink that cannot be
  built and a zero sampling interval later, whatever the cluster answers.
\<close>

theorem run_refuses_bad_flags:
  "(fl_Mode F \<notin> {ModeSustained, ModeTrend, ModeCombined} \<or> (fl_ScopeMode F \<noteq> ''cluster'' \<and> fl_Namespaces F = [])
      \<longrightarrow> wp (run H F) (\<lambda>r t. \<not> is_ok r \<and> t = s) s)
   \<and> (fl_Datasource F \<notin> {[], TypeMetricsServer, TypePrometheus, TypeDatadog} \<or> fl_SampleInterval F = 0
      \<or> \<not> is_ok (build_capturer H F) \<longrightarrow> wp (run H F) (\<lambda>r _. \<not> is_ok r) s)"
proof (intro conjI impI)
  assume "fl_Mode F \<notin> {ModeSustained, ModeTrend, ModeCombined} \<or> (fl_ScopeMode F \<noteq> ''cluster'' \<and> fl_Namespaces F = [])"
  then have "\<not> is_ok (ParseMode (fl_Mode F)) \<or> \<not> is_ok (cache_namespaces own F)" for own
    by (auto simp: ParseMode_def cache_namespaces_def)
  then show "wp (run H F) (\<lambda>r t. \<not> is_ok r \<and> t = s) s"
    by (auto simp: run_def guarded_def is_ok_iff split: sum.splits)
next
  assume bad: "fl_Datasource F \<notin> {[], TypeMetricsServer, TypePrometheus, TypeDatadog} \<or> fl_SampleInterval F = 0
      \<or> \<not> is_ok (build_capturer H F)"
  have "wp (setup_controller H F growth mode src) (\<lambda>r _. \<not> is_ok r) t" if "build_source H F = Inr src" for growth mode src t
    by (rule setup_refuses) (use bad build_source_unknown [of F H] that in \<open>auto simp del: insert_iff\<close>)
  then show "wp (run H F) (\<lambda>r _. \<not> is_ok r) s"
    by (auto simp: run_def guarded_def intro!: wp_runI [of "src_Probe _"] split: sum.splits)
qed

lemma run_refuses_bad_flags_witness:
  "\<not> is_ok (fst (run_state (run demo_host (default_flags\<lparr>fl_Mode := ''leaky''\<rparr>)) sampled_sys))
   \<and> \<not> is_ok (fst (run_state (run demo_host (default_flags\<lparr>fl_SampleInterval := 0\<rparr>)) sampled_sys))"
  using run_refuses_bad_flags [of "default_flags\<lparr>fl_Mode := ''leaky''\<rparr>" demo_host sampled_sys]
    run_refuses_bad_flags [of "default_flags\<lparr>fl_SampleInterval := 0\<rparr>" demo_host sampled_sys]
  by (auto simp: mode_defs wp_def split: prod.splits)

text \<open>
  A sampling interval of zero is not refused but panics: with everything else in order the set-up divides by
  it, although the sampler itself reads a non-positive interval as thirty seconds.
\<close>

lemma zero_interval_panics:
  assumes "fl_SampleInterval F = 0" and "build_capturer H F = Inr c"
    and "ParseString (l_tzdb (ho_Lib H)) (stringSlice_String (fl_WindowSpecs F)) = Inr ws"
    and "buildNotifier H (fl_NotifyEvents F) (fl_DDSite F) (fl_SlackDefaultChannel F) (fl_NotifyRoutesFile F) = Inr n"
  shows "wp (setup_controller H F growth mode src) (\<lambda>r t. r = Inl DivideByZero \<and> t = s) s"
  using assms by (simp add: setup_controller_def guarded_def buffer_size_def Let_def)

end
