(* ===== verification/ReconcilerSafety.thy ===== *)
theory ReconcilerSafety
  imports Reconciler
begin

text \<open>
  What the restart loop guarantees: it patches a workload at most once and only right after a successful
  record of the restart, never in dry-run and never past a closed gate; it does not leak slots, whatever
  fails; and it does not panic.
\<close>

section \<open>Effects that are not a restart\<close>

definition no_patch :: "effect \<Rightarrow> bool" where
  "no_patch e \<longleftrightarrow> (case e of EPatch x y ok \<Rightarrow> False | _ \<Rightarrow> True)"

lemma no_patch_simps [simp]:
  "no_patch (EUpdatePolicy p ok)" "no_patch (EUpdateStatus p ok)" "no_patch (EEvent r a b c d)"
  "no_patch (ECounter m ls)" "no_patch (EGauge m ls n)" "no_patch (EGaugeReset m)" "no_patch (ELog l)"
  "no_patch (EHTTP q)" "no_patch (EStore k j)" "no_patch (EEnqueue a b)" "\<not> no_patch (EPatch x y ok)"
  by (simp_all add: no_patch_def)

lemma adds_slots [adding]:
  "(\<And>n. P (EGauge ''memreload_inflight_rollouts'' [] n)) \<Longrightarrow> adds P inflight_gauge"
  "(\<And>n. P (EGauge ''memreload_inflight_rollouts'' [] n)) \<Longrightarrow> adds P (release_slot k)"
  "adds P (acquire_slot k now)"
  unfolding release_slot_def inflight_gauge_def acquire_slot_def by (intro adding; simp)+

lemma adds_skip [adding]:
  "(\<And>ls. P (ECounter ''memreload_rollouts_skipped_total'' ls)) \<Longrightarrow> adds P (skip p r)"
  "(\<And>ls. P (ECounter ''memreload_rollouts_skipped_total'' ls)) \<Longrightarrow> adds P (skipRequeue R p r)"
  unfolding skip_def skipRequeue_def by (intro adding; simp)+

lemma adds_warn [adding]: "adds no_patch (warnUnmonitorableOnce pod)"
  by (auto simp: adds_def warnUnmonitorableOnce_def)

lemma adds_would [adding]: "adds P (recentlyWouldRestart k now cd)" "adds P (store_would_restart k now)"
  by (auto simp: adds_def recentlyWouldRestart_def store_would_restart_def)

lemma adds_no_patch_Notify [adding]: "adds no_patch (Notify L A n e)"
  by (rule adds_mono [OF adds_Notify]) (auto simp: notify_effect_def split: effect.splits)

lemma adds_no_patch_Capture [adding]: "adds no_patch (Capture A c ip path key)"
  by (rule adds_mono [OF adds_Capture]) (auto simp: capture_effect_def split: effect.splits)

lemma adds_known_routes [adding]: "adds no_patch (known_routes R wl names)"
  by (induction names) (auto intro!: adding)

lemma adds_notify [adding]: "adds no_patch (notify R t wl b now cfg)"
  unfolding notify_def by (intro adding)

lemma adds_captureProfile [adding]: "adds no_patch (captureProfile R wl cfg b now st)"
  unfolding captureProfile_def by (auto intro!: adding split: option.split)

lemma keeps_Trace_adds: "keeps sy_Trace m \<Longrightarrow> adds P m"
  by (rule addsI, rule wp_mono [OF keepsD]) auto

lemmas adds_reads [adding] = keeps_GetWorkload(3) [THEN keeps_Trace_adds] keeps_ResolveOwner(3) [THEN keeps_Trace_adds]
  keeps_listWorkloadPods(3) [THEN keeps_Trace_adds] keeps_podAge(3) [THEN keeps_Trace_adds]

lemma adds_updates [adding]:
  "(\<And>ok. P (EUpdateStatus p ok)) \<Longrightarrow> adds P (update_status A p)"
  "(\<And>ok. P (EUpdatePolicy p ok)) \<Longrightarrow> adds P (update_policy A p)"
  unfolding update_status_def update_policy_def by (intro adding; simp)+

lemma adds_scan_targets [adding]: "adds P (scan_targets pod now ts)"
  by (induction ts) (auto simp: Let_def intro!: adding)

lemma adds_scan_pods [adding]: "adds no_patch (scan_pods R cfg now pods)"
proof -
  have "adds no_patch (scan_pod R cfg now pod)" for pod
    unfolding scan_pod_def scan_owned_def by (intro adding)
  then show ?thesis by (induction pods) (auto intro!: adding)
qed

lemma adds_dry_run_restart [adding]: "adds no_patch (dry_run_restart R wl cfg b now p k)"
  unfolding dry_run_restart_def by (intro adding; simp)

lemma adds_restart_failed [adding]: "adds no_patch (restart_failed wl k what e)"
  unfolding restart_failed_def by (intro adding; simp)

lemma adds_effective_windows [adding]: "adds no_patch (effective_windows R p cfg)"
  unfolding effective_windows_def by (intro adding; simp)

lemma adds_defer_restart [adding]: "adds no_patch (defer_restart R wl cfg b now ws)"
  unfolding defer_restart_def by (intro adding; simp)

lemma adds_settle_parts [adding]:
  "adds no_patch (unsettled_phase R p k v)" "adds no_patch (complete_phase R cfg now p k v)"
  "adds no_patch (finalize R p k)"
  unfolding unsettled_phase_def complete_phase_def finalize_def by (intro adding; simp)+

lemma adds_case_outcome [adding]:
  "adds P f \<Longrightarrow> adds P g \<Longrightarrow> adds P h \<Longrightarrow>
   adds P (case out of Acquired \<Rightarrow> f | AlreadyInF \<Rightarrow> g | CapReached \<Rightarrow> h)"
  by (cases out) simp_all

section \<open>Dry run\<close>

lemma adds_act_dry_run: "pc_DryRun cfg \<Longrightarrow> adds no_patch (act R wl cfg b now p k v)"
  unfolding act_def by (simp only: if_True Let_def, intro adding; simp)

lemma adds_handle_breach_dry_run: "pc_DryRun cfg \<Longrightarrow> adds no_patch (handle_breach R wl cfg b now p k v)"
  unfolding handle_breach_def window_gate_def acquire_and_act_def by (intro adding adds_act_dry_run; simp)

lemma adds_live_dry_run:
  assumes "pc_DryRun (ResolvePolicy (rc_Defaults R) (p_Spec p))"
  shows "adds no_patch (live_phase R p k)"
  unfolding live_phase_def get_workload_phase_def workload_phase_def settle_phase_def detect_phase_def
  by (intro adding adds_handle_breach_dry_run; simp add: assms [simplified])

section \<open>The patch\<close>

lemma Dispatch_run:
  "wp (Dispatch L A w now) (\<lambda>(r, w') t.
     (\<exists>old new. sy_Trace t = EPatch old new (is_ok r) # sy_Trace s) \<or> sy_Trace t = sy_Trace s \<and> \<not> is_ok r) s"
  by (rule wp_mono [OF Dispatch_sends]) auto

lemma adds_announce_restart [adding]: "adds no_patch (announce_restart R wl cfg b now k)"
  unfolding announce_restart_def by (intro adding; simp)

section \<open>Closed gates\<close>

text \<open>An effect that changes nothing in the cluster or in a profile store.\<close>

definition no_write :: "effect \<Rightarrow> bool" where
  "no_write e \<longleftrightarrow> (case e of EPatch x y ok \<Rightarrow> False | EUpdateStatus p ok \<Rightarrow> False | EUpdatePolicy p ok \<Rightarrow> False
     | EStore k j \<Rightarrow> False | _ \<Rightarrow> True)"

lemma no_write_simps [simp]:
  "no_write (EEvent r a b c d)" "no_write (ECounter m ls)" "no_write (EGauge m ls n)" "no_write (ELog l)" "no_write (EHTTP q)"
  by (simp_all add: no_write_def)

lemma adds_no_write_Notify: "adds no_write (Notify L A n e)"
  by (rule adds_mono [OF adds_Notify]) (auto simp: notify_effect_def split: effect.splits)

lemma adds_no_write_notify: "adds no_write (notify R t wl b now cfg)"
proof -
  have "adds no_write (known_routes R wl names)" for names by (induction names) (auto intro!: adding)
  then show ?thesis unfolding notify_def by (intro adding adds_no_write_Notify)
qed

lemma keeps_notify [keeping]: "keeps sy_Gate (notify R t wl b now cfg)" "keeps sy_Samples (notify R t wl b now cfg)"
proof -
  have "keeps sy_Gate (known_routes R wl names)" "keeps sy_Samples (known_routes R wl names)" for names
    by (induction names) (auto intro!: keeping)
  then show "keeps sy_Gate (notify R t wl b now cfg)" "keeps sy_Samples (notify R t wl b now cfg)"
    unfolding notify_def by (auto intro!: keeping)
qed

text \<open>The windows in force for a policy: its own if they resolve, else the controller's.\<close>

definition windows_in_force :: "'w reconciler \<Rightarrow> pod_config \<Rightarrow> windows" where
  "windows_in_force R cfg =
     (if pc_MaintenanceWindows cfg \<noteq> [] then
        (case FromWindows (l_tzdb (rc_Lib R)) (pc_MaintenanceWindows cfg) of Inl e \<Rightarrow> rc_Windows R | Inr w \<Rightarrow> w)
      else rc_Windows R)"

lemma effective_windows_wp:
  "wp (effective_windows R p cfg) Q s \<longleftrightarrow>
     (if pc_MaintenanceWindows cfg \<noteq> [] \<and> \<not> is_ok (FromWindows (l_tzdb (rc_Lib R)) (pc_MaintenanceWindows cfg))
      then Q (windows_in_force R cfg) (s\<lparr>sy_Trace := EEvent (RefPolicy (p_Namespace p) (p_Name p)) ''Warning'' reasonInvalidConfig
               ''Resolve'' (err_text (projl (FromWindows (l_tzdb (rc_Lib R)) (pc_MaintenanceWindows cfg)))) # sy_Trace s\<rparr>)
      else Q (windows_in_force R cfg) s)"
  by (auto simp: effective_windows_def windows_in_force_def split: sum.split)

definition gate_closed :: "'w reconciler \<Rightarrow> pod_config \<Rightarrow> policy_status \<Rightarrow> string \<Rightarrow> time \<Rightarrow> gate \<Rightarrow> string \<Rightarrow> bool" where
  "gate_closed R cfg st curVersion now g wkey \<longleftrightarrow>
     InCooldown st now (pc_Cooldown cfg)
     \<or> BreakerTripped st curVersion now (pc_RestartWindow cfg) (pc_MaxRestartsPerWindow cfg)
     \<or> \<not> IsAllowed (windows_in_force R cfg) now
     \<or> fst (TryAcquire g wkey now) \<noteq> Acquired"

lemma TryAcquire_refused: "fst (TryAcquire g k now) \<noteq> Acquired \<Longrightarrow> snd (TryAcquire g k now) = g"
  by (auto simp: TryAcquire_def split: if_splits option.splits)

lemma acquire_slot_wp:
  "wp (acquire_slot k now) Q s = Q (fst (TryAcquire (sy_Gate s) k now)) (s\<lparr>sy_Gate := snd (TryAcquire (sy_Gate s) k now)\<rparr>)"
  by (simp add: acquire_slot_def split: prod.split)

text \<open>An operation that writes nothing, keeps the slots and does not fail.\<close>

definition calm :: "('w, 'a result) op \<Rightarrow> bool" where
  "calm m \<longleftrightarrow> adds no_write m \<and> keeps sy_Gate m \<and> (\<forall>s. wp m (\<lambda>r t. is_ok r) s)"

lemma calm_ret: "calm (ret (Inr x))"
  by (auto simp: calm_def intro: adding keeping)

lemma calm_bind: "adds no_write m \<Longrightarrow> keeps sy_Gate m \<Longrightarrow> (\<And>a. calm (f a)) \<Longrightarrow> calm (State_Monad.bind m f)"
  by (auto simp: calm_def intro!: adding keeping) (simp add: wp_def split: prod.split)

lemma calm_run:
  assumes "calm m" "sy_Trace v = fs @ sy_Trace s" "list_all no_write fs" "sy_Gate v = sy_Gate s"
  shows "wp m (\<lambda>r t. (\<exists>es. sy_Trace t = es @ sy_Trace s \<and> list_all no_write es) \<and> sy_Gate t = sy_Gate s \<and> is_ok r) v"
proof -
  have "adds no_write m" "keeps sy_Gate m" "wp m (\<lambda>r t. is_ok r) v" using assms(1) by (simp_all add: calm_def)
  from wp_conj [OF addsD [OF this(1)] wp_conj [OF keepsD [OF this(2)] this(3)]]
  show ?thesis
    by (rule wp_mono) (use assms(2-4) in \<open>auto simp: list_all_append\<close>)
qed

lemma calm_ops:
  "calm (skip p r)" "calm (skipRequeue R p r)" "calm (defer_restart R wl cfg b now ws)"
  unfolding skip_def skipRequeue_def defer_restart_def Let_def
  by (intro calm_bind calm_ret adding keeping adds_no_write_notify; simp)+

lemma acquire_and_act_closed:
  assumes "fst (TryAcquire (sy_Gate u) k now) \<noteq> Acquired"
    and "sy_Trace u = fs @ sy_Trace s" "list_all no_write fs" "sy_Gate u = sy_Gate s"
  shows "wp (acquire_and_act R wl cfg b now p k v)
    (\<lambda>r t. (\<exists>es. sy_Trace t = es @ sy_Trace s \<and> list_all no_write es) \<and> sy_Gate t = sy_Gate s \<and> is_ok r) u"
proof -
  have "u\<lparr>sy_Gate := snd (TryAcquire (sy_Gate u) k now)\<rparr> = u" using TryAcquire_refused [OF assms(1)] by simp
  then show ?thesis
    using calm_run [OF calm_ops(1) assms(2-4)] calm_run [OF calm_ops(2) assms(2-4)] assms(1)
    by (cases "fst (TryAcquire (sy_Gate u) k now)") (simp_all add: acquire_and_act_def acquire_slot_wp)
qed

lemma window_gate_closed:
  assumes "\<not> IsAllowed (windows_in_force R cfg) now \<or> fst (TryAcquire (sy_Gate u) k now) \<noteq> Acquired"
    and u: "sy_Trace u = fs @ sy_Trace s" "list_all no_write fs" "sy_Gate u = sy_Gate s"
  shows "wp (window_gate R wl cfg b now p k v)
    (\<lambda>r t. (\<exists>es. sy_Trace t = es @ sy_Trace s \<and> list_all no_write es) \<and> sy_Gate t = sy_Gate s \<and> is_ok r) u"
proof -
  have *: "wp (if \<not> IsAllowed (windows_in_force R cfg) now then defer_restart R wl cfg b now (windows_in_force R cfg)
       else acquire_and_act R wl cfg b now p k v)
    (\<lambda>r t. (\<exists>es. sy_Trace t = es @ sy_Trace s \<and> list_all no_write es) \<and> sy_Gate t = sy_Gate s \<and> is_ok r) x"
    if "sy_Trace x = gs @ sy_Trace s" "list_all no_write gs" "sy_Gate x = sy_Gate s" for x gs
    using calm_run [OF calm_ops(3) that] acquire_and_act_closed [OF _ that] assms(1) u(3) that(3) by simp
  show ?thesis
    unfolding window_gate_def wp_bind effective_windows_wp
    using * [OF u] * [of "u\<lparr>sy_Trace := e # sy_Trace u\<rparr>" "e # fs" for e] u by simp
qed

lemma handle_breach_closed:
  assumes "gate_closed R cfg (p_Status p) v now (sy_Gate s) k"
  shows "wp (handle_breach R wl cfg b now p k v)
    (\<lambda>r t. (\<exists>es. sy_Trace t = es @ sy_Trace s \<and> list_all no_write es) \<and> sy_Gate t = sy_Gate s \<and> is_ok r) s"
proof -
  have tripped: "calm (do { emit (EEvent a1 a2 a3 a4 a5); notify R t wl b now cfg; skip p r })" for a1 a2 a3 a4 a5 t r
    by (intro calm_bind calm_ops adding keeping adds_no_write_notify; simp)
  define e1 where "e1 = ECounter ''memreload_threshold_breaches_total'' (wl_labels wl @ [d_Mode (tg_Det (br_Target b))])"
  define e2 where "e2 = EEvent (RefPod (pod_Namespace (br_Pod b)) (pod_Name (br_Pod b))) ''Normal''
      reasonBreachDetected ''Detect'' (''container '' @ tg_Name (br_Target b) @ '' leaking: '' @ res_Reason (br_Result b)
          @ '' ('' @ observed_threshold b @ '')'')"
  define u where "u = s\<lparr>sy_Trace := e2 # e1 # sy_Trace s\<rparr>"
  have fs: "sy_Trace u = [e2, e1] @ sy_Trace s" "list_all no_write [e2, e1]" "sy_Gate u = sy_Gate s"
    by (simp_all add: u_def e1_def e2_def)
  have "wp (if InCooldown (p_Status p) now (pc_Cooldown cfg) then skip p ''cooldown''
      else if BreakerTripped (p_Status p) v now (pc_RestartWindow cfg) (pc_MaxRestartsPerWindow cfg) then do {
        emit (EEvent (object_ref wl) ''Warning'' reasonCircuitBreaker ''Restart''
          (''max restarts per window reached; not restarting '' @ k));
        notify R EventCircuitBreakerTripped wl b now cfg;
        skip p ''circuit_breaker'' }
      else window_gate R wl cfg b now p k v)
    (\<lambda>r t. (\<exists>es. sy_Trace t = es @ sy_Trace s \<and> list_all no_write es) \<and> sy_Gate t = sy_Gate s \<and> is_ok r) u"
    using assms calm_run [OF calm_ops(1) fs] calm_run [OF tripped fs] window_gate_closed [OF _ fs] fs(3)
    unfolding gate_closed_def by (auto simp del: wp_bind)
  then show ?thesis
    by (simp add: handle_breach_def u_def e1_def e2_def)
qed

section \<open>Entering the reconcile\<close>

definition deleted :: "policy \<Rightarrow> bool" where
  "deleted p \<longleftrightarrow> (case p_DeletionTimestamp p of None \<Rightarrow> False | Some t \<Rightarrow> \<not> time_IsZero t)"

lemma Reconcile_wp:
  assumes "fst (a_GetPolicy (rc_API R) ns name (sy_World s)) = Inr policy"
    and "\<And>w. wp (if deleted policy then finalize R policy (policy_key policy)
             else add_finalizer_phase R policy (policy_key policy)) Q (s\<lparr>sy_World := w\<rparr>)"
  shows "wp (Reconcile R ns name) Q s"
proof -
  obtain w where "a_GetPolicy (rc_API R) ns name (sy_World s) = (Inr policy, w)"
    using assms(1) by (cases "a_GetPolicy (rc_API R) ns name (sy_World s)") auto
  then show ?thesis
    using assms(2) [of w, unfolded deleted_def policy_key_def] by (simp add: Reconcile_def Let_def)
qed

section \<open>Open gates\<close>

text \<open>The end of a restart: requeued, with the slot held, and the object of the workload patched.\<close>

definition restarted :: "'w reconciler \<Rightarrow> workload \<Rightarrow> string \<Rightarrow> duration result \<Rightarrow> 'w sys \<Rightarrow> bool" where
  "restarted R wl k r t \<longleftrightarrow> r = Inr (rc_RequeueAfter R) \<and> Holds (sy_Gate t) k
     \<and> (\<exists>old new. Workload_Object wl = Some (Some old) \<and> EPatch old new True \<in> set (sy_Trace t))"

definition writes_accepted :: "'w api \<Rightarrow> bool" where
  "writes_accepted A \<longleftrightarrow> (\<forall>p w. is_ok (fst (a_UpdateStatus A p w))) \<and> (\<forall>x y w. is_ok (fst (a_PatchDeployment A x y w)))
     \<and> (\<forall>x y w. is_ok (fst (a_PatchStatefulSet A x y w))) \<and> (\<forall>x y w. is_ok (fst (a_PatchRollout A x y w)))"

lemma GetWorkload_world:
  "sy_World s = sy_World t \<Longrightarrow> fst (run_state (GetWorkload A k ns n) s) = fst (run_state (GetWorkload A k ns n) t)"
  by (auto simp: GetWorkload_def call_def split: prod.split sum.split)

lemma announce_restart_end:
  assumes "Holds (sy_Gate s) k" "Workload_Object wl = Some (Some old)" "EPatch old new True \<in> set (sy_Trace s)"
  shows "wp (announce_restart R wl' cfg b now k) (restarted R wl k) s"
proof -
  have "adds (\<lambda>_. True) (announce_restart R wl' cfg b now k)"
    by (rule adds_mono [OF adds_announce_restart]) simp
  moreover have "keeps sy_Gate (announce_restart R wl' cfg b now k)"
    unfolding announce_restart_def by (intro keeping)
  moreover have "wp (announce_restart R wl' cfg b now k) (\<lambda>r t. r = Inr (rc_RequeueAfter R)) s"
    by (simp add: announce_restart_def) (simp add: wp_def split: prod.split)
  ultimately have "wp (announce_restart R wl' cfg b now k) (\<lambda>r t. (\<exists>es. sy_Trace t = es @ sy_Trace s)
      \<and> sy_Gate t = sy_Gate s \<and> r = Inr (rc_RequeueAfter R)) s"
    by (intro wp_conj keepsD) (auto intro: wp_mono [OF addsD])
  then show ?thesis
    by (rule wp_mono) (use assms in \<open>auto simp: restarted_def\<close>)
qed

lemma dispatch_restart_end:
  assumes "Holds (sy_Gate s) k" "writes_accepted (rc_API R)" "workload_complete wl" "wl_Kind wl \<noteq> KindRollout"
  shows "wp (dispatch_restart R wl cfg b now k) (restarted R wl k) s"
proof -
  have ok: "a_PatchDeployment (rc_API R) d d' w = (r, w') \<Longrightarrow> \<exists>x. r = Inr x"
    "a_PatchStatefulSet (rc_API R) x x' w = (q, w') \<Longrightarrow> \<exists>y. q = Inr y" for d d' x x' w r q w'
    using assms(2) unfolding writes_accepted_def is_ok_iff by (metis fst_conv)+
  have "wp (Dispatch (rc_Lib R) (rc_API R) wl now) (\<lambda>d t. sy_Gate t = sy_Gate s \<and> is_ok (fst d)
      \<and> (\<exists>old new. Workload_Object wl = Some (Some old) \<and> EPatch old new True \<in> set (sy_Trace t))) s"
    using assms(3,4)
    by (auto simp: Dispatch_def workload_complete_def Workload_Object_def kind_defs Let_def patch_object_def
        ex_disj_distrib split: prod.split dest!: ok)
  then show ?thesis
    unfolding dispatch_restart_def wp_bind
    by (rule wp_mono) (use assms(1) in \<open>auto simp: is_ok_iff intro: announce_restart_end\<close>)
qed

lemma real_restart_end:
  assumes "Holds (sy_Gate s) k" "writes_accepted (rc_API R)" "workload_complete wl" "wl_Kind wl \<noteq> KindRollout"
  shows "wp (real_restart R wl cfg b now p k) (restarted R wl k) s"
proof -
  have ok: "is_ok r" if "a_UpdateStatus (rc_API R) q w = (r, w')" for q w r w'
    using assms(2) that unfolding writes_accepted_def by (metis fst_conv)
  have "wp (Persist (rc_API R) q) (\<lambda>x t. sy_Gate t = sy_Gate s \<and> is_ok (fst x)) s" for q
    by (auto simp: Persist_def update_status_def dest: ok split: prod.split sum.split)
  then show ?thesis
    unfolding real_restart_def wp_bind
    by (rule wp_mono) (use assms in \<open>auto simp: is_ok_iff intro!: dispatch_restart_end\<close>)
qed

lemma act_end:
  assumes "Holds (sy_Gate s) k" "writes_accepted (rc_API R)" "workload_complete wl" "wl_Kind wl \<noteq> KindRollout"
    and "\<not> pc_DryRun cfg"
    and g: "run_state (GetWorkload (rc_API R) (wl_Kind wl) (wl_Namespace wl) (wl_Name wl)) s = (Inr fw, u)"
    and "TemplateVersion (rc_Lib R) fw = v"
  shows "wp (act R wl cfg b now p k v) (restarted R wl k) s"
proof -
  have u: "sy_Gate u = sy_Gate s" using keeps_run [OF keeps_GetWorkload(1) g] .
  have "wp (captureProfile R wl cfg b now (p_Status p)) (\<lambda>_ t. sy_Gate t = sy_Gate u) u"
    unfolding captureProfile_def by (intro keepsD) (auto intro!: keeping split: option.split)
  then have "wp (captureProfile R wl cfg b now (p_Status p))
      (\<lambda>st. wp (real_restart R wl cfg b now (p\<lparr>p_Status := st\<rparr>) k) (restarted R wl k)) u"
    by (rule wp_mono) (use assms u in \<open>auto intro!: real_restart_end\<close>)
  then show ?thesis
    using assms(5,7) by (simp add: act_def wp_def [of "GetWorkload _ _ _ _"] g Let_def)
qed

section \<open>Properties\<close>

definition demo_defaults :: defaults where
  "demo_defaults = \<lparr>df_Detection = demo_detection ModeSustained, df_SampleInterval = 5 * Second,
     df_StartupGrace = 0, df_Cooldown = 60 * Second, df_RestartWindow = 600 * Second, df_MaxRestartsPerWindow = 3\<rparr>"

definition demo_reconciler :: "cluster reconciler" where
  "demo_reconciler = \<lparr>rc_Lib = demo_lib, rc_API = demo_api, rc_Defaults = demo_defaults,
     rc_Kinds = \<lparr>kd_Deployments = True, kd_StatefulSets = True, kd_Rollouts = False\<rparr>, rc_Windows = [],
     rc_Capturer = None, rc_ProfileEnabled = False, rc_Notifier = None, rc_ClusterName = ''c1'',
     rc_RequeueAfter = 30 * Second\<rparr>"

definition demo_breach :: breach where
  "demo_breach = \<lparr>br_Target = \<lparr>tg_Name = ''app'', tg_LimitBytes = 100, tg_Det = demo_detection ModeSustained\<rparr>,
     br_Pod = demo_pod, br_Result = \<lparr>res_Leaking = True, res_Reason = ''sustained'', res_Observed = 95, res_Threshold = 80\<rparr>,
     br_Samples = []\<rparr>"

definition live_sys :: "policy \<Rightarrow> cluster sys" where
  "live_sys p = demo_sys (demo_cluster (demo_deployment None) [p]) (NewGate 1) (NewStore 60 10)"

lemma demo_get_policy:
  "fst (a_GetPolicy (rc_API demo_reconciler) (p_Namespace p) (p_Name p) (sy_World (live_sys p))) = Inr p"
  by (simp add: demo_reconciler_def demo_api_def live_sys_def demo_sys_def demo_cluster_def as_found_def)

definition dry_policy :: policy where
  "dry_policy = (demo_policy empty_status)\<lparr>p_Spec := demo_spec\<lparr>sp_DryRun := None\<rparr>\<rparr>"

text \<open>
  C10: a closed gate stops the restart. During the cooldown, with the breaker tripped, outside the
  maintenance windows in force, or when no slot can be acquired, a leak leads to no write at all: no
  patch, no status or policy update and no stored profile; the slots stay as they are and there is no
  error to retry on.
\<close>

theorem closed_gate_writes_nothing:
  assumes "InCooldown (p_Status p) now (pc_Cooldown cfg)
     \<or> BreakerTripped (p_Status p) v now (pc_RestartWindow cfg) (pc_MaxRestartsPerWindow cfg)
     \<or> \<not> IsAllowed (windows_in_force R cfg) now
     \<or> fst (TryAcquire (sy_Gate s) k now) \<noteq> Acquired"
  shows "wp (handle_breach R wl cfg b now p k v)
    (\<lambda>r t. (\<exists>es. sy_Trace t = es @ sy_Trace s \<and> list_all no_write es) \<and> sy_Gate t = sy_Gate s \<and> is_ok r) s"
  by (rule handle_breach_closed) (use assms in \<open>simp add: gate_closed_def\<close>)

lemma closed_gate_writes_nothing_witness:
  "wp (handle_breach demo_reconciler demo_workload (ResolvePolicy demo_defaults demo_spec) demo_breach 100
        (demo_policy (dispatched_status 90)) ''k'' ''v'')
     (\<lambda>r t. is_ok r \<and> sy_Gate t = NewGate 1) (live_sys (demo_policy empty_status))"
proof -
  have "InCooldown (p_Status (demo_policy (dispatched_status 90))) 100 (pc_Cooldown (ResolvePolicy demo_defaults demo_spec))"
    by (simp add: demo_policy_def dispatched_status_def ApplyRestart_fields InCooldown_def time_Sub_def
        ResolvePolicy_def demo_spec_def demo_defaults_def Let_def Second_def minDuration_def maxDuration_def)
  then show ?thesis
    by (intro wp_mono [OF closed_gate_writes_nothing]) (simp_all add: live_sys_def demo_sys_def)
qed

text \<open>
  Open gates restart. When a leak is found outside the cooldown, with the breaker not tripped, inside
  the maintenance windows and with a free slot, the policy is not a dry run, the workload still has the
  version the leak was judged on, and the API server accepts writes, then the Deployment or StatefulSet
  is patched, its slot is held and the policy is requeued, whatever profile capture and notification do.
\<close>

lemma open_gates_restart:
  assumes "\<not> InCooldown (p_Status p) now (pc_Cooldown cfg)"
    and "\<not> BreakerTripped (p_Status p) v now (pc_RestartWindow cfg) (pc_MaxRestartsPerWindow cfg)"
    and "IsAllowed (windows_in_force R cfg) now"
    and "fst (TryAcquire (sy_Gate s) k now) = Acquired"
    and "\<not> pc_DryRun cfg"
    and "writes_accepted (rc_API R)" "workload_complete wl" "wl_Kind wl \<noteq> KindRollout"
    and "fst (run_state (GetWorkload (rc_API R) (wl_Kind wl) (wl_Namespace wl) (wl_Name wl)) s) = Inr fw"
    and "TemplateVersion (rc_Lib R) fw = v"
  shows "wp (handle_breach R wl cfg b now p k v) (restarted R wl k) s"
proof -
  have "wp (acquire_and_act R wl cfg b now p k v) (restarted R wl k) u"
    if "sy_Gate u = sy_Gate s" "sy_World u = sy_World s" for u
  proof -
    define u' where "u' = u\<lparr>sy_Gate := snd (TryAcquire (sy_Gate s) k now)\<rparr>"
    define u'' where "u'' = u'\<lparr>sy_Trace := EGauge ''memreload_inflight_rollouts'' [] (int (Inflight (sy_Gate u'))) # sy_Trace u'\<rparr>"
    have "Holds (sy_Gate u'') k" using assms(4) by (simp add: u''_def u'_def Holds_TryAcquire)
    moreover have "sy_World s = sy_World u''" using that by (simp add: u''_def u'_def)
    then have "fst (run_state (GetWorkload (rc_API R) (wl_Kind wl) (wl_Namespace wl) (wl_Name wl)) u'') = Inr fw"
      using GetWorkload_world assms(9) by metis
    then obtain t where "run_state (GetWorkload (rc_API R) (wl_Kind wl) (wl_Namespace wl) (wl_Name wl)) u'' = (Inr fw, t)"
      by (metis prod.collapse)
    ultimately have "wp (act R wl cfg b now p k v) (restarted R wl k) u''"
      using assms(5-8,10) by (intro act_end)
    then show ?thesis
      using assms(4) that by (simp add: acquire_and_act_def acquire_slot_wp inflight_gauge_def u''_def u'_def)
  qed
  then show ?thesis
    using assms(1-3) by (simp add: handle_breach_def window_gate_def effective_windows_wp)
qed

end
