(* ===== verification/ReconcilerSlots.thy ===== *)
theory ReconcilerSlots
  imports ReconcilerSafety
begin

text \<open>
  The concurrency slots across a reconcile: only the slot of the policy's own workload is touched, it is
  newly held only when the policy is requeued to see the rollout through, it is released when the rollout
  has settled or the policy is deleted, and no branch panics.
\<close>

section \<open>Operations and one slot\<close>

text \<open>The view of the gate that leaves out one slot.\<close>

definition others :: "string \<Rightarrow> 'w sys \<Rightarrow> int \<times> (string, time) fmap" where
  "others k s = (g_cap (sy_Gate s), fmdrop k (g_inflight (sy_Gate s)))"

lemma keeps_others: "keeps sy_Gate m \<Longrightarrow> keeps (others k) m"
  by (rule keepsI, rule wp_mono [OF keepsD]) (auto simp: others_def)

lemma fmdrop_upd: "fmdrop k (fmupd k v m) = fmdrop k m" and fmdrop_twice: "fmdrop k (fmdrop k m) = fmdrop k m"
  by (rule fmap_ext, simp)+

lemma keeps_others_slot [keeping]:
  "keeps (others k) (release_slot k)" "keeps (others k) (acquire_slot k now)" "keeps (others k) inflight_gauge"
  "keeps sy_Gate inflight_gauge" "keeps sy_Samples inflight_gauge"
  by (auto simp: keeps_def release_slot_def inflight_gauge_def acquire_slot_wp others_def Release_def TryAcquire_def
      fmdrop_upd fmdrop_twice split: option.split)

lemma others_lookup:
  assumes "others k t = others k s" "k' \<noteq> k"
  shows "fmlookup (g_inflight (sy_Gate t)) k' = fmlookup (g_inflight (sy_Gate s)) k'"
proof -
  have "fmlookup (fmdrop k (g_inflight (sy_Gate t))) k' = fmlookup (fmdrop k (g_inflight (sy_Gate s))) k'"
    using assms(1) by (simp add: others_def)
  then show ?thesis using assms(2) by simp
qed

text \<open>Operations that never take, surely free, end without, or end with a justified hold of a slot.\<close>

definition sheds :: "string \<Rightarrow> ('w, 'a) op \<Rightarrow> bool" where
  "sheds k m \<longleftrightarrow> (\<forall>s. wp m (\<lambda>_ t. Holds (sy_Gate t) k \<longrightarrow> Holds (sy_Gate s) k) s)"

definition frees :: "string \<Rightarrow> ('w, 'a) op \<Rightarrow> bool" where
  "frees k m \<longleftrightarrow> (\<forall>s. wp m (\<lambda>_ t. \<not> Holds (sy_Gate t) k) s)"

definition settles :: "'w reconciler \<Rightarrow> string \<Rightarrow> ('w, duration result) op \<Rightarrow> bool" where
  "settles R k m \<longleftrightarrow> (\<forall>s. wp m (\<lambda>r t. Holds (sy_Gate t) k \<longrightarrow> r = Inr (rc_RequeueAfter R)) s)"

definition justified :: "'w reconciler \<Rightarrow> string \<Rightarrow> ('w, duration result) op \<Rightarrow> bool" where
  "justified R k m \<longleftrightarrow> (\<forall>s. wp m (\<lambda>r t. Holds (sy_Gate t) k \<longrightarrow> Holds (sy_Gate s) k \<or> r = Inr (rc_RequeueAfter R)) s)"

lemma sheds_keeps: "keeps sy_Gate m \<Longrightarrow> sheds k m"
  unfolding sheds_def by (blast intro: wp_mono [OF keepsD] dest: arg_cong [of _ _ "\<lambda>g. Holds g k"])

lemma sheds_release: "sheds k (release_slot k)"
  by (simp add: sheds_def release_slot_def inflight_gauge_def)

lemma frees_release: "frees k (release_slot k)"
  by (simp add: frees_def release_slot_def inflight_gauge_def)

lemma bind_run:
  assumes "\<And>a t. run_state m s = (a, t) \<Longrightarrow> wp (f a) Q t"
  shows "wp (State_Monad.bind m f) Q s"
  by (simp add: wp_def [of m]) (use assms in \<open>auto split: prod.split\<close>)

lemma frees_bind:
  assumes m: "frees k m" and f: "\<And>a. sheds k (f a)"
  shows "frees k (State_Monad.bind m f)"
proof (unfold frees_def, intro allI bind_run)
  fix s t a
  assume r: "run_state m s = (a, t)"
  have "\<not> Holds (sy_Gate t) k" using m wp_run [OF _ r] unfolding frees_def by blast
  moreover have "wp (f a) (\<lambda>_ u. Holds (sy_Gate u) k \<longrightarrow> Holds (sy_Gate t) k) t" using f unfolding sheds_def by blast
  ultimately show "wp (f a) (\<lambda>_ u. \<not> Holds (sy_Gate u) k) t" by (blast intro: wp_mono)
qed

lemma settles_frees: "frees k m \<Longrightarrow> settles R k m"
  by (simp add: frees_def settles_def) (blast intro: wp_mono)

lemma settles_bind: "(\<And>a. settles R k (f a)) \<Longrightarrow> settles R k (State_Monad.bind m f)"
  unfolding settles_def by (auto intro!: bind_run)

lemma settles_requeue: "settles R k (ret (Inr (rc_RequeueAfter R)))"
  by (simp add: settles_def)

lemma justified_settles: "settles R k m \<Longrightarrow> justified R k m"
  by (simp add: settles_def justified_def) (blast intro: wp_mono)

lemma justified_keeps: "keeps sy_Gate m \<Longrightarrow> justified R k m"
  unfolding justified_def by (blast intro: wp_mono [OF keepsD] dest: arg_cong [of _ _ "\<lambda>g. Holds g k"])

lemma justified_bind:
  assumes m: "sheds k m" and f: "\<And>a. justified R k (f a)"
  shows "justified R k (State_Monad.bind m f)"
proof (unfold justified_def, intro allI bind_run)
  fix s t a
  assume r: "run_state m s = (a, t)"
  have "Holds (sy_Gate t) k \<longrightarrow> Holds (sy_Gate s) k" using m wp_run [OF _ r] unfolding sheds_def by blast
  moreover have "wp (f a) (\<lambda>r u. Holds (sy_Gate u) k \<longrightarrow> Holds (sy_Gate t) k \<or> r = Inr (rc_RequeueAfter R)) t"
    using f unfolding justified_def by blast
  ultimately show "wp (f a) (\<lambda>r u. Holds (sy_Gate u) k \<longrightarrow> Holds (sy_Gate s) k \<or> r = Inr (rc_RequeueAfter R)) t"
    by (blast intro: wp_mono)
qed

lemma settles_branch:
  "(b \<Longrightarrow> settles R k m) \<Longrightarrow> (\<not> b \<Longrightarrow> settles R k n) \<Longrightarrow> settles R k (if b then m else n)"
  "(\<And>e. r = Inl e \<Longrightarrow> settles R k (f e)) \<Longrightarrow> (\<And>x. r = Inr x \<Longrightarrow> settles R k (g x)) \<Longrightarrow>
   settles R k (case r of Inl e \<Rightarrow> f e | Inr x \<Rightarrow> g x)"
  "(\<And>z. z = t \<Longrightarrow> settles R k (w z)) \<Longrightarrow> settles R k (Let t w)"
  by (cases b; cases r; simp add: Let_def)+

lemma justified_branch:
  "(b \<Longrightarrow> justified R k m) \<Longrightarrow> (\<not> b \<Longrightarrow> justified R k n) \<Longrightarrow> justified R k (if b then m else n)"
  "(\<And>e. r = Inl e \<Longrightarrow> justified R k (f e)) \<Longrightarrow> (\<And>x. r = Inr x \<Longrightarrow> justified R k (g x)) \<Longrightarrow>
   justified R k (case r of Inl e \<Rightarrow> f e | Inr x \<Rightarrow> g x)"
  "(opt = None \<Longrightarrow> justified R k h) \<Longrightarrow> (\<And>y. opt = Some y \<Longrightarrow> justified R k (q y)) \<Longrightarrow>
   justified R k (case opt of None \<Rightarrow> h | Some y \<Rightarrow> q y)"
  "(\<And>a c. p = (a, c) \<Longrightarrow> justified R k (u a c)) \<Longrightarrow> justified R k (case p of (a, c) \<Rightarrow> u a c)"
  "(\<And>z. z = t \<Longrightarrow> justified R k (w z)) \<Longrightarrow> justified R k (Let t w)"
  by (cases b; cases r; cases opt; cases p; simp add: Let_def)+

section \<open>What keeps the whole gate\<close>

lemma keeps_scan_targets [keeping]: "keeps sy_Gate (scan_targets pod now ts)"
  by (induction ts) (auto simp: Let_def intro!: keeping)

lemma keeps_small [keeping]:
  "keeps sy_Gate (warnUnmonitorableOnce pod)" "keeps sy_Gate (recentlyWouldRestart k now cd)"
  "keeps sy_Gate (store_would_restart k now)" "keeps sy_Gate (skip p r)" "keeps sy_Gate (skipRequeue R p r)"
  by (auto simp: keeps_def warnUnmonitorableOnce_def recentlyWouldRestart_def store_would_restart_def skip_def
      skipRequeue_def)

lemma keeps_scan_pods [keeping]: "keeps sy_Gate (scan_pods R cfg now pods)"
proof -
  have "keeps sy_Gate (scan_pod R cfg now pod)" for pod
    unfolding scan_pod_def scan_owned_def by (intro keeping)
  then show ?thesis by (induction pods) (auto intro!: keeping)
qed

lemma keeps_captureProfile [keeping]: "keeps sy_Gate (captureProfile R wl cfg b now st)"
  unfolding captureProfile_def by (auto intro!: keeping split: option.split)

lemma keeps_defer [keeping]:
  "keeps sy_Gate (defer_restart R wl cfg b now ws)" "keeps sy_Gate (effective_windows R p cfg)"
  "keeps sy_Gate (announce_restart R wl cfg b now k)"
  unfolding defer_restart_def effective_windows_def announce_restart_def by (intro keeping)+

section \<open>The reconcile and the slots\<close>

lemma settles_parts:
  "settles R k (restart_failed wl k what e)" "settles R k (dry_run_restart R wl cfg b now p k)"
  unfolding restart_failed_def dry_run_restart_def
  by (intro settles_frees frees_bind frees_release sheds_keeps keeping)+

lemma settles_announce: "settles R k (announce_restart R wl cfg b now k)"
  unfolding announce_restart_def by (intro settles_bind settles_requeue)

lemma settles_act: "settles R k (act R wl cfg b now p k v)"
proof -
  have stop: "settles R k (do { release_slot k; ret x })" "settles R k (do { release_slot k; skip p r })" for x r
    by (intro settles_frees frees_bind frees_release sheds_keeps keeping)+
  have "settles R k (dispatch_restart R wl cfg b now k)"
    unfolding dispatch_restart_def by (intro settles_bind settles_branch settles_parts settles_announce)
  then have "settles R k (real_restart R wl cfg b now q k)" for q
    unfolding real_restart_def by (intro settles_bind settles_branch settles_parts) simp_all
  then have "settles R k (do { st \<leftarrow> captureProfile R wl cfg b now (p_Status p);
      let policy1 = p\<lparr>p_Status := st\<rparr>
      in if pc_DryRun cfg then dry_run_restart R wl cfg b now policy1 k else real_restart R wl cfg b now policy1 k })"
    by (intro settles_bind settles_branch settles_parts) simp_all
  with stop show ?thesis unfolding act_def
    by (intro settles_bind [of R k _ "GetWorkload _ _ _ _"]) (auto split: sum.split)
qed

lemma justified_acquire_and_act: "justified R k (acquire_and_act R wl cfg b now p k v)"
proof (unfold justified_def, intro allI)
  fix s :: "'a sys"
  define out where "out = TryAcquire (sy_Gate s) k now"
  show "wp (acquire_and_act R wl cfg b now p k v)
    (\<lambda>r t. Holds (sy_Gate t) k \<longrightarrow> Holds (sy_Gate s) k \<or> r = Inr (rc_RequeueAfter R)) s"
  proof (cases "fst out")
    case Acquired
    have "settles R k (do { inflight_gauge; act R wl cfg b now p k v })" by (intro settles_bind settles_act)
    then have "wp (do { inflight_gauge; act R wl cfg b now p k v })
        (\<lambda>r t. Holds (sy_Gate t) k \<longrightarrow> Holds (sy_Gate s) k \<or> r = Inr (rc_RequeueAfter R)) (s\<lparr>sy_Gate := snd out\<rparr>)"
      unfolding settles_def by (blast intro: wp_mono)
    then show ?thesis using Acquired by (simp add: acquire_and_act_def acquire_slot_wp out_def)
  qed (simp_all add: acquire_and_act_def acquire_slot_wp out_def skip_def skipRequeue_def TryAcquire_refused)
qed

lemma justified_handle_breach: "justified R k (handle_breach R wl cfg b now p k v)"
  unfolding handle_breach_def window_gate_def
  by (intro justified_bind justified_branch justified_acquire_and_act;
      (intro sheds_keeps keeping | (intro justified_keeps keeping)))

lemma justified_unsettled: "justified R k (unsettled_phase R p k v)"
  unfolding unsettled_phase_def
  by (intro justified_bind justified_branch justified_keeps [OF keeps_return] justified_keeps [OF keeps_small(4)]
      sheds_keeps keeps_gets settles_bind settles_requeue justified_settles)

lemma justified_complete: "justified R k (complete_phase R cfg now p k v)"
  unfolding complete_phase_def by (intro justified_bind sheds_release justified_keeps keeping)

lemma justified_settle: "justified R k (settle_phase R wl cfg now p k v)"
  unfolding settle_phase_def detect_phase_def
  by (intro justified_bind justified_branch justified_unsettled justified_complete justified_handle_breach
      justified_keeps [OF keeps_return] justified_keeps [OF keeps_small(4)] sheds_keeps keeping)

lemma justified_live: "justified R k (live_phase R p k)"
  unfolding live_phase_def get_workload_phase_def workload_phase_def
  by (intro justified_bind justified_branch justified_settle justified_keeps [OF keeps_return] sheds_keeps keeping)

lemma justified_entry: "justified R k (finalize R p k)" "justified R k (add_finalizer_phase R p k)"
proof -
  have release: "sheds k (if Holds g k then release_slot k else ret ())" for g
    by (simp add: sheds_release sheds_keeps keeps_return)
  have rest: "justified R k (do { r \<leftarrow> update_policy (rc_API R) q; ret (x r) })" for q x
    by (intro justified_keeps keeping)
  show "justified R k (finalize R p k)"
    unfolding finalize_def by (auto intro!: justified_bind [OF sheds_keeps [OF keeps_gets(1)]]
        justified_bind [OF release] rest justified_keeps [OF keeps_return])
  show "justified R k (add_finalizer_phase R p k)" unfolding add_finalizer_phase_def
    by (intro justified_bind justified_branch justified_live justified_keeps [OF keeps_return] sheds_keeps keeping)
qed

lemma keeps_others_act: "keeps (others k) (act R wl cfg b now p k v)"
proof -
  note gate [keeping] = keeps_GetWorkload(1) [THEN keeps_others] keeps_captureProfile [THEN keeps_others]
    keeps_small [THEN keeps_others] keeps_notify(1) [THEN keeps_others] keeps_Persist(1) [THEN keeps_others]
    keeps_Dispatch(1) [THEN keeps_others] keeps_defer [THEN keeps_others] keeps_gate_emit(1) [THEN keeps_others]
  show ?thesis
    unfolding act_def dry_run_restart_def real_restart_def dispatch_restart_def restart_failed_def
    by (intro keeping)
qed

lemma keeps_others_handle_breach: "keeps (others k) (handle_breach R wl cfg b now p k v)"
proof -
  note gate [keeping] = keeps_small [THEN keeps_others] keeps_notify(1) [THEN keeps_others]
    keeps_defer [THEN keeps_others] keeps_gate_emit(1) [THEN keeps_others] keeps_others_act
  have "keeps (others k) (acquire_and_act R wl cfg b now p k v)"
    unfolding acquire_and_act_def by (rule keeping, rule keeping, case_tac a) (auto intro!: keeping)
  then show ?thesis
    unfolding handle_breach_def window_gate_def by (intro keeping)
qed

lemma keeps_others_phases: "keeps (others k) (finalize R p k)" "keeps (others k) (add_finalizer_phase R p k)"
proof -
  note gate [keeping] = keeps_small [THEN keeps_others] keeps_gate_emit(1) [THEN keeps_others]
    keeps_Persist(1) [THEN keeps_others] keeps_GetWorkload(1) [THEN keeps_others]
    keeps_listWorkloadPods(1) [THEN keeps_others] keeps_scan_pods [THEN keeps_others]
    keeps_update_status(1,3) [THEN keeps_others] keeps_gate_call(1) [THEN keeps_others]
    keeps_others_handle_breach
  show "keeps (others k) (finalize R p k)" unfolding finalize_def by (intro keeping)
  show "keeps (others k) (add_finalizer_phase R p k)"
    unfolding add_finalizer_phase_def live_phase_def get_workload_phase_def workload_phase_def settle_phase_def
      detect_phase_def unsettled_phase_def complete_phase_def
    by (intro keeping)
qed

section \<open>Panics\<close>

definition panic_free :: "('w, 'a result) op \<Rightarrow> bool" where
  "panic_free m \<longleftrightarrow> (\<forall>s. wp m (\<lambda>r t. \<not> panicked r) s)"

text \<open>What an operation always answers with, for the operation that continues from it.\<close>

definition yields :: "('a \<Rightarrow> bool) \<Rightarrow> ('w, 'a) op \<Rightarrow> bool" where
  "yields P m \<longleftrightarrow> (\<forall>s. wp m (\<lambda>a t. P a) s)"

lemma panic_free_yields: "panic_free m = yields (\<lambda>r. \<not> panicked r) m"
  by (simp add: panic_free_def yields_def)

lemma yields_bind:
  assumes "yields P m" and "\<And>a. P a \<Longrightarrow> yields Q (f a)"
  shows "yields Q (State_Monad.bind m f)"
proof (unfold yields_def wp_bind, intro allI)
  fix s
  have "wp m (\<lambda>a t. P a) s" using assms(1) by (simp add: yields_def)
  then show "wp m (\<lambda>a. wp (f a) (\<lambda>a t. Q a)) s" by (rule wp_mono) (use assms(2) in \<open>simp add: yields_def\<close>)
qed

lemma yields_any: "yields (\<lambda>_. True) m"
  by (simp add: yields_def wp_def split: prod.split)

lemma yields_ret: "Q a \<Longrightarrow> yields Q (ret a)"
  by (simp add: yields_def)

lemmas yields_next = yields_bind [OF yields_any]

lemma adds_bind_yields:
  assumes "adds P m" and "yields Q m" and "\<And>a. Q a \<Longrightarrow> adds P (f a)"
  shows "adds P (State_Monad.bind m f)"
proof (rule addsI)
  fix s
  obtain a t where m: "run_state m s = (a, t)" by (cases "run_state m s")
  have "Q a" using assms(2) wp_run [OF _ m] unfolding yields_def by blast
  obtain b u where f: "run_state (f a) t = (b, u)" by (cases "run_state (f a) t")
  obtain es fs where "sy_Trace t = es @ sy_Trace s" "list_all P es" "sy_Trace u = fs @ sy_Trace t" "list_all P fs"
    using adds_run [OF assms(1) m] adds_run [OF assms(3) [OF \<open>Q a\<close>] f] by blast
  then show "wp (State_Monad.bind m f) (\<lambda>_ t. \<exists>es. sy_Trace t = es @ sy_Trace s \<and> list_all P es) s"
    by (auto simp: wp_def m f intro!: exI [of _ "fs @ es"])
qed

lemma panicked_reply: "\<not> panicked (r :: 'a result) \<Longrightarrow> \<not> panicked (case r of Inl e \<Rightarrow> Inl e | Inr x \<Rightarrow> Inr (f x))"
  by (cases r) simp_all

definition no_panic_platform :: "'w reconciler \<Rightarrow> bool" where
  "no_panic_platform R \<longleftrightarrow> lib_no_panic (rc_Lib R) \<and> api_no_panic (rc_API R)"

lemma api_replies:
  assumes "no_panic_platform R"
  shows "yields (\<lambda>r. \<not> panicked r) (call (a_GetPolicy (rc_API R) ns n))"
    "yields (\<lambda>r. \<not> panicked r) (call (a_ListPods (rc_API R) ns sel))"
    "yields (\<lambda>r. \<not> panicked r) (update_policy (rc_API R) p)"
  using assms
  by (auto simp: yields_def no_panic_platform_def api_no_panic_def update_policy_def split: prod.split) (metis fst_conv)+

lemma persist_replies:
  assumes "no_panic_platform R"
  shows "yields (\<lambda>x. \<not> panicked (fst x)) (Persist (rc_API R) p)"
proof -
  have u: "\<not> panicked r" if "a_UpdateStatus (rc_API R) q w = (r, w')" for q w r w'
    using assms that unfolding no_panic_platform_def api_no_panic_def by (metis fst_conv)
  have g: "\<not> panicked r" if "a_GetPolicy (rc_API R) ns n w = (r, w')" for ns n w r w'
    using assms that unfolding no_panic_platform_def api_no_panic_def by (metis fst_conv)
  show ?thesis
    by (auto simp: yields_def Persist_def update_status_def split: prod.split sum.split dest!: u g)
qed

lemma workload_replies:
  assumes "no_panic_platform R"
  shows "yields (\<lambda>r. \<not> panicked r \<and> (\<forall>w. r = Inr w \<longrightarrow> workload_complete w)) (GetWorkload (rc_API R) k ns n)"
    "yields (\<lambda>r. \<not> panicked r \<and> (\<forall>w. r = Inr w \<longrightarrow> workload_owned w)) (ResolveOwner (rc_Lib R) (rc_API R) pod ks)"
proof -
  have d: "\<not> panicked r" if "a_GetDeployment (rc_API R) ns n w = (r, w')" for ns n w r w'
    using assms that unfolding no_panic_platform_def api_no_panic_def by (metis fst_conv)
  have st: "\<not> panicked r" if "a_GetStatefulSet (rc_API R) ns n w = (r, w')" for ns n w r w'
    using assms that unfolding no_panic_platform_def api_no_panic_def by (metis fst_conv)
  have rs: "\<not> panicked r" if "a_GetReplicaSet (rc_API R) ns n w = (r, w')" for ns n w r w'
    using assms that unfolding no_panic_platform_def api_no_panic_def by (metis fst_conv)
  have ro: "\<not> panicked r" if "a_GetRollout (rc_API R) ns n w = (r, w')" for ns n w r w'
    using assms that unfolding no_panic_platform_def api_no_panic_def by (metis fst_conv)
  note replies = d [of _ _ _ "Inl _"] st [of _ _ _ "Inl _"] rs [of _ _ _ "Inl _"] ro [of _ _ _ "Inl _"]
  have g: "wp (GetWorkload (rc_API R) k ns n) (\<lambda>r t. \<not> panicked r) s" for s
    by (auto simp: GetWorkload_def dest!: replies split: prod.split sum.split)
  show "yields (\<lambda>r. \<not> panicked r \<and> (\<forall>w. r = Inr w \<longrightarrow> workload_complete w)) (GetWorkload (rc_API R) k ns n)"
    unfolding yields_def by (blast intro: wp_mono [OF wp_conj [OF g GetWorkload_shape]])
  have o: "wp (ResolveOwner (rc_Lib R) (rc_API R) pod ks) (\<lambda>r t. \<not> panicked r) s" for s
    by (auto simp: ResolveOwner_def resolve_statefulset_def resolve_replicaset_def dest!: replies
        split: prod.split sum.split option.split)
  show "yields (\<lambda>r. \<not> panicked r \<and> (\<forall>w. r = Inr w \<longrightarrow> workload_owned w)) (ResolveOwner (rc_Lib R) (rc_API R) pod ks)"
    unfolding yields_def by (blast intro: wp_mono [OF wp_conj [OF o ResolveOwner_shape]])
qed

lemma panic_free_branch:
  "(b \<Longrightarrow> panic_free m) \<Longrightarrow> (\<not> b \<Longrightarrow> panic_free n) \<Longrightarrow> panic_free (if b then m else n)"
  "(\<And>e. r = Inl e \<Longrightarrow> panic_free (f e)) \<Longrightarrow> (\<And>x. r = Inr x \<Longrightarrow> panic_free (g x)) \<Longrightarrow>
   panic_free (case r of Inl e \<Rightarrow> f e | Inr x \<Rightarrow> g x)"
  "(opt = None \<Longrightarrow> panic_free h) \<Longrightarrow> (\<And>y. opt = Some y \<Longrightarrow> panic_free (k y)) \<Longrightarrow>
   panic_free (case opt of None \<Rightarrow> h | Some y \<Rightarrow> k y)"
  "(\<And>a c. p = (a, c) \<Longrightarrow> panic_free (q a c)) \<Longrightarrow> panic_free (case p of (a, c) \<Rightarrow> q a c)"
  "(\<And>z. z = t \<Longrightarrow> panic_free (w z)) \<Longrightarrow> panic_free (Let t w)"
  "panic_free x1 \<Longrightarrow> panic_free x2 \<Longrightarrow> panic_free x3 \<Longrightarrow> panic_free (case out of Acquired \<Rightarrow> x1 | AlreadyInF \<Rightarrow> x2 | CapReached \<Rightarrow> x3)"
  by (cases b; cases r; cases opt; cases p; cases out; simp add: Let_def)+

lemma panic_free_ret: "\<not> panicked r \<Longrightarrow> panic_free (ret r)"
  by (simp add: panic_free_def)

lemma panic_free_bind: "yields P m \<Longrightarrow> (\<And>a. P a \<Longrightarrow> panic_free (f a)) \<Longrightarrow> panic_free (State_Monad.bind m f)"
  unfolding panic_free_yields by (rule yields_bind)

lemmas panic_free_next = panic_free_bind [OF yields_any]

lemma panic_free_small: "panic_free (skip p r)" "panic_free (skipRequeue R p r)"
  by (simp_all add: panic_free_def skip_def skipRequeue_def)

lemma panic_free_restart_failed: "\<not> err_is e NilDeref \<Longrightarrow> panic_free (restart_failed wl k what e)"
  unfolding restart_failed_def by (intro panic_free_next panic_free_ret) simp

lemma panic_free_scan_pods:
  assumes "no_panic_platform R"
  shows "panic_free (scan_pods R cfg now pods)"
proof -
  have "panic_free (scan_pod R cfg now pod)" for pod
  proof -
    have "panic_free (case ow of Inl e \<Rightarrow> ret (if err_is e ErrNoOwner then Inr None else Inl e)
        | Inr w \<Rightarrow> (case IsCurrentRevision (rc_Lib R) w of Inl e \<Rightarrow> ret (Inl e)
            | Inr current \<Rightarrow> if \<not> current then ret (Inr None) else do { b \<leftarrow> scan_owned R cfg now pod; ret (Inr b) }))"
      if "\<not> panicked ow \<and> (\<forall>w. ow = Inr w \<longrightarrow> workload_owned w)" for ow
    proof -
      have "\<not> err_is e NilDeref" if "IsCurrentRevision (rc_Lib R) w = Inl e" "ow = Inr w" for e w
        using owned_no_panic [of w "rc_Lib R"] that \<open>\<not> panicked ow \<and> _\<close> by (metis panicked_simps(1))
      then show ?thesis using that
        by (intro panic_free_branch panic_free_next panic_free_ret) (auto split: if_splits)
    qed
    from panic_free_bind [OF workload_replies(2) [OF assms] this] show ?thesis
      unfolding scan_pod_def by (auto intro!: panic_free_branch(1) panic_free_ret panic_free_bind [OF yields_any [of "podAge _ _"]])
  qed
  then show ?thesis
  proof (induction pods)
    case (Cons pod pods)
    have "yields (\<lambda>r. \<not> panicked r) (scan_pod R cfg now pod)" using Cons.prems by (simp add: panic_free_yields)
    then show ?case
      unfolding scan_pods.simps by (rule panic_free_bind) (intro panic_free_branch panic_free_ret Cons.IH Cons.prems; simp)
  qed (simp add: panic_free_ret)
qed

lemma panic_free_act:
  assumes "no_panic_platform R" "workload_complete wl"
  shows "panic_free (act R wl cfg b now p k v)"
proof -
  have "panic_free (dispatch_restart R wl cfg b now k)"
    unfolding dispatch_restart_def
  proof (rule panic_free_bind [of "\<lambda>d. \<not> panicked (fst d)"])
    show "yields (\<lambda>d. \<not> panicked (fst d)) (Dispatch (rc_Lib R) (rc_API R) wl now)"
      unfolding yields_def
      by (intro allI wp_mono [OF Dispatch_no_panic]) (use assms in \<open>auto simp: no_panic_platform_def\<close>)
    fix d :: "unit result \<times> workload"
    have "panic_free (announce_restart R (snd d) cfg b now k)"
      unfolding announce_restart_def by (intro panic_free_next panic_free_ret) simp
    then show "\<not> panicked (fst d) \<Longrightarrow> panic_free (case fst d of Inl e \<Rightarrow> restart_failed wl k ''dispatch restart for '' e
        | Inr _ \<Rightarrow> announce_restart R (snd d) cfg b now k)"
      by (intro panic_free_branch panic_free_restart_failed) simp_all
  qed
  then have "panic_free (real_restart R wl cfg b now q k)" for q
    unfolding real_restart_def
    by (intro panic_free_bind [OF persist_replies [OF assms(1)]] panic_free_branch panic_free_restart_failed) simp_all
  moreover have "panic_free (dry_run_restart R wl cfg b now q k)" for q
    unfolding dry_run_restart_def by (intro panic_free_next panic_free_branch panic_free_small panic_free_ret) simp
  ultimately have "panic_free (do { st \<leftarrow> captureProfile R wl cfg b now (p_Status p);
      let policy1 = p\<lparr>p_Status := st\<rparr>
      in if pc_DryRun cfg then dry_run_restart R wl cfg b now policy1 k else real_restart R wl cfg b now policy1 k })"
    by (intro panic_free_next panic_free_branch) simp_all
  moreover have "panic_free (do { release_slot k; ret (Inl e) })" if "\<not> err_is e NilDeref" for e
    using that by (intro panic_free_next panic_free_ret) simp
  moreover have "panic_free (do { release_slot k; skip p r })" for r
    by (intro panic_free_next panic_free_small)
  ultimately show ?thesis
    unfolding act_def by (intro panic_free_bind [OF workload_replies(1) [OF assms(1)]]) (auto intro!: panic_free_branch)
qed

lemma panic_free_handle_breach:
  assumes "no_panic_platform R" "workload_complete wl"
  shows "panic_free (handle_breach R wl cfg b now p k v)"
proof -
  have "panic_free (acquire_and_act R wl cfg b now p k v)"
    unfolding acquire_and_act_def
    by (rule panic_free_next, rule panic_free_branch(6)) (intro panic_free_next panic_free_small panic_free_act assms)+
  moreover have "panic_free (defer_restart R wl cfg b now ws)" for ws
    unfolding defer_restart_def by (intro panic_free_next panic_free_branch panic_free_ret) simp
  ultimately show ?thesis
    unfolding handle_breach_def window_gate_def
    by (intro panic_free_next panic_free_branch panic_free_small) simp_all
qed

lemma panic_free_settle:
  assumes "no_panic_platform R" "workload_complete wl"
  shows "panic_free (settle_phase R wl cfg now p k v)"
proof -
  have lib: "lib_no_panic (rc_Lib R)" using assms(1) by (simp add: no_panic_platform_def)
  have settled: "\<not> err_is e NilDeref" if "IsSettled (rc_Lib R) wl = Inl e" for e
    using complete_no_panic(2) [OF assms(2) lib] that by simp
  have selector: "\<not> err_is e NilDeref" if "PodSelector (rc_Lib R) wl = Inl e" for e
    using complete_no_panic(1) [OF assms(2) lib] that by simp
  have "panic_free (listWorkloadPods (rc_Lib R) (rc_API R) wl)"
    unfolding listWorkloadPods_def
    by (intro panic_free_branch panic_free_ret) (simp_all add: selector panic_free_yields api_replies [OF assms(1)])
  then have pods: "yields (\<lambda>r. \<not> panicked r) (listWorkloadPods (rc_Lib R) (rc_API R) wl)"
    by (simp add: panic_free_yields)
  have scan: "yields (\<lambda>r. \<not> panicked r) (scan_pods R cfg now ps)" for ps
    using panic_free_scan_pods [OF assms(1)] by (simp add: panic_free_yields)
  have "panic_free (do { r \<leftarrow> scan_pods R cfg now ps; case r of Inl e \<Rightarrow> ret (Inl e)
      | Inr x \<Rightarrow> (case x of None \<Rightarrow> ret (Inr 0) | Some br \<Rightarrow> handle_breach R wl cfg br now p k v) })" for ps
    by (rule panic_free_bind [OF scan])
       (intro panic_free_branch panic_free_ret panic_free_handle_breach assms; simp)
  then have detect: "panic_free (detect_phase R wl cfg now p k v)"
    unfolding detect_phase_def by (intro panic_free_bind [OF pods] panic_free_branch panic_free_ret) simp_all
  have complete: "panic_free (complete_phase R cfg now p k v)"
  proof -
    have "panic_free (do { r \<leftarrow> Persist (rc_API R) q; ret (case fst r of Inl e \<Rightarrow> Inl e | Inr _ \<Rightarrow> Inr (0 :: duration)) })" for q
      by (rule panic_free_bind [OF persist_replies [OF assms(1)]]) (auto intro!: panic_free_ret split: sum.split)
    then show ?thesis unfolding complete_phase_def
      by (intro panic_free_next [where m = "release_slot k"] panic_free_branch panic_free_ret) (simp_all add: Let_def)
  qed
  have "panic_free (unsettled_phase R p k v)"
    unfolding unsettled_phase_def by (intro panic_free_next panic_free_branch panic_free_small panic_free_ret; simp)
  then show ?thesis
    unfolding settle_phase_def
    by (intro panic_free_branch panic_free_small panic_free_next [where m = get_gate] complete detect panic_free_ret)
       (simp_all add: settled)
qed

lemma panic_free_Reconcile:
  assumes "no_panic_platform R"
  shows "panic_free (Reconcile R ns name)"
proof -
  have update: "panic_free (do { r \<leftarrow> update_policy (rc_API R) q; ret (case r of Inl e \<Rightarrow> Inl e | Inr _ \<Rightarrow> Inr (0 :: duration)) })" for q
    by (rule panic_free_bind [OF api_replies(3) [OF assms]]) (auto intro!: panic_free_ret split: sum.split)
  have phase: "panic_free (workload_phase R wl cfg p k)" if "workload_complete wl" for wl cfg p k
  proof -
    have uid: "\<not> err_is e NilDeref" if "Workload_UID wl = Inl e" for e
      using complete_no_panic(3) [OF \<open>workload_complete wl\<close>] assms that by (metis no_panic_platform_def panicked_simps(1))
    have persist: "panic_free (do { r \<leftarrow> Persist (rc_API R) q; case fst r of Inl e \<Rightarrow> ret (Inl e)
        | Inr _ \<Rightarrow> settle_phase R wl cfg now (snd r) k v })" for q now v
      by (rule panic_free_bind [OF persist_replies [OF assms]])
         (intro panic_free_branch panic_free_ret panic_free_settle assms that; simp)
    show ?thesis unfolding workload_phase_def
      by (rule panic_free_next, intro panic_free_branch persist panic_free_settle assms that panic_free_ret)
         (simp add: uid)
  qed
  have "panic_free (get_workload_phase R cfg p k)" for cfg p k
    unfolding get_workload_phase_def
    by (rule panic_free_bind [OF workload_replies(1) [OF assms]]) (auto intro!: panic_free_branch(2) panic_free_ret phase split: if_splits)
  then have live: "panic_free (live_phase R p k)" for p k
    unfolding live_phase_def Let_def
    by (intro panic_free_branch(1,2) panic_free_bind [OF persist_replies [OF assms]] panic_free_ret) simp_all
  have add: "panic_free (add_finalizer_phase R p k)" for p k
    unfolding add_finalizer_phase_def by (intro panic_free_branch(1,4) update live)
  have finalize: "panic_free (finalize R p k)" for p k
    unfolding finalize_def
    by (intro panic_free_branch(1) panic_free_ret panic_free_next [where m = get_gate]
        panic_free_next [where m = "if _ then release_slot k else ret ()"] update) simp
  show ?thesis unfolding Reconcile_def
    by (rule panic_free_bind [OF api_replies(1) [OF assms]])
       (intro panic_free_branch(1,2,5) finalize add panic_free_ret; auto)
qed

section \<open>Properties\<close>

text \<open>
  C11: slot discipline of a reconcile. It touches the slot of the policy's own workload only: every other
  slot keeps its acquire time and the capacity its value. When its own slot is held at the end, it was held
  before or the result asks to be requeued, so that the rollout will be seen through; in particular no
  error path ends with a slot it has taken.
\<close>

theorem reconcile_slot_discipline:
  assumes "fst (a_GetPolicy (rc_API R) ns name (sy_World s)) = Inr policy"
    and "k = WorkloadKey (wr_Kind (sp_WorkloadRef (p_Spec policy))) (p_Namespace policy) (wr_Name (sp_WorkloadRef (p_Spec policy)))"
  shows "wp (Reconcile R ns name) (\<lambda>r t. g_cap (sy_Gate t) = g_cap (sy_Gate s)
     \<and> (\<forall>k'. k' \<noteq> k \<longrightarrow> fmlookup (g_inflight (sy_Gate t)) k' = fmlookup (g_inflight (sy_Gate s)) k')
     \<and> (Holds (sy_Gate t) k \<longrightarrow> Holds (sy_Gate s) k \<or> r = Inr (rc_RequeueAfter R))) s"
proof (rule Reconcile_wp [OF assms(1)])
  fix w
  define m where "m = (if deleted policy then finalize R policy (policy_key policy)
    else add_finalizer_phase R policy (policy_key policy))"
  have k: "policy_key policy = k" by (simp add: policy_key_def assms(2))
  have "keeps (others k) m" "justified R k m"
    unfolding m_def k by (simp_all add: keeps_others_phases justified_entry)
  then have "wp m (\<lambda>r t. others k t = others k (s\<lparr>sy_World := w\<rparr>)
      \<and> (Holds (sy_Gate t) k \<longrightarrow> Holds (sy_Gate (s\<lparr>sy_World := w\<rparr>)) k \<or> r = Inr (rc_RequeueAfter R))) (s\<lparr>sy_World := w\<rparr>)"
    unfolding justified_def by (intro wp_conj keepsD) blast+
  then have "wp m (\<lambda>r t. others k t = others k s
      \<and> (Holds (sy_Gate t) k \<longrightarrow> Holds (sy_Gate s) k \<or> r = Inr (rc_RequeueAfter R))) (s\<lparr>sy_World := w\<rparr>)"
    by (simp add: others_def)
  then show "wp m (\<lambda>r t. g_cap (sy_Gate t) = g_cap (sy_Gate s)
     \<and> (\<forall>k'. k' \<noteq> k \<longrightarrow> fmlookup (g_inflight (sy_Gate t)) k' = fmlookup (g_inflight (sy_Gate s)) k')
     \<and> (Holds (sy_Gate t) k \<longrightarrow> Holds (sy_Gate s) k \<or> r = Inr (rc_RequeueAfter R))) (s\<lparr>sy_World := w\<rparr>)"
    by (rule wp_mono) (use others_lookup in \<open>auto simp: others_def\<close>)
qed

lemma reconcile_slot_discipline_witness:
  "wp (Reconcile demo_reconciler ''prod'' ''web-policy'') (\<lambda>r t. g_cap (sy_Gate t) = 1
     \<and> (Holds (sy_Gate t) ''Deployment/prod/web'' \<longrightarrow> r = Inr (30 * Second))) (live_sys dry_policy)"
proof -
  have n: "p_Namespace dry_policy = ''prod''" "p_Name dry_policy = ''web-policy''"
    by (simp_all add: dry_policy_def demo_policy_def)
  have k: "''Deployment/prod/web'' = WorkloadKey (wr_Kind (sp_WorkloadRef (p_Spec dry_policy))) (p_Namespace dry_policy)
      (wr_Name (sp_WorkloadRef (p_Spec dry_policy)))"
    by (simp add: dry_policy_def demo_policy_def demo_spec_def WorkloadKey_def kind_defs)
  have g: "sy_Gate (live_sys dry_policy) = NewGate 1" "rc_RequeueAfter demo_reconciler = 30 * Second"
    by (simp_all add: live_sys_def demo_sys_def demo_reconciler_def)
  show ?thesis
    by (rule wp_mono [OF reconcile_slot_discipline [OF demo_get_policy [of dry_policy, unfolded n] k]]) (simp add: g)
qed

text \<open>
  C13: a reconcile never panics. If the library and the platform answer with errors only, no branch of a
  reconcile dereferences a nil pointer, also not one whose error is wrapped.
\<close>

theorem reconcile_never_panics:
  assumes "lib_no_panic (rc_Lib R)" and "api_no_panic (rc_API R)"
  shows "wp (Reconcile R ns name) (\<lambda>r t. \<not> panicked r) s"
  using panic_free_Reconcile [of R ns name] assms by (simp add: no_panic_platform_def panic_free_def)

lemma reconcile_never_panics_witness:
  "wp (Reconcile demo_reconciler ''prod'' ''web-policy'') (\<lambda>r t. r \<noteq> Inl NilDeref) (live_sys dry_policy)"
proof -
  have "lib_no_panic (rc_Lib demo_reconciler)" "api_no_panic (rc_API demo_reconciler)"
    using demo_no_panic by (simp_all add: demo_reconciler_def)
  then show ?thesis
    by (intro wp_mono [OF reconcile_never_panics [of demo_reconciler "''prod''" "''web-policy''"]]) auto
qed

text \<open>
  C22: a settled rollout gives its slot back. When the workload whose slot is held has settled, the slot is
  released whatever the API server answers, and if the policy carries an in-flight marker, a success means
  that its completed status was written: settled, or superseded when the template is not the dispatched one.
\<close>

theorem settled_rollout_releases:
  assumes "IsSettled (rc_Lib R) wl = Inr True" and "Holds (sy_Gate s) k" and "st_InFlight (p_Status p) = Some f"
  shows "wp (settle_phase R wl cfg now p k v) (\<lambda>r t. \<not> Holds (sy_Gate t) k
     \<and> (is_ok r \<longrightarrow> r = Inr 0 \<and> (\<exists>q. EUpdateStatus q True \<in> set (sy_Trace t)
          \<and> p_Status q = RecomputeObservability
              (CompleteInFlight (rc_Lib R) (p_Status p) now
                 (if if_DispatchedVersion f = v then OutcomeSettled else OutcomeSuperseded))
              now (pc_Cooldown cfg) (pc_RestartWindow cfg) (pc_MaxRestartsPerWindow cfg)))) s"
proof -
  define q where "q = p\<lparr>p_Status := RecomputeObservability
      (CompleteInFlight (rc_Lib R) (p_Status p) now
         (if if_DispatchedVersion f = v then OutcomeSettled else OutcomeSuperseded))
      now (pc_Cooldown cfg) (pc_RestartWindow cfg) (pc_MaxRestartsPerWindow cfg)\<rparr>"
  have "wp (Persist (rc_API R) q) (\<lambda>x t. sy_Gate t = sy_Gate u
      \<and> (case x of (r, p') \<Rightarrow> r = Inr () \<longrightarrow> (\<exists>q'. EUpdateStatus q' True \<in> set (sy_Trace t) \<and> p_Status q' = p_Status q))) u" for u
    by (rule wp_mono [OF wp_conj [OF keepsD [OF keeps_Persist(1)] sw.persist_success_recorded]]) auto
  then have "wp (do { r \<leftarrow> Persist (rc_API R) q; ret (case fst r of Inl e \<Rightarrow> Inl e | Inr _ \<Rightarrow> Inr 0) })
      (\<lambda>r t. sy_Gate t = sy_Gate u \<and> (is_ok r \<longrightarrow> r = Inr (0 :: duration)
         \<and> (\<exists>q'. EUpdateStatus q' True \<in> set (sy_Trace t) \<and> p_Status q' = p_Status q))) u" for u
    unfolding wp_bind by (rule wp_mono) (auto split: sum.splits)
  then have persist: "\<not> Holds (sy_Gate u) k \<Longrightarrow> wp (do { r \<leftarrow> Persist (rc_API R) q; ret (case fst r of Inl e \<Rightarrow> Inl e | Inr _ \<Rightarrow> Inr 0) })
      (\<lambda>r t. \<not> Holds (sy_Gate t) k \<and> (is_ok r \<longrightarrow> r = Inr (0 :: duration)
         \<and> (\<exists>q'. EUpdateStatus q' True \<in> set (sy_Trace t) \<and> p_Status q' = p_Status q))) u" for u
    by (rule wp_mono) auto
  have eq: "complete_phase R cfg now p k v =
      do { release_slot k; r \<leftarrow> Persist (rc_API R) q; ret (case fst r of Inl e \<Rightarrow> Inl e | Inr _ \<Rightarrow> Inr 0) }"
    by (cases "if_DispatchedVersion f = v") (simp_all add: complete_phase_def assms(3) q_def Let_def)
  show ?thesis
    unfolding settle_phase_def assms(1) eq
    using persist assms(2) by (simp add: q_def release_slot_def inflight_gauge_def)
qed

definition busy_sys :: "policy \<Rightarrow> cluster sys" where
  "busy_sys p = (live_sys p)\<lparr>sy_Gate := snd (TryAcquire (NewGate 1) ''k'' 90)\<rparr>"

lemma busy_holds: "Holds (sy_Gate (busy_sys p)) ''k''"
  by (simp add: busy_sys_def Holds_TryAcquire TryAcquire_Acquired_iff)

lemma dispatched_marker:
  "st_InFlight (p_Status (demo_policy (dispatched_status 90))) =
     Some \<lparr>if_DispatchedAt = 90, if_DispatchedVersion = TemplateVersion demo_lib demo_workload, if_Phase = PhaseDispatched\<rparr>"
  by (simp add: demo_policy_def dispatched_status_def ApplyRestart_fields)

lemma settled_rollout_releases_witness:
  "wp (settle_phase demo_reconciler demo_workload (ResolvePolicy demo_defaults demo_spec) 100
        (demo_policy (dispatched_status 90)) ''k'' ''v2'')
     (\<lambda>r t. \<not> Holds (sy_Gate t) ''k'') (busy_sys (demo_policy (dispatched_status 90)))"
proof -
  have "IsSettled demo_lib demo_workload = Inr True" by code_simp
  then have "IsSettled (rc_Lib demo_reconciler) demo_workload = Inr True" by (simp add: demo_reconciler_def)
  from settled_rollout_releases [OF this busy_holds dispatched_marker] show ?thesis by (rule wp_mono) blast
qed

text \<open>
  C23: a deleted policy lets go of its slot. Reconciling a policy that is being deleted and carries the
  finalizer releases the slot of its workload whatever the API server answers, and asks the server for one
  update, which removes the finalizer; nothing else is written and no workload is patched.
\<close>

theorem deletion_releases_slot:
  assumes "fst (a_GetPolicy (rc_API R) ns name (sy_World s)) = Inr policy"
    and "p_DeletionTimestamp policy = Some dt" "dt \<noteq> zero_time"
    and "l_ContainsFinalizer (rc_Lib R) (p_Finalizers policy) PolicyFinalizer"
  shows "wp (Reconcile R ns name) (\<lambda>r t.
     \<not> Holds (sy_Gate t) (WorkloadKey (wr_Kind (sp_WorkloadRef (p_Spec policy))) (p_Namespace policy) (wr_Name (sp_WorkloadRef (p_Spec policy))))
     \<and> (\<exists>gs. list_all (\<lambda>e. \<exists>n. e = EGauge ''memreload_inflight_rollouts'' [] n) gs
          \<and> sy_Trace t = EUpdatePolicy (policy\<lparr>p_Finalizers := l_RemoveFinalizer (rc_Lib R) (p_Finalizers policy) PolicyFinalizer\<rparr>)
                (is_ok r) # gs @ sy_Trace s)) s"
  unfolding policy_key_def [symmetric]
proof (rule Reconcile_wp [OF assms(1)])
  fix w
  have del: "deleted policy" using assms(2,3) by (simp add: deleted_def time_IsZero_def)
  define u where "u = s\<lparr>sy_World := w\<rparr>"
  have "wp (finalize R policy k) (\<lambda>r t. \<not> Holds (sy_Gate t) k
     \<and> (\<exists>gs. list_all (\<lambda>e. \<exists>n. e = EGauge ''memreload_inflight_rollouts'' [] n) gs
          \<and> sy_Trace t = EUpdatePolicy (policy\<lparr>p_Finalizers := l_RemoveFinalizer (rc_Lib R) (p_Finalizers policy) PolicyFinalizer\<rparr>)
                (is_ok r) # gs @ sy_Trace u)) u" for k
    using assms(4)
    by (auto simp: finalize_def release_slot_def inflight_gauge_def update_policy_def split: prod.split sum.split
        intro!: exI [of _ "[_]"] exI [of _ "[]"])
  then show "wp (if deleted policy then finalize R policy (policy_key policy) else add_finalizer_phase R policy (policy_key policy))
      (\<lambda>r t. \<not> Holds (sy_Gate t) (policy_key policy)
     \<and> (\<exists>gs. list_all (\<lambda>e. \<exists>n. e = EGauge ''memreload_inflight_rollouts'' [] n) gs
          \<and> sy_Trace t = EUpdatePolicy (policy\<lparr>p_Finalizers := l_RemoveFinalizer (rc_Lib R) (p_Finalizers policy) PolicyFinalizer\<rparr>)
                (is_ok r) # gs @ sy_Trace s)) (s\<lparr>sy_World := w\<rparr>)"
    by (simp add: del u_def)
qed

definition deleted_policy :: policy where
  "deleted_policy = (demo_policy (dispatched_status 90))\<lparr>p_DeletionTimestamp := Some 95\<rparr>"

lemma deletion_releases_slot_witness:
  "wp (Reconcile demo_reconciler ''prod'' ''web-policy'')
     (\<lambda>r t. \<not> Holds (sy_Gate t) ''Deployment/prod/web'') (busy_sys deleted_policy)"
proof -
  have n: "p_Namespace deleted_policy = ''prod''" "p_Name deleted_policy = ''web-policy''"
    by (simp_all add: deleted_policy_def demo_policy_def)
  have k: "WorkloadKey (wr_Kind (sp_WorkloadRef (p_Spec deleted_policy))) ''prod''
      (wr_Name (sp_WorkloadRef (p_Spec deleted_policy))) = ''Deployment/prod/web''"
    by (simp add: deleted_policy_def demo_policy_def demo_spec_def WorkloadKey_def kind_defs)
  have g: "fst (a_GetPolicy (rc_API demo_reconciler) ''prod'' ''web-policy'' (sy_World (busy_sys deleted_policy))) = Inr deleted_policy"
    using demo_get_policy [of deleted_policy] by (simp add: busy_sys_def n)
  have d: "p_DeletionTimestamp deleted_policy = Some 95" "(95::time) \<noteq> zero_time"
    "l_ContainsFinalizer (rc_Lib demo_reconciler) (p_Finalizers deleted_policy) PolicyFinalizer"
    by (simp_all add: deleted_policy_def zero_time_def demo_reconciler_def demo_lib_def demo_policy_def PolicyFinalizer_def)
  show ?thesis
    by (rule wp_mono [OF deletion_releases_slot [OF g d, unfolded n k]]) blast
qed

text \<open>
  C24: a rollout survives a change of leader. When the workload is still rolling out, its slot is not held by
  this process, and the status carries the marker of a dispatch of the live template, the slot is taken
  again if the gate lets it, with the time of the dispatch (so its timeout keeps running), and the policy
  is requeued; no workload is patched and nothing is written.
\<close>

theorem failover_reacquires_slot:
  assumes "IsSettled (rc_Lib R) wl = Inr False" and "\<not> Holds (sy_Gate s) k"
    and "st_InFlight (p_Status p) = Some f" "if_DispatchedVersion f = v"
  shows "wp (settle_phase R wl cfg now p k v) (\<lambda>r t. r = Inr (rc_RequeueAfter R)
     \<and> sy_Gate t = snd (TryAcquire (sy_Gate s) k (if_DispatchedAt f))
     \<and> (\<not> (0 < g_cap (sy_Gate s) \<and> g_cap (sy_Gate s) \<le> int (Inflight (sy_Gate s))) \<longrightarrow>
          fmlookup (g_inflight (sy_Gate t)) k = Some (if_DispatchedAt f))
     \<and> sy_World t = sy_World s) s"
  using assms
  by (auto simp: settle_phase_def unsettled_phase_def acquire_slot_wp inflight_gauge_def TryAcquire_def Holds_def
      Inflight_def split: option.splits)


definition rolling_workload :: workload where
  "rolling_workload = (bare_workload KindDeployment ''prod'' ''web'')
     \<lparr>wl_dep := Some ((demo_deployment None)\<lparr>dp_UpdatedReplicas := 1\<rparr>)\<rparr>"

lemma failover_reacquires_slot_witness:
  "wp (settle_phase demo_reconciler rolling_workload (ResolvePolicy demo_defaults demo_spec) 100
        (demo_policy (dispatched_status 90)) ''k'' (TemplateVersion demo_lib demo_workload))
     (\<lambda>r t. fmlookup (g_inflight (sy_Gate t)) ''k'' = Some 90) (live_sys (demo_policy (dispatched_status 90)))"
proof -
  have "IsSettled demo_lib rolling_workload = Inr False" by code_simp
  then have r: "IsSettled (rc_Lib demo_reconciler) rolling_workload = Inr False" by (simp add: demo_reconciler_def)
  have g: "sy_Gate (live_sys (demo_policy (dispatched_status 90))) = NewGate 1" by (simp add: live_sys_def demo_sys_def)
  have h: "\<not> Holds (sy_Gate (live_sys (demo_policy (dispatched_status 90)))) ''k''" by (simp add: g)
  show ?thesis
    by (rule wp_mono [OF failover_reacquires_slot [OF r h dispatched_marker]]) (use g in auto)
qed

end
