(* ===== verification/RestartRecord.thy ===== *)
theory RestartRecord
  imports ReconcilerSlots
begin

text \<open>
  A restart and its record. Which workload a reconcile patches, with which stamp, and what the status write right
  before the patch says of it.
\<close>

section \<open>The record of a dispatch\<close>

text \<open>
  The status records the restart of the workload \<open>wl\<close> at \<open>now\<close>: the start of the cooldown, the in-flight marker,
  the newest entry of the history, still open, and the version, all of this instant and this workload.
\<close>

definition recorded :: "lib \<Rightarrow> workload \<Rightarrow> time \<Rightarrow> policy_status \<Rightarrow> bool" where
  "recorded L wl now st \<longleftrightarrow> st_LastRestartAt st = Some now \<and> st_Version st = TemplateVersion L wl
     \<and> (\<exists>f. st_InFlight st = Some f \<and> if_DispatchedAt f = now \<and> if_DispatchedVersion f = TemplateVersion L wl
          \<and> marker_ok f (st_History st))"

lemma recorded_restarted: "recorded (rc_Lib R) wl now (restarted_status R st wl cfg b now)"
  by (simp add: recorded_def restarted_status_def Let_def ApplyRestart_fields marker_ok_def append_bounded_props)

text \<open>
  A specification the API server answered for the policy \<open>ns/n\<close>, to a read or to a status write; a workload it
  answered for the reference of one.
\<close>

definition specified :: "'w api \<Rightarrow> string \<Rightarrow> string \<Rightarrow> policy_spec \<Rightarrow> bool" where
  "specified A ns n sp \<longleftrightarrow> (\<exists>w p. fst (a_GetPolicy A ns n w) = Inr p \<and> p_Spec p = sp)
     \<or> (\<exists>p0 w p. of_policy ns n p0 \<and> fst (a_UpdateStatus A p0 w) = Inr p \<and> p_Spec p = sp)"

definition referenced :: "'w api \<Rightarrow> string \<Rightarrow> string \<Rightarrow> workload \<Rightarrow> bool" where
  "referenced A ns n wl \<longleftrightarrow> (\<exists>sp s t. specified A ns n sp
     \<and> run_state (GetWorkload A (wr_Kind (sp_WorkloadRef sp)) ns (wr_Name (sp_WorkloadRef sp))) s = (Inr wl, t))"

text \<open>
  The patch from \<open>old\<close> to \<open>new\<close> restarts the workload of the policy \<open>ns/n\<close>, and \<open>q\<close> is that policy with the status that
  records this restart: the object is the one of the workload, and the time stamped on it the recorded one.
\<close>

definition restart_of :: "'w api \<Rightarrow> lib \<Rightarrow> string \<Rightarrow> string \<Rightarrow> policy \<Rightarrow> wobject \<Rightarrow> wobject \<Rightarrow> bool" where
  "restart_of A L ns n q old new \<longleftrightarrow> of_policy ns n q
     \<and> (\<exists>wl now. referenced A ns n wl \<and> Workload_Object wl = Some (Some old)
          \<and> stamped L (format_RFC3339_UTC now) old new \<and> recorded L wl now (p_Status q))"

text \<open>The API server answers with the policy that was asked for, or written.\<close>

definition answers_named :: "'w api \<Rightarrow> bool" where
  "answers_named A \<longleftrightarrow> (\<forall>ns n w p. fst (a_GetPolicy A ns n w) = Inr p \<longrightarrow> of_policy ns n p)
     \<and> (\<forall>p w q. fst (a_UpdateStatus A p w) = Inr q \<longrightarrow> of_policy (p_Namespace p) (p_Name p) q)"

section \<open>One patch, right after the record\<close>

definition dispatch_ok :: "(policy \<Rightarrow> wobject \<Rightarrow> wobject \<Rightarrow> bool) \<Rightarrow> effect list \<Rightarrow> bool" where
  "dispatch_ok rec es \<longleftrightarrow> list_all no_patch es
     \<or> (\<exists>post old new ok q pre. es = post @ EPatch old new ok # EUpdateStatus q True # pre
          \<and> rec q old new \<and> list_all no_patch post \<and> list_all no_patch pre)"

definition dispatching :: "(policy \<Rightarrow> wobject \<Rightarrow> wobject \<Rightarrow> bool) \<Rightarrow> ('w, 'a) op \<Rightarrow> bool" where
  "dispatching rec m \<longleftrightarrow> (\<forall>s. wp m (\<lambda>_ t. \<exists>es. sy_Trace t = es @ sy_Trace s \<and> dispatch_ok rec es) s)"

lemma dispatching_adds: "adds no_patch m \<Longrightarrow> dispatching rec m"
  unfolding dispatching_def adds_def dispatch_ok_def by (blast intro: wp_mono)

lemma dispatch_ok_append: "dispatch_ok rec es \<Longrightarrow> list_all no_patch fs \<Longrightarrow> dispatch_ok rec (es @ fs)"
  unfolding dispatch_ok_def by (auto simp: list_all_append) (metis append.assoc append_Cons list_all_append)

lemma dispatching_yields:
  assumes "adds no_patch m" and "yields V m" and "\<And>a. V a \<Longrightarrow> dispatching rec (f a)"
  shows "dispatching rec (State_Monad.bind m f)"
proof (unfold dispatching_def, intro allI)
  fix s
  obtain a t where m: "run_state m s = (a, t)" by (cases "run_state m s")
  obtain b u where f: "run_state (f a) t = (b, u)" by (cases "run_state (f a) t")
  obtain es where es: "sy_Trace t = es @ sy_Trace s" "list_all no_patch es" using adds_run [OF assms(1) m] by blast
  have "V a" using assms(2) m by (auto simp: yields_def wp_def dest: spec [of _ s])
  then obtain fs where fs: "sy_Trace u = fs @ sy_Trace t" "dispatch_ok rec fs"
    using assms(3) [of a] wp_run [OF _ f] unfolding dispatching_def by blast
  have "dispatch_ok rec (fs @ es)" using dispatch_ok_append [OF fs(2) es(2)] .
  then show "wp (State_Monad.bind m f) (\<lambda>_ t. \<exists>es. sy_Trace t = es @ sy_Trace s \<and> dispatch_ok rec es) s"
    using es(1) fs(1) by (simp add: wp_def m f)
qed

lemmas dispatching_bind = dispatching_yields [OF _ yields_any]

lemma dispatching_branch:
  "(b \<Longrightarrow> dispatching rec m) \<Longrightarrow> (\<not> b \<Longrightarrow> dispatching rec n) \<Longrightarrow> dispatching rec (if b then m else n)"
  "(\<And>e. r = Inl e \<Longrightarrow> dispatching rec (f e)) \<Longrightarrow> (\<And>x. r = Inr x \<Longrightarrow> dispatching rec (g x)) \<Longrightarrow>
   dispatching rec (case r of Inl e \<Rightarrow> f e | Inr x \<Rightarrow> g x)"
  "(opt = None \<Longrightarrow> dispatching rec h) \<Longrightarrow> (\<And>y. opt = Some y \<Longrightarrow> dispatching rec (k y)) \<Longrightarrow>
   dispatching rec (case opt of None \<Rightarrow> h | Some y \<Rightarrow> k y)"
  "(\<And>a c. p = (a, c) \<Longrightarrow> dispatching rec (q a c)) \<Longrightarrow> dispatching rec (case p of (a, c) \<Rightarrow> q a c)"
  "(\<And>z. z = t \<Longrightarrow> dispatching rec (w z)) \<Longrightarrow> dispatching rec (Let t w)"
  "dispatching rec x1 \<Longrightarrow> dispatching rec x2 \<Longrightarrow> dispatching rec x3 \<Longrightarrow>
   dispatching rec (case out of Acquired \<Rightarrow> x1 | AlreadyInF \<Rightarrow> x2 | CapReached \<Rightarrow> x3)"
  by (cases b; cases r; cases opt; cases p; cases out; simp add: Let_def)+

lemma dispatch_ok_quiet: "list_all no_patch gs \<Longrightarrow> dispatch_ok rec fs \<Longrightarrow> dispatch_ok rec (gs @ fs)"
  unfolding dispatch_ok_def by (auto simp: list_all_append) (metis append.assoc list_all_append)

lemma wp_quiet:
  assumes "adds no_patch m" "sy_Trace v = fs @ sy_Trace s" "dispatch_ok rec fs"
  shows "wp m (\<lambda>_ t. \<exists>es. sy_Trace t = es @ sy_Trace s \<and> dispatch_ok rec es) v"
proof (rule wp_mono [OF addsD [OF assms(1)]])
  fix a t
  assume "\<exists>gs. sy_Trace t = gs @ sy_Trace v \<and> list_all no_patch gs"
  then obtain gs where "sy_Trace t = (gs @ fs) @ sy_Trace s" "dispatch_ok rec (gs @ fs)"
    using assms(2,3) dispatch_ok_quiet by fastforce
  then show "\<exists>es. sy_Trace t = es @ sy_Trace s \<and> dispatch_ok rec es" by blast
qed

text \<open>Dispatching after a stretch of trace that ends in the successful record.\<close>

lemma dispatch_restart_run:
  fixes s t :: "'w sys"
  assumes t: "sy_Trace t = fs @ sy_Trace s" and ok: "dispatch_ok rec fs"
    and patched: "\<And>x y b. Workload_Object wl = Some (Some x) \<Longrightarrow> stamped (rc_Lib R) (format_RFC3339_UTC now) x y \<Longrightarrow>
      dispatch_ok rec (EPatch x y b # fs)"
  shows "wp (dispatch_restart R wl cfg b now k) (\<lambda>_ t. \<exists>es. sy_Trace t = es @ sy_Trace s \<and> dispatch_ok rec es) t"
  unfolding dispatch_restart_def wp_bind
proof (rule wp_mono [OF Dispatch_sends], clarify)
  fix d :: "unit result" and w' and u :: "'w sys"
  assume "(\<exists>old new. Workload_Object wl = Some (Some old) \<and> stamped (rc_Lib R) (format_RFC3339_UTC now) old new
        \<and> sy_Trace u = EPatch old new (is_ok d) # sy_Trace t)
      \<or> sy_Trace u = sy_Trace t \<and> w' = wl \<and> \<not> is_ok d"
  then obtain gs where gs: "sy_Trace u = gs @ sy_Trace s" "dispatch_ok rec gs"
    using t ok patched by (metis append_Cons)
  show "wp (case fst (d, w') of Inl e \<Rightarrow> restart_failed wl k ''dispatch restart for '' e
      | Inr x \<Rightarrow> announce_restart R (snd (d, w')) cfg b now k)
    (\<lambda>_ t. \<exists>es. sy_Trace t = es @ sy_Trace s \<and> dispatch_ok rec es) u"
    using wp_quiet [OF adds_restart_failed gs] wp_quiet [OF adds_announce_restart gs] by (cases d) simp_all
qed

text \<open>A persist writes the policy it is given, by name, and leaves it to its caller.\<close>

lemma Persist_named:
  assumes "answers_named A"
  shows "wp (Persist A p) (\<lambda>(r, p') t. of_policy (p_Namespace p) (p_Name p) p'
    \<and> (p_Spec p' = p_Spec p \<or> (\<exists>w q. fst (a_UpdateStatus A p w) = Inr q \<and> p_Spec q = p_Spec p'))
    \<and> (\<exists>q es. sy_Trace t = EUpdateStatus q (is_ok r) # es @ sy_Trace s \<and> of_policy (p_Namespace p) (p_Name p) q
         \<and> p_Status q = p_Status p \<and> list_all no_patch es)) s"
proof -
  have named: "a_GetPolicy A ns n w = (Inr f, w') \<Longrightarrow> of_policy ns n f"
    "a_UpdateStatus A p w = (Inr q, w') \<Longrightarrow> of_policy (p_Namespace p) (p_Name p) q"
    "a_UpdateStatus A p w = (Inr q, w') \<Longrightarrow> \<exists>w q'. fst (a_UpdateStatus A p w) = Inr q' \<and> p_Spec q' = p_Spec q" for ns n w f w' q
    using assms unfolding answers_named_def by (metis fst_conv)+
  have own: "of_policy (p_Namespace p) (p_Name p) p" by (simp add: of_policy_def)
  show ?thesis
    by (auto simp: Persist_def update_status_def own split: prod.splits sum.splits dest: named)
       (auto dest!: named simp: of_policy_def)
qed

lemma dispatching_real_restart:
  fixes R :: "'w reconciler"
  assumes A: "answers_named (rc_API R)" and p: "of_policy ns n p" and wl: "referenced (rc_API R) ns n wl"
  shows "dispatching (restart_of (rc_API R) (rc_Lib R) ns n) (real_restart R wl cfg b now p k)"
proof (unfold dispatching_def real_restart_def wp_bind, intro allI, rule wp_mono [OF Persist_named [OF A]], clarify)
  let ?rec = "restart_of (rc_API R) (rc_Lib R) ns n"
  fix s t :: "'w sys" and q es p' and r :: "unit result"
  let ?p = "p\<lparr>p_Status := restarted_status R (p_Status p) wl cfg b now\<rparr>"
  assume t: "sy_Trace t = EUpdateStatus q (is_ok r) # es @ sy_Trace s" and own: "of_policy (p_Namespace ?p) (p_Name ?p) q"
    and q: "p_Status q = p_Status ?p" and es: "list_all no_patch es"
  define fs where "fs = EUpdateStatus q (is_ok r) # es"
  have fs: "sy_Trace t = fs @ sy_Trace s" "dispatch_ok ?rec fs"
    using es by (simp_all add: fs_def t dispatch_ok_def)
  have "?rec q x y" if "Workload_Object wl = Some (Some x)" "stamped (rc_Lib R) (format_RFC3339_UTC now) x y" for x y
    using that wl q own p recorded_restarted [of R wl now "p_Status p" cfg b] unfolding restart_of_def of_policy_def by auto
  then have patched: "dispatch_ok ?rec (EPatch x y ok # fs)"
    if "r = Inr ()" "Workload_Object wl = Some (Some x)" "stamped (rc_Lib R) (format_RFC3339_UTC now) x y" for x y ok
    unfolding dispatch_ok_def fs_def using es that by fastforce
  show "wp (case fst (r, p') of Inl e \<Rightarrow> restart_failed wl k ''persist restart state for '' e
      | Inr x \<Rightarrow> dispatch_restart R wl cfg b now k)
    (\<lambda>_ t. \<exists>es. sy_Trace t = es @ sy_Trace s \<and> dispatch_ok ?rec es) t"
    using wp_quiet [OF adds_restart_failed fs] dispatch_restart_run [OF fs patched]
    by (cases r) simp_all
qed

lemma dispatching_handle_breach:
  assumes A: "answers_named (rc_API R)" and p: "of_policy ns n p" and wl: "referenced (rc_API R) ns n wl"
  shows "dispatching (restart_of (rc_API R) (rc_Lib R) ns n) (handle_breach R wl cfg b now p k v)"
proof -
  let ?rec = "restart_of (rc_API R) (rc_Lib R) ns n"
  have restart: "dispatching ?rec (real_restart R wl cfg b now z k)" if "z = p\<lparr>p_Status := st\<rparr>" for z st
    by (rule dispatching_real_restart [OF A _ wl]) (use p that in \<open>simp add: of_policy_def\<close>)
  have "dispatching ?rec (act R wl cfg b now p k v)"
    unfolding act_def
    by (intro dispatching_branch dispatching_bind restart; (assumption | intro dispatching_adds adding; simp)?)
  then show ?thesis
    unfolding handle_breach_def window_gate_def acquire_and_act_def
    by (intro dispatching_branch dispatching_bind; (assumption | intro dispatching_adds adding; simp)?)
qed

lemma dispatching_settle_phase:
  assumes A: "answers_named (rc_API R)" and p: "of_policy ns n p" and wl: "referenced (rc_API R) ns n wl"
  shows "dispatching (restart_of (rc_API R) (rc_Lib R) ns n) (settle_phase R wl cfg now p k v)"
proof -
  note breach = dispatching_handle_breach [OF A p wl]
  show ?thesis
    unfolding settle_phase_def detect_phase_def
    by (intro dispatching_branch dispatching_bind breach; (assumption | intro dispatching_adds adding; simp)?)
qed

text \<open>What a persist and the lookup of the workload leave the reconcile with.\<close>

lemma yields_Persist:
  assumes A: "answers_named A" and p: "of_policy ns n p" "specified A ns n (p_Spec p)"
  shows "yields (\<lambda>r. of_policy ns n (snd r) \<and> specified A ns n (p_Spec (snd r))) (Persist A p)"
proof (unfold yields_def, intro allI)
  fix s
  show "wp (Persist A p) (\<lambda>r _. of_policy ns n (snd r) \<and> specified A ns n (p_Spec (snd r))) s"
  proof (rule wp_mono [OF Persist_named [OF A]], clarify)
    fix r :: "unit result" and p'
    assume own: "of_policy (p_Namespace p) (p_Name p) p'"
      and spec: "p_Spec p' = p_Spec p \<or> (\<exists>w q. fst (a_UpdateStatus A p w) = Inr q \<and> p_Spec q = p_Spec p')"
    have "of_policy ns n p'" using own p(1) by (simp add: of_policy_def)
    moreover have "specified A ns n (p_Spec p')" using spec p unfolding specified_def by metis
    ultimately show "of_policy ns n (snd (r, p')) \<and> specified A ns n (p_Spec (snd (r, p')))" by simp
  qed
qed

lemma yields_GetWorkload:
  assumes "specified A ns n sp"
  shows "yields (\<lambda>r. \<forall>wl. r = Inr wl \<longrightarrow> referenced A ns n wl)
    (GetWorkload A (wr_Kind (sp_WorkloadRef sp)) ns (wr_Name (sp_WorkloadRef sp)))"
  using assms by (auto simp: yields_def wp_def referenced_def split: prod.split)

lemma dispatching_workload_phase:
  assumes A: "answers_named (rc_API R)" and p: "of_policy ns n p" "specified (rc_API R) ns n (p_Spec p)"
    and wl: "referenced (rc_API R) ns n wl"
  shows "dispatching (restart_of (rc_API R) (rc_Lib R) ns n) (workload_phase R wl cfg p k)"
proof -
  let ?rec = "restart_of (rc_API R) (rc_Lib R) ns n"
  have adopted: "of_policy ns n (p\<lparr>p_Status := st\<rparr>)" "specified (rc_API R) ns n (p_Spec (p\<lparr>p_Status := st\<rparr>))" for st
    using p by (simp_all add: of_policy_def)
  have settle: "dispatching ?rec (settle_phase R wl cfg now p' k v)" if "of_policy ns n p'" for now p' v
    by (rule dispatching_settle_phase [OF A that wl])
  have persisted: "dispatching ?rec (do { r \<leftarrow> Persist (rc_API R) (p\<lparr>p_Status := st\<rparr>);
      case fst r of Inl e \<Rightarrow> ret (Inl e) | Inr x \<Rightarrow> settle_phase R wl cfg now (snd r) k v })" for st now v
    by (rule dispatching_yields [OF adds_Persist yields_Persist [OF A adopted]])
       (auto intro: dispatching_branch settle dispatching_adds [OF adds_return])
  show ?thesis
    unfolding workload_phase_def Let_def
    by (intro dispatching_branch dispatching_bind persisted settle adopted(1); (intro dispatching_adds adding; simp)?)
qed

lemma dispatching_Reconcile:
  fixes R :: "'w reconciler"
  assumes A: "answers_named (rc_API R)"
  shows "dispatching (restart_of (rc_API R) (rc_Lib R) ns n) (Reconcile R ns n)"
proof -
  let ?rec = "restart_of (rc_API R) (rc_Lib R) ns n"
  have get: "dispatching ?rec (get_workload_phase R cfg p k)"
    if p: "of_policy ns n p" "specified (rc_API R) ns n (p_Spec p)" for cfg p k
  proof -
    have ns: "p_Namespace p = ns" using p(1) by (simp add: of_policy_def)
    have "dispatching ?rec (case r of Inl e \<Rightarrow> ret (if err_is e ErrNotFound then Inr (rc_RequeueAfter R) else Inl e)
        | Inr wl \<Rightarrow> workload_phase R wl cfg p k)" if "\<forall>wl. r = Inr wl \<longrightarrow> referenced (rc_API R) ns n wl" for r
      by (rule dispatching_branch(2) [OF dispatching_adds [OF adds_return] dispatching_workload_phase [OF A p]]) (use that in simp)
    then show ?thesis
      unfolding get_workload_phase_def ns by (rule dispatching_yields [OF adds_reads(1) yields_GetWorkload [OF p(2)]])
  qed
  have live: "dispatching ?rec (live_phase R p k)"
    if p: "of_policy ns n p" "specified (rc_API R) ns n (p_Spec p)" for p k
  proof -
    let ?p = "p\<lparr>p_Status := (p_Status p)\<lparr>st_DryRun := pc_DryRun (ResolvePolicy (rc_Defaults R) (p_Spec p))\<rparr>\<rparr>"
    have p': "of_policy ns n ?p" "specified (rc_API R) ns n (p_Spec ?p)" using p by (simp_all add: of_policy_def)
    have "dispatching ?rec (do { r \<leftarrow> Persist (rc_API R) ?p;
        case fst r of Inl e \<Rightarrow> ret (Inl e) | Inr x \<Rightarrow> get_workload_phase R cfg (snd r) k })" for cfg
      by (rule dispatching_yields [OF adds_Persist yields_Persist [OF A p']])
         (auto intro: dispatching_branch get dispatching_adds [OF adds_return])
    then show ?thesis unfolding live_phase_def Let_def by (intro dispatching_branch get p)
  qed
  have answer: "yields (\<lambda>g. \<forall>p. g = Inr p \<longrightarrow> of_policy ns n p \<and> specified (rc_API R) ns n (p_Spec p))
      (call (a_GetPolicy (rc_API R) ns n))"
  proof (unfold yields_def, intro allI)
    fix s :: "'w sys"
    have "of_policy ns n p \<and> specified (rc_API R) ns n (p_Spec p)" if "fst (a_GetPolicy (rc_API R) ns n (sy_World s)) = Inr p" for p
      using A that unfolding answers_named_def specified_def by blast
    then show "wp (call (a_GetPolicy (rc_API R) ns n))
        (\<lambda>g _. \<forall>p. g = Inr p \<longrightarrow> of_policy ns n p \<and> specified (rc_API R) ns n (p_Spec p)) s"
      by (auto split: prod.split)
  qed
  have "dispatching ?rec (add_finalizer_phase R p k)" if "of_policy ns n p" "specified (rc_API R) ns n (p_Spec p)" for p k
    unfolding add_finalizer_phase_def
    by (intro dispatching_branch dispatching_bind live that; (intro dispatching_adds adding; simp)?)
  then show ?thesis
    unfolding Reconcile_def
    by (intro dispatching_yields [OF keeps_Trace_adds [OF keeps_gate_call(3)] answer])
       (auto simp: Let_def intro: dispatching_adds adding split: sum.split)
qed


end
