(* ===== verification/Controller.thy ===== *)
theory Controller
  imports Startup RestartRecord
begin

text \<open>
  The running controller: what \<open>mgr.Start\<close> keeps going. The reconcile loop, the sampler and the expirer act
  on one gate, one sample store and one cluster, in any order and any number of times; between their steps
  the cluster and the clock change as they like, and at any time the process may be replaced by a fresh one
  that knows only what the cluster holds. A reconcile, a tick of the sampler and a tick of the
  expirer are one step each: the reconciler runs one policy at a time, and what the three share is behind
  the mutexes of the gate and the store. Which policy is reconciled when (watch events, requeue delays, the
  sampler's channel) is left open, so every schedule is among those considered.
\<close>

section \<open>Steps and reachable states\<close>

text \<open>The state a started controller hands to its runnables.\<close>

definition boot :: "'w controller \<Rightarrow> 'w \<Rightarrow> 'w sys" where
  "boot C w = \<lparr>sy_World = w, sy_Gate = co_Gate C, sy_Samples = co_Store C, sy_Warned = {||}, sy_WouldRestart = fmempty,
     sy_Trace = []\<rparr>"

inductive ctl_step :: "'w controller \<Rightarrow> 'w sys \<Rightarrow> 'w sys \<Rightarrow> bool" for C where
  reconciling: "run_state (Reconcile (co_Reconciler C) ns name) s = (r, t) \<Longrightarrow> ctl_step C s t"
| sampling: "run_state (sampleOnce (co_Sampler C)) s = (u, t) \<Longrightarrow> ctl_step C s t"
| expiring: "run_state (expire_tick (co_Expirer C) now) s = (e, t) \<Longrightarrow> ctl_step C s t"
| outside: "ctl_step C s (s\<lparr>sy_World := w\<rparr>)"
| failover: "ctl_step C s ((boot C (sy_World s))\<lparr>sy_Trace := sy_Trace s\<rparr>)"

inductive reachable :: "'w controller \<Rightarrow> 'w \<Rightarrow> 'w sys \<Rightarrow> bool" for C w where
  start: "reachable C w (boot C w)"
| step: "reachable C w s \<Longrightarrow> ctl_step C s t \<Longrightarrow> reachable C w t"

text \<open>A controller over a source that keeps to the contract, with an empty store.\<close>

definition contracted :: "'w controller \<Rightarrow> bool" where
  "contracted C \<longleftrightarrow> usage_source (sm_Source (co_Sampler C)) \<and> sto_data (co_Store C) = fmempty \<and> 2 \<le> sto_maxLen (co_Store C)"

text \<open>
  A property of the state that holds at the start and that each of the three operations keeps, whatever the
  cluster does, holds whenever the controller runs.
\<close>

locale controller_invariant =
  fixes I :: "'w controller \<Rightarrow> 'w sys \<Rightarrow> bool"
  assumes inv_boot: "contracted C \<Longrightarrow> I C (boot C w)"
    and inv_failover: "contracted C \<Longrightarrow> I C s \<Longrightarrow> I C ((boot C w)\<lparr>sy_Trace := sy_Trace s\<rparr>)"
    and inv_reconcile: "contracted C \<Longrightarrow> preserves (I C) (Reconcile (co_Reconciler C) ns name)"
    and inv_sample: "contracted C \<Longrightarrow> preserves (I C) (sampleOnce (co_Sampler C))"
    and inv_expire: "contracted C \<Longrightarrow> preserves (I C) (expire_tick (co_Expirer C) now)"
    and inv_world: "I C s \<Longrightarrow> I C (s\<lparr>sy_World := v\<rparr>)"
begin

lemma inv_step:
  assumes C: "contracted C" and s: "I C s" and step: "ctl_step C s t"
  shows "I C t"
  using step
proof (cases rule: ctl_step.cases)
  case (reconciling ns name r)
  then show ?thesis using preserves_run [OF inv_reconcile [OF C] s] by blast
next
  case (sampling u)
  then show ?thesis using preserves_run [OF inv_sample [OF C] s] by blast
next
  case (expiring now e)
  then show ?thesis using preserves_run [OF inv_expire [OF C] s] by blast
next
  case (outside w)
  then show ?thesis using inv_world [OF s] by simp
next
  case failover
  then show ?thesis using inv_failover [OF C s] by simp
qed

lemma inv_reachable:
  assumes C: "contracted C" and "reachable C w s"
  shows "I C s"
  using assms(2) by (induction rule: reachable.induct) (simp_all add: inv_boot [OF C] inv_step [OF C])

end

section \<open>The gate sees only its own operations\<close>

text \<open>The gate is where a sequence of its operations has taken it from \<open>g0\<close>.\<close>

definition gated :: "gate \<Rightarrow> 'w sys \<Rightarrow> bool" where
  "gated g0 s \<longleftrightarrow> (\<exists>ops. sy_Gate s = gate_run g0 ops)"

lemma gate_run_snoc: "gate_run g (ops @ [x]) = gate_step (gate_run g ops) x"
  by (simp add: gate_run_def)

lemma gated_step: "gated g0 s \<Longrightarrow> sy_Gate t = gate_step (sy_Gate s) x \<Longrightarrow> gated g0 t"
  unfolding gated_def by (metis gate_run_snoc)

lemma gated_same: "gated g0 s \<Longrightarrow> sy_Gate t = sy_Gate s \<Longrightarrow> gated g0 t"
  by (simp add: gated_def)

lemma gated_keeps: "keeps sy_Gate m \<Longrightarrow> preserves (gated g0) m"
  by (rule preservesI, rule wp_mono [OF keepsD]) (auto intro: gated_same)

lemma gated_release: "gated g0 s \<Longrightarrow> gated g0 (s\<lparr>sy_Gate := Release (sy_Gate s) k\<rparr>)"
  by (erule gated_step [where x = "OpRelease k"]) simp

lemma gated_trace: "gated g0 (s\<lparr>sy_Trace := es\<rparr>) = gated g0 s"
  by (simp add: gated_def)

lemma gated_slot [preserving]:
  "preserves (gated g0) (release_slot k)" "preserves (gated g0) (acquire_slot k now)" "preserves (gated g0) (release_keys ks)"
proof -
  show "preserves (gated g0) (release_slot k)"
    by (rule preservesI) (simp add: release_slot_def inflight_gauge_def gated_trace gated_release)
  show "preserves (gated g0) (acquire_slot k now)"
    by (rule preservesI) (auto simp: acquire_slot_wp intro: gated_step [where x = "OpAcquire k now"])
  have "gated g0 s \<Longrightarrow> wp (release_keys ks) (\<lambda>_. gated g0) s" for s
    by (induction ks arbitrary: s) (simp_all add: gated_release)
  then show "preserves (gated g0) (release_keys ks)" by (rule preservesI)
qed

lemmas gated_quiet [preserving] =
  keeps_GetWorkload(1) [THEN gated_keeps] keeps_captureProfile [THEN gated_keeps] keeps_small [THEN gated_keeps]
  keeps_notify(1) [THEN gated_keeps] keeps_Persist(1) [THEN gated_keeps] keeps_Dispatch(1) [THEN gated_keeps]
  keeps_defer [THEN gated_keeps] keeps_gate_emit(1) [THEN gated_keeps] keeps_gate_call(1) [THEN gated_keeps]
  keeps_listWorkloadPods(1) [THEN gated_keeps] keeps_scan_pods [THEN gated_keeps]
  keeps_update_status(1,3) [THEN gated_keeps] keeps_gets [THEN gated_keeps] keeps_others_slot(4) [THEN gated_keeps]
  keeps_SweepInFlight(1) [THEN gated_keeps]

lemma preserves_case_outcome [preserving]:
  "preserves I x1 \<Longrightarrow> preserves I x2 \<Longrightarrow> preserves I x3 \<Longrightarrow>
   preserves I (case out of Acquired \<Rightarrow> x1 | AlreadyInF \<Rightarrow> x2 | CapReached \<Rightarrow> x3)"
  by (cases out) simp_all

lemma gated_act [preserving]: "preserves (gated g0) (act R wl cfg b now p k v)"
  unfolding act_def dry_run_restart_def real_restart_def dispatch_restart_def restart_failed_def
  by (intro preserving)

lemma gated_handle_breach [preserving]: "preserves (gated g0) (handle_breach R wl cfg b now p k v)"
  unfolding handle_breach_def window_gate_def acquire_and_act_def
  by (intro preserving)

lemma gated_Reconcile: "preserves (gated g0) (Reconcile R ns name)"
  unfolding Reconcile_def finalize_def add_finalizer_phase_def live_phase_def get_workload_phase_def workload_phase_def
    settle_phase_def detect_phase_def unsettled_phase_def complete_phase_def
  by (intro preserving)

lemma gated_expire_tick: "preserves (gated g0) (expire_tick E now)"
proof -
  have "preserves (gated g0) (expire_slots E now)"
    by (rule preservesI)
       (auto simp: expire_slots_def set_inflight_def gated_trace split: prod.split
          intro: gated_step [where x = "OpExpire now (ex_Timeout E)"])
  moreover have "preserves (gated g0) set_inflight" unfolding set_inflight_def by (intro preserving)
  ultimately show ?thesis unfolding expire_tick_def sweep_slots_def by (intro preserving)
qed

text \<open>The sampler never touches the gate, with a source that does not.\<close>

lemma keeps_gate_sample_targets [keeping]: "keeps sy_Gate (sample_targets byKey now pod ts live enqueue)"
proof (induction ts arbitrary: live enqueue)
  case (Cons t ts)
  have "keeps sy_Gate (put_samples st)" for st by (simp add: keeps_def)
  with Cons show ?case by (auto simp: Let_def intro!: keeping split: option.split)
qed (simp add: keeping)

lemma keeps_gate_sample_policies [keeping]: "keeps sy_Gate (sample_policies S byKey now ps k)"
proof -
  have pods: "keeps sy_Gate (sample_pods byKey now cfg wkey pods k enqueue)" for cfg wkey pods k enqueue
    by (induction pods arbitrary: k enqueue) (auto intro!: keeping split: prod.split)
  have "keeps sy_Gate (sample_policy S byKey now p k)" for p k
    unfolding sample_policy_def by (intro keeping pods)
  then show ?thesis by (induction ps arbitrary: k) (auto intro!: keeping)
qed

lemma keeps_gate_sampleOnce:
  assumes "usage_source (sm_Source S)"
  shows "keeps sy_Gate (sampleOnce S)"
proof -
  have "keeps sy_Gate (put_samples st)" for st by (simp add: keeps_def)
  then show ?thesis
    unfolding sampleOnce_def by (intro keeping usage_source.usage_gate [OF assms])
qed

section \<open>Patches in the trace\<close>

text \<open>
  Every patch in the trace comes right after the successful write of a status, of a policy whose workload it
  restarts, that records this restart.
\<close>

fun patches_recorded :: "'w api \<Rightarrow> lib \<Rightarrow> effect list \<Rightarrow> bool" where
  "patches_recorded A L [] = True"
| "patches_recorded A L (EPatch old new ok # es) =
     ((case es of EUpdateStatus q True # _ \<Rightarrow> restart_of A L (p_Namespace q) (p_Name q) q old new | _ \<Rightarrow> False)
      \<and> patches_recorded A L es)"
| "patches_recorded A L (e # es) = patches_recorded A L es"

lemma patches_recorded_quiet: "list_all no_patch es \<Longrightarrow> patches_recorded A L (es @ fs) = patches_recorded A L fs"
proof (induction es)
  case (Cons e es)
  then show ?case by (cases e) auto
qed simp

lemma patches_recorded_dispatch:
  assumes "dispatch_ok (restart_of A L ns n) es" and "patches_recorded A L fs"
  shows "patches_recorded A L (es @ fs)"
proof -
  have "restart_of A L (p_Namespace q) (p_Name q) q old new" if "restart_of A L ns n q old new" for q old new
    using that by (auto simp: restart_of_def of_policy_def)
  then show ?thesis using assms patches_recorded_quiet by (fastforce simp: dispatch_ok_def)
qed

text \<open>The invariant, over an API server that answers with the policy asked for.\<close>

definition patched :: "'w controller \<Rightarrow> 'w sys \<Rightarrow> bool" where
  "patched C s \<longleftrightarrow> (answers_named (rc_API (co_Reconciler C)) \<longrightarrow>
     patches_recorded (rc_API (co_Reconciler C)) (rc_Lib (co_Reconciler C)) (sy_Trace s))"

lemma patched_adds: "adds no_patch m \<Longrightarrow> preserves (patched C) m"
  by (rule preservesI, rule wp_mono [OF addsD]) (auto simp: patched_def patches_recorded_quiet)

lemma patched_Reconcile: "preserves (patched C) (Reconcile (co_Reconciler C) ns n)"
proof (cases "answers_named (rc_API (co_Reconciler C))")
  case True
  show ?thesis
  proof (rule preservesI)
    fix s
    assume s: "patched C s"
    have "wp (Reconcile (co_Reconciler C) ns n) (\<lambda>_ t. \<exists>es. sy_Trace t = es @ sy_Trace s
        \<and> dispatch_ok (restart_of (rc_API (co_Reconciler C)) (rc_Lib (co_Reconciler C)) ns n) es) s"
      using dispatching_Reconcile [OF True, of ns n] by (simp add: dispatching_def)
    then show "wp (Reconcile (co_Reconciler C) ns n) (\<lambda>_. patched C) s"
      by (rule wp_mono) (use s in \<open>auto simp: patched_def True patches_recorded_dispatch\<close>)
  qed
next
  case False
  then show ?thesis by (simp add: preserves_def patched_def wp_def split: prod.split)
qed

lemma adds_sweep: "adds no_patch (SweepInFlight L A now timeout)"
proof -
  have "adds no_patch (sweep_loop L A now timeout keys ps)" for keys ps
    by (induction ps arbitrary: keys) (auto simp: classifyInFlight_def Let_def intro!: adding)
  then show ?thesis unfolding SweepInFlight_def by (intro adding)
qed

lemma adds_expire_tick: "adds no_patch (expire_tick E now)"
proof -
  have rel: "adds no_patch (release_keys ks)" for ks by (induction ks) (auto intro!: adding)
  have set: "adds no_patch set_inflight" unfolding set_inflight_def by (intro adding) simp
  have slots: "adds no_patch (expire_slots E now)"
    unfolding expire_slots_def by (intro adding set) simp_all
  show ?thesis
    unfolding expire_tick_def sweep_slots_def by (intro adding adds_sweep rel set slots) simp_all
qed

lemma adds_sampleOnce:
  assumes "usage_source (sm_Source S)"
  shows "adds no_patch (sampleOnce S)"
proof -
  have targets: "adds no_patch (sample_targets byKey now pod ts live enqueue)" for byKey now pod ts live enqueue
    by (induction ts arbitrary: live enqueue) (auto simp: Let_def intro!: adding split: option.split)
  have pods: "adds no_patch (sample_pods byKey now cfg wkey ps k enqueue)" for byKey now cfg wkey ps k enqueue
    by (induction ps arbitrary: k enqueue) (auto intro!: adding targets split: prod.split)
  have policy: "adds no_patch (sample_policy S byKey now p k)" for byKey now p k
    unfolding sample_policy_def by (intro adding pods) simp_all
  have policies: "adds no_patch (sample_policies S byKey now ps k)" for byKey now ps k
    by (induction ps arbitrary: k) (auto intro!: adding policy)
  have gauges: "adds no_patch (set_gauges n x m)" for n x m by (induction m) (auto intro!: adding)
  have list: "adds no_patch (listPolicies S)" by (rule keeps_Trace_adds [OF keeps_listPolicies(3)])
  have rewrite: "adds no_patch (rewrite_gauges k)" for k unfolding rewrite_gauges_def by (intro adding gauges) simp_all
  show ?thesis
    unfolding sampleOnce_def
    by (intro adding list policies rewrite usage_source.usage_writes_nothing [OF assms]) simp_all
qed

section \<open>The sample buffers\<close>

text \<open>No series is longer than the buffer, whatever the clock does.\<close>

definition buffered :: "int \<Rightarrow> sample_store \<Rightarrow> bool" where
  "buffered m st \<longleftrightarrow> sto_maxLen st = m \<and> 0 \<le> m \<and> (\<forall>k. int (length (Samples st k)) \<le> m)"

lemma Samples_length_Observe:
  assumes "0 \<le> sto_maxLen s"
  shows "int (length (Samples (Observe s k x rc) k)) \<le> sto_maxLen s"
  using assms by (auto simp: Samples_def Observe_def Let_def split: option.split)

lemma buffered_Observe: "buffered m s \<Longrightarrow> buffered m (Observe s k x rc)"
proof -
  assume b: "buffered m s"
  then have "0 \<le> sto_maxLen s" by (simp add: buffered_def)
  then have "int (length (Samples (Observe s k x rc) k')) \<le> m" for k'
    using b Samples_length_Observe [of s k x rc] by (cases "k' = k") (auto simp: buffered_def Samples_Observe_other)
  then show "buffered m (Observe s k x rc)" using b by (simp add: buffered_def)
qed

lemma buffered_Prune: "buffered m s \<Longrightarrow> buffered m (fst (Prune s live))"
  by (auto simp: buffered_def Samples_def split: option.splits if_splits)

lemma buffered_NewStore: "buffered (sto_maxLen (NewStore r m)) (NewStore r m)"
  by (simp add: buffered_def NewStore_def Samples_def)

lemma buffered_keeps: "keeps sy_Samples m \<Longrightarrow> preserves (\<lambda>s. buffered n (sy_Samples s)) m"
  by (rule preservesI, rule wp_mono [OF keepsD]) auto

lemma keeps_samples_small:
  "keeps sy_Samples (release_slot k)" "keeps sy_Samples (acquire_slot k now)" "keeps sy_Samples (warnUnmonitorableOnce pod)"
  "keeps sy_Samples (recentlyWouldRestart k now cd)" "keeps sy_Samples (store_would_restart k now)"
  "keeps sy_Samples (skip p r)" "keeps sy_Samples (skipRequeue R p r)" "keeps sy_Samples (put_gate g)"
  by (auto simp: keeps_def release_slot_def inflight_gauge_def acquire_slot_wp warnUnmonitorableOnce_def
      recentlyWouldRestart_def store_would_restart_def skip_def skipRequeue_def)

lemma keeps_samples_Reconcile: "keeps sy_Samples (Reconcile R ns name)"
proof -
  note small [keeping] = keeps_samples_small
  have targets [keeping]: "keeps sy_Samples (scan_targets pod now ts)" for pod now ts
    by (induction ts) (auto simp: Let_def intro!: keeping)
  have "keeps sy_Samples (scan_pod R cfg now pod)" for cfg now pod
    unfolding scan_pod_def scan_owned_def by (intro keeping)
  then have pods [keeping]: "keeps sy_Samples (scan_pods R cfg now ps)" for cfg now ps
    by (induction ps) (auto intro!: keeping)
  have capture [keeping]: "keeps sy_Samples (captureProfile R wl cfg b now st)" for wl cfg b now st
    unfolding captureProfile_def by (auto intro!: keeping split: option.split)
  have outcome [keeping]: "keeps sy_Samples x1 \<Longrightarrow> keeps sy_Samples x2 \<Longrightarrow> keeps sy_Samples x3 \<Longrightarrow>
      keeps sy_Samples (case out of Acquired \<Rightarrow> x1 | AlreadyInF \<Rightarrow> x2 | CapReached \<Rightarrow> x3)" for x1 x2 x3 :: "('a, 'b) op" and out
    by (cases out) simp_all
  have act [keeping]: "keeps sy_Samples (act R wl cfg b now p k v)" for wl cfg b now p k v
    unfolding act_def dry_run_restart_def real_restart_def dispatch_restart_def restart_failed_def announce_restart_def
    by (intro keeping)
  have breach [keeping]: "keeps sy_Samples (handle_breach R wl cfg b now p k v)" for wl cfg b now p k v
    unfolding handle_breach_def window_gate_def acquire_and_act_def defer_restart_def effective_windows_def
    by (intro keeping)
  show ?thesis
    unfolding Reconcile_def finalize_def add_finalizer_phase_def live_phase_def get_workload_phase_def workload_phase_def
      settle_phase_def detect_phase_def unsettled_phase_def complete_phase_def
    by (intro keeping)
qed

lemma keeps_samples_expire: "keeps sy_Samples (expire_tick E now)"
proof -
  note small [keeping] = keeps_samples_small
  have [keeping]: "keeps sy_Samples (release_keys ks)" for ks by (induction ks) (auto intro!: keeping)
  show ?thesis unfolding expire_tick_def expire_slots_def sweep_slots_def set_inflight_def by (intro keeping)
qed

lemma buffered_sampleOnce:
  assumes "usage_source (sm_Source S)"
  shows "preserves (\<lambda>s. buffered m (sy_Samples s)) (sampleOnce S)"
proof -
  let ?P = "\<lambda>s :: 'a sys. buffered m (sy_Samples s)"
  have quiet: "keeps sy_Samples n \<Longrightarrow> preserves ?P n" for n :: "('a, 'b) op" by (rule buffered_keeps)
  have targets: "preserves ?P (sample_targets byKey now pod ts live enqueue)" for byKey now pod ts live enqueue
  proof (rule preservesI)
    fix s :: "'a sys"
    assume "?P s"
    then show "wp (sample_targets byKey now pod ts live enqueue) (\<lambda>_. ?P) s"
      by (induction ts arbitrary: s live enqueue) (auto simp: Let_def buffered_Observe split: option.split)
  qed
  have pods: "preserves ?P (sample_pods byKey now cfg wkey ps k enqueue)" for byKey now cfg wkey ps k enqueue
    by (induction ps arbitrary: k enqueue) (auto intro!: preserving targets split: prod.split)
  have policy: "preserves ?P (sample_policy S byKey now p k)" for byKey now p k
    unfolding sample_policy_def
    by (intro preserving pods buffered_keeps keeps_GetWorkload(2) keeps_listWorkloadPods(2) keeps_gate_emit(2))
  have policies: "preserves ?P (sample_policies S byKey now ps k)" for byKey now ps k
    by (induction ps arbitrary: k) (auto intro!: preserving policy)
  have prune: "preserves ?P (do { store \<leftarrow> get_samples;
      case Prune store live of (store', kept) \<Rightarrow> do { put_samples store'; emit (f kept) } })" for live and f :: "nat \<Rightarrow> effect"
    by (rule preservesI) (simp add: buffered_Prune case_prod_beta)
  show ?thesis
    unfolding sampleOnce_def
    by (intro preserving policies prune buffered_keeps keeps_listPolicies(2) keeps_gate_call(2) keeps_gate_emit(2)
        keeps_rewrite(1) usage_source.usage_samples [OF assms])
qed

section \<open>A fleet in dry-run\<close>

text \<open>No policy the API server ever answers with says \<open>dryRun: false\<close>.\<close>

definition unarmed :: "'w reconciler \<Rightarrow> bool" where
  "unarmed R \<longleftrightarrow> (\<forall>ns name w p. fst (a_GetPolicy (rc_API R) ns name w) = Inr p \<longrightarrow> sp_DryRun (p_Spec p) \<noteq> Some False)"

lemma adds_Reconcile_unarmed:
  assumes "unarmed R"
  shows "adds no_patch (Reconcile R ns name)"
proof -
  have answer: "yields (\<lambda>r. \<forall>p. r = Inr p \<longrightarrow> sp_DryRun (p_Spec p) \<noteq> Some False) (call (a_GetPolicy (rc_API R) ns name))"
    using assms by (auto simp: yields_def unarmed_def split: prod.split) (metis fst_conv)
  have parts: "adds no_patch (add_finalizer_phase R p k)" "adds no_patch (finalize R p k)"
    if "sp_DryRun (p_Spec p) \<noteq> Some False" for p k
    unfolding add_finalizer_phase_def using that by (intro adding adds_live_dry_run; simp)+
  show ?thesis
    unfolding Reconcile_def
    by (rule adds_bind_yields [OF keeps_Trace_adds [OF keeps_gate_call(3)] answer])
       (auto simp: Let_def adds_return parts split: sum.split)
qed

section \<open>The invariants\<close>

lemma well_started_contracted: "well_started F C \<Longrightarrow> contracted C"
  by (auto simp: well_started_def contracted_def NewStore_def split: sum.splits prod.splits)

interpretation slots: controller_invariant "\<lambda>C. gated (co_Gate C)"
proof
  fix C :: "'a controller" and s :: "'a sys" and w v
  show boot: "gated (co_Gate C) (boot C w)" unfolding gated_def boot_def by (rule exI [of _ "[]"]) simp
  show "gated (co_Gate C) ((boot C w)\<lparr>sy_Trace := sy_Trace s\<rparr>)" using boot by (simp add: gated_trace)
  show "preserves (gated (co_Gate C)) (sampleOnce (co_Sampler C))" if "contracted C"
    using that unfolding contracted_def by (intro gated_keeps keeps_gate_sampleOnce) simp
  show "gated (co_Gate C) (s\<lparr>sy_World := v\<rparr>)" if "gated (co_Gate C) s" using that by (simp add: gated_def)
qed (rule gated_Reconcile gated_expire_tick)+

interpretation patches: controller_invariant patched
proof
  fix C :: "'a controller" and s :: "'a sys" and w v
  show "patched C (boot C w)" by (simp add: patched_def boot_def)
  show "patched C ((boot C w)\<lparr>sy_Trace := sy_Trace s\<rparr>)" if "patched C s" using that by (simp add: patched_def)
  show "preserves (patched C) (sampleOnce (co_Sampler C))" if "contracted C"
    using that unfolding contracted_def by (intro patched_adds adds_sampleOnce) simp
  show "patched C (s\<lparr>sy_World := v\<rparr>)" if "patched C s" using that by (simp add: patched_def)
qed (simp_all add: patched_adds adds_expire_tick patched_Reconcile)

interpretation buffers: controller_invariant "\<lambda>C s. buffered (sto_maxLen (co_Store C)) (sy_Samples s)"
proof
  fix C :: "'a controller" and s :: "'a sys" and w
  assume C: "contracted C"
  then show boot: "buffered (sto_maxLen (co_Store C)) (sy_Samples (boot C w))"
    by (simp add: contracted_def boot_def buffered_def Samples_def)
  then show "buffered (sto_maxLen (co_Store C)) (sy_Samples ((boot C w)\<lparr>sy_Trace := sy_Trace s\<rparr>))" by simp
  show "preserves (\<lambda>s. buffered (sto_maxLen (co_Store C)) (sy_Samples s)) (sampleOnce (co_Sampler C))"
    using C unfolding contracted_def by (intro buffered_sampleOnce) simp
qed (simp_all add: buffered_keeps keeps_samples_Reconcile keeps_samples_expire)

interpretation dry: controller_invariant "\<lambda>C s. unarmed (co_Reconciler C) \<longrightarrow> list_all no_patch (sy_Trace s)"
proof
  fix C :: "'a controller" and ns name now
  have lift: "preserves (\<lambda>s :: 'a sys. unarmed (co_Reconciler C) \<longrightarrow> list_all no_patch (sy_Trace s)) m"
    if "unarmed (co_Reconciler C) \<Longrightarrow> adds no_patch m" for m :: "('a, 'b) op"
  proof (cases "unarmed (co_Reconciler C)")
    case True
    then show ?thesis by (intro preservesI wp_mono [OF addsD [OF that]]) auto
  qed (auto intro!: preservesI wp_runI)
  show "preserves (\<lambda>s. unarmed (co_Reconciler C) \<longrightarrow> list_all no_patch (sy_Trace s)) (Reconcile (co_Reconciler C) ns name)"
    by (rule lift [OF adds_Reconcile_unarmed])
  show "preserves (\<lambda>s. unarmed (co_Reconciler C) \<longrightarrow> list_all no_patch (sy_Trace s)) (expire_tick (co_Expirer C) now)"
    by (rule lift [OF adds_expire_tick])
  show "preserves (\<lambda>s. unarmed (co_Reconciler C) \<longrightarrow> list_all no_patch (sy_Trace s)) (sampleOnce (co_Sampler C))"
    if "contracted C"
    by (rule lift [OF adds_sampleOnce]) (use that in \<open>simp add: contracted_def\<close>)
qed (simp_all add: boot_def)

lemma run_well_started: "run_state (run H F) s = (Inr C, t) \<Longrightarrow> well_started F C"
  using run_starts [of F H] by (auto simp: starts_def dest: spec [of _ s] wp_run)

lemmas run_contracted = run_well_started [THEN well_started_contracted]

end
