(* ===== verification/MetricsUse.thy ===== *)
theory MetricsUse
  imports Controller
begin

text \<open>
  Every use of a metric by the running controller fits its collector: the pieces of the three loops, and
  with them the invariant of the running controller.
\<close>

section \<open>The reconcile\<close>

lemma fits_labels [simp]: "length (wl_labels wl) = 3" "length (policy_labels p) = 3"
  by (simp_all add: wl_labels_def policy_labels_def)

declare adds_skip [adding del]

lemma fits_skip [adding]: "adds metric_fits (skip p r)" "adds metric_fits (skipRequeue R p r)"
  unfolding skip_def skipRequeue_def by (intro adding; simp)+

lemma fits_Notify [adding]: "adds metric_fits (Notify L A n e)"
proof -
  have "adds metric_fits (notify_loop L A e ss)" for ss
    by (induction ss) (auto intro!: adding)
  then show ?thesis by (cases n) (auto simp: Notify_def intro!: adding)
qed

lemma fits_Capture [adding]: "adds metric_fits (Capture A c ip path key)"
  by (rule adds_mono [OF adds_Capture]) (auto simp: capture_effect_def split: effect.splits)

lemma fits_small [adding]:
  "adds metric_fits (warnUnmonitorableOnce pod)" "adds metric_fits (known_routes R wl names)"
  "adds metric_fits (restart_failed wl k what e)" "adds metric_fits (effective_windows R p cfg)"
proof -
  show "adds metric_fits (warnUnmonitorableOnce pod)" by (auto simp: adds_def warnUnmonitorableOnce_def)
  show "adds metric_fits (known_routes R wl names)" by (induction names) (auto intro!: adding)
  show "adds metric_fits (restart_failed wl k what e)" unfolding restart_failed_def by (intro adding) simp_all
  show "adds metric_fits (effective_windows R p cfg)" unfolding effective_windows_def by (intro adding) simp_all
qed

lemma fits_notify [adding]: "adds metric_fits (notify R t wl b now cfg)"
  unfolding notify_def by (intro adding)

lemma fits_captureProfile [adding]: "adds metric_fits (captureProfile R wl cfg b now st)"
  unfolding captureProfile_def by (auto intro!: adding split: option.split)

lemma fits_Dispatch [adding]: "adds metric_fits (Dispatch L A w now)"
  unfolding Dispatch_def by (intro adding) simp_all

lemma fits_scan_pods [adding]: "adds metric_fits (scan_pods R cfg now pods)"
proof -
  have "adds metric_fits (scan_pod R cfg now pod)" for pod
    unfolding scan_pod_def scan_owned_def by (intro adding)
  then show ?thesis by (induction pods) (auto intro!: adding)
qed

lemma fits_act [adding]: "adds metric_fits (act R wl cfg b now p k v)"
  unfolding act_def dry_run_restart_def real_restart_def dispatch_restart_def announce_restart_def
  by (intro adding; simp)

lemma fits_handle_breach [adding]: "adds metric_fits (handle_breach R wl cfg b now p k v)"
  unfolding handle_breach_def window_gate_def acquire_and_act_def defer_restart_def
  by (intro adding; simp)

lemma fits_Reconcile: "adds metric_fits (Reconcile R ns name)"
  unfolding Reconcile_def finalize_def add_finalizer_phase_def live_phase_def get_workload_phase_def workload_phase_def
    settle_phase_def detect_phase_def unsettled_phase_def complete_phase_def
  by (intro adding; simp)

section \<open>The sampler and the expirer\<close>

text \<open>The label tuples a tick collects have the lengths their gauges ask for.\<close>

definition tick_fits :: "tick \<Rightarrow> bool" where
  "tick_fits k \<longleftrightarrow> (\<forall>ls \<in> fst ` set (tk_monitored k). length ls = 3) \<and> (\<forall>ls \<in> fst ` set (tk_ignored k). length ls = 3)
     \<and> (\<forall>ls \<in> fst ` set (tk_policies k). length ls = 2)"

lemma bump_keys: "fst ` set (bump k n m) = insert k (fst ` set m)"
  by (simp add: bump_def dom_update image_set [symmetric] del: image_set)

lemma tick_fits_policy:
  "tick_fits k \<Longrightarrow> length ls = 2 \<Longrightarrow> tick_fits (k\<lparr>tk_policies := bump ls n (tk_policies k)\<rparr>)"
  by (auto simp: tick_fits_def bump_keys)

lemma tick_fits_pod:
  "tick_fits k \<Longrightarrow> length w = 3 \<Longrightarrow>
   tick_fits (k\<lparr>tk_live := l, tk_monitored := bump w 1 (tk_monitored k), tk_ignored := bump w d (tk_ignored k)\<rparr>)"
  by (auto simp: tick_fits_def bump_keys)

lemma sample_pods_fits:
  assumes w: "length wkey = 3"
  shows "tick_fits k \<Longrightarrow> yields (\<lambda>r. tick_fits (fst r)) (sample_pods byKey now cfg wkey pods k enqueue)"
proof (induction pods arbitrary: k enqueue)
  case (Cons pod pods)
  then show ?case using tick_fits_pod [OF Cons.prems w]
    by (auto intro!: yields_next Cons.IH split: prod.split)
qed (simp add: yields_ret)

lemma yields_case:
  "(\<And>e. r = Inl e \<Longrightarrow> yields Q (f e)) \<Longrightarrow> (\<And>x. r = Inr x \<Longrightarrow> yields Q (g x)) \<Longrightarrow>
   yields Q (case r of Inl e \<Rightarrow> f e | Inr x \<Rightarrow> g x)"
  "(b \<Longrightarrow> yields Q m) \<Longrightarrow> (\<not> b \<Longrightarrow> yields Q n) \<Longrightarrow> yields Q (if b then m else n)"
  by (cases r; simp)+

lemma sample_policy_fits:
  assumes "tick_fits k0"
  shows "yields tick_fits (sample_policy S byKey now p k0)"
proof -
  define k where "k = k0\<lparr>tk_policies := bump [p_Namespace p, bool_str (pc_DryRun (ResolvePolicy (sm_Defaults S) (p_Spec p)))] 1 (tk_policies k0)\<rparr>"
  have k: "tick_fits k" unfolding k_def by (rule tick_fits_policy [OF assms]) simp
  have pods: "yields tick_fits (do { r \<leftarrow> sample_pods byKey now cfg [p_Namespace p, x, y] pods k False; _ \<leftarrow> f r; ret (fst r) })"
    for cfg x y pods and f :: "tick \<times> bool \<Rightarrow> ('a, unit) op"
    by (rule yields_bind [OF sample_pods_fits [OF _ k]]) (auto intro: yields_next yields_ret)
  show ?thesis
    unfolding sample_policy_def Let_def k_def [symmetric]
    by (intro pods yields_case yields_next yields_ret k)
qed

lemma fits_set_gauges: "(\<And>ls n. ls \<in> fst ` set m \<Longrightarrow> metric_fits (EGauge g (ls @ x) n)) \<Longrightarrow> adds metric_fits (set_gauges g x m)"
  by (induction m) (auto intro!: adding)

text \<open>An operation that only adds such effects when the value it starts from is in order.\<close>

lemma fits_sample_policy: "adds metric_fits (sample_policy S byKey now p k)"
proof -
  have targets: "adds metric_fits (sample_targets byKey now pod ts live enqueue)" for pod ts live enqueue
    by (induction ts arbitrary: live enqueue) (auto simp: Let_def intro!: adding split: option.split)
  have pods: "adds metric_fits (sample_pods byKey now cfg wkey ps k enqueue)" for cfg wkey ps k enqueue
    by (induction ps arbitrary: k enqueue) (auto intro!: adding targets split: prod.split)
  show ?thesis unfolding sample_policy_def by (intro adding pods) simp_all
qed

lemma fits_sample_policies: "adds metric_fits (sample_policies S byKey now ps k)"
  by (induction ps arbitrary: k) (auto intro!: adding fits_sample_policy)

lemma sample_policies_fits: "tick_fits k \<Longrightarrow> yields tick_fits (sample_policies S byKey now ps k)"
  by (induction ps arbitrary: k) (auto intro!: yields_ret yields_bind [OF sample_policy_fits])

lemma fits_rewrite_gauges: "tick_fits k \<Longrightarrow> adds metric_fits (rewrite_gauges k)"
  unfolding rewrite_gauges_def by (intro adding fits_set_gauges) (auto simp: tick_fits_def)

lemma fits_sampleOnce:
  assumes "usage_source (sm_Source S)"
  shows "adds metric_fits (sampleOnce S)"
proof -
  have list: "adds metric_fits (listPolicies S)" by (rule keeps_Trace_adds [OF keeps_listPolicies(3)])
  have sample: "adds metric_fits (do { k \<leftarrow> sample_policies S byKey now ps \<lparr>tk_live = {||}, tk_ignored = [], tk_monitored = [],
      tk_policies = []\<rparr>; rewrite_gauges k; f k })" if "\<And>k. adds metric_fits (f k)" for byKey now ps f
    by (rule adds_bind_yields [OF fits_sample_policies sample_policies_fits])
       (auto simp: tick_fits_def intro!: adds_bind [OF fits_rewrite_gauges] that)
  show ?thesis
    unfolding sampleOnce_def
    by (intro adding list sample usage_source.usage_writes_nothing [OF assms]) simp_all
qed

lemma fits_expire_tick: "adds metric_fits (expire_tick E now)"
proof -
  have loop: "adds metric_fits (sweep_loop L A now timeout keys ps)" for L A timeout keys ps
    by (induction ps arbitrary: keys) (auto simp: classifyInFlight_def Let_def intro!: adding)
  have rel: "adds metric_fits (release_keys ks)" for ks by (induction ks) (auto intro!: adding)
  have set: "adds metric_fits set_inflight" unfolding set_inflight_def by (intro adding) simp
  show ?thesis
    unfolding expire_tick_def expire_slots_def sweep_slots_def SweepInFlight_def by (intro adding loop rel set) simp_all
qed

lemma preserves_adds: "adds P m \<Longrightarrow> preserves (\<lambda>s. list_all P (sy_Trace s)) m"
  by (rule preservesI, rule wp_mono [OF addsD]) auto

interpretation metrics: controller_invariant "\<lambda>C s. list_all metric_fits (sy_Trace s)"
proof
  fix C :: "'a controller"
  show "preserves (\<lambda>s. list_all metric_fits (sy_Trace s)) (sampleOnce (co_Sampler C))" if "contracted C"
    using that unfolding contracted_def by (intro preserves_adds fits_sampleOnce) simp
qed (simp_all add: boot_def preserves_adds fits_Reconcile fits_expire_tick)

end
