(* ===== verification/Ledger.thy ===== *)
theory Ledger
  imports Reconciler "HOL-Library.Sublist"
begin

text \<open>
  The durable bookkeeping of one policy over a whole run. The ledger is the part of the status the cooldown
  and the circuit breaker read. From the writes and the patches of a trace this theory says when the ledger
  was kept lawfully, and derives what that means for the times of the restarts.
\<close>

section \<open>The ledger\<close>

definition ledger :: "policy_status \<Rightarrow> string \<times> time option \<times> int \<times> time option \<times> string" where
  "ledger st = (st_WorkloadUID st, st_LastRestartAt st, st_RestartCount st, st_WindowStart st, st_Version st)"

lemma ledger_eq_iff:
  "ledger a = ledger b \<longleftrightarrow> st_WorkloadUID a = st_WorkloadUID b \<and> st_LastRestartAt a = st_LastRestartAt b
     \<and> st_RestartCount a = st_RestartCount b \<and> st_WindowStart a = st_WindowStart b \<and> st_Version a = st_Version b"
  by (simp add: ledger_def)

text \<open>The gates and the two operations that change the ledger depend on the ledger alone.\<close>

lemma ledger_gates:
  assumes "ledger a = ledger b"
  shows "InCooldown a now cd = InCooldown b now cd" "BreakerTripped a v now win mx = BreakerTripped b v now win mx"
    "sameWindow a v now win = sameWindow b v now win"
proof -
  have eq: "st_LastRestartAt a = st_LastRestartAt b" "st_RestartCount a = st_RestartCount b"
    "st_WindowStart a = st_WindowStart b" "st_Version a = st_Version b"
    using assms by (simp_all add: ledger_eq_iff)
  show same: "sameWindow a v now win = sameWindow b v now win"
    by (cases "st_WindowStart b") (simp_all add: sameWindow_def eq)
  show "InCooldown a now cd = InCooldown b now cd" by (simp add: InCooldown_def eq)
  show "BreakerTripped a v now win mx = BreakerTripped b v now win mx" by (simp add: BreakerTripped_def same)
qed

lemma ledger_ApplyRestart:
  assumes "ledger a = ledger b" "TemplateVersion L w = TemplateVersion L w'"
  shows "ledger (ApplyRestart L a w c now win) = ledger (ApplyRestart L b w' c' now win)"
  using assms ledger_gates(3) [OF assms(1)] by (simp add: ledger_eq_iff ApplyRestart_fields)

lemma ledger_AdoptWorkload: "ledger a = ledger b \<Longrightarrow> ledger (AdoptWorkload a u) = ledger (AdoptWorkload b u)"
  by (simp add: ledger_eq_iff AdoptWorkload_def Let_def)

lemma ledger_AdoptWorkload_same: "st_WorkloadUID a = u \<Longrightarrow> ledger (AdoptWorkload a u) = ledger a"
  by (simp add: ledger_eq_iff AdoptWorkload_def)

lemma AdoptWorkload_UID [simp]: "st_WorkloadUID (AdoptWorkload a u) = u"
  by (simp add: AdoptWorkload_def Let_def)

lemma ledger_RecomputeObservability [simp]: "ledger (RecomputeObservability st now cd win mx) = ledger st"
  by (auto simp: ledger_def RecomputeObservability_def Let_def split: option.split prod.split)

lemma ledger_CompleteInFlight [simp]: "ledger (CompleteInFlight L st now out) = ledger st"
  by (simp add: ledger_eq_iff CompleteInFlight_fields)

lemma ledger_updates [simp]:
  "ledger (st\<lparr>st_DryRun := d\<rparr>) = ledger st" "ledger (st\<lparr>st_LastProfile := lp\<rparr>) = ledger st"
  "ledger (st\<lparr>st_LastNotification := nr\<rparr>) = ledger st"
  by (simp_all add: ledger_def)

text \<open>What the server keeps of a ledger depends on the ledger alone, and it keeps all of what it gave.\<close>

lemma ledger_stored: "ledger a = ledger b \<Longrightarrow> ledger (stored gr a) = ledger (stored gr b)"
  by (simp add: ledger_eq_iff)

definition coarse :: "duration \<Rightarrow> policy_status \<Rightarrow> bool" where
  "coarse gr st \<longleftrightarrow> ledger (stored gr st) = ledger st"

lemma coarse_stored [simp]: "coarse gr (stored gr st)"
  by (simp add: coarse_def ledger_eq_iff option.map_comp comp_def)

lemma coarse_ledger: "ledger a = ledger b \<Longrightarrow> coarse gr a = coarse gr b"
  using ledger_stored [of a b gr] by (simp add: coarse_def)

lemma coarse_times:
  "coarse gr st \<Longrightarrow> st_LastRestartAt st = Some t \<Longrightarrow> to_grain gr t = t" "coarse gr st \<Longrightarrow> st_WindowStart st = Some s \<Longrightarrow> to_grain gr s = s"
  by (auto simp: coarse_def ledger_eq_iff)

lemma coarse_AdoptWorkload: "coarse gr st \<Longrightarrow> coarse gr (AdoptWorkload st u)"
  by (auto simp: coarse_def ledger_eq_iff AdoptWorkload_def Let_def)

lemma coarse_1 [simp]: "coarse 1 st"
  by (simp add: coarse_def ledger_eq_iff option.map_ident_strong)

section \<open>Lawful steps\<close>

text \<open>
  A write keeps the ledger or adopts a workload; or it records a restart that neither the cooldown nor the
  breaker stopped, under a configuration of the set \<open>G\<close>.
\<close>

definition adopts :: "policy_status \<Rightarrow> policy_status \<Rightarrow> bool" where
  "adopts old new \<longleftrightarrow> ledger new = ledger (AdoptWorkload old (st_WorkloadUID new))"

definition restarts :: "lib \<Rightarrow> pod_config set \<Rightarrow> policy_status \<Rightarrow> policy_status \<Rightarrow> bool" where
  "restarts L G old new \<longleftrightarrow> (\<exists>cfg \<in> G. \<exists>w c now. \<not> InCooldown old now (pc_Cooldown cfg)
     \<and> \<not> BreakerTripped old (TemplateVersion L w) now (pc_RestartWindow cfg) (pc_MaxRestartsPerWindow cfg)
     \<and> ledger new = ledger (ApplyRestart L old w c now (pc_RestartWindow cfg)))"

lemma adopts_same: "ledger new = ledger old \<Longrightarrow> adopts old new"
  by (simp add: adopts_def ledger_AdoptWorkload_same ledger_eq_iff)

lemma adopts_cong: "ledger old = ledger old' \<Longrightarrow> adopts old new = adopts old' new"
  unfolding adopts_def by (metis ledger_AdoptWorkload)

lemma adopts_coarse: "adopts old new \<Longrightarrow> coarse gr old \<Longrightarrow> coarse gr new"
  unfolding adopts_def using coarse_AdoptWorkload coarse_ledger by blast

lemma restarts_cong: "ledger old = ledger old' \<Longrightarrow> restarts L G old new = restarts L G old' new"
proof -
  assume e: "ledger old = ledger old'"
  have "ledger (ApplyRestart L old w c now win) = ledger (ApplyRestart L old' w c now win)" for w c now win
    by (rule ledger_ApplyRestart [OF e refl])
  then show ?thesis by (simp add: restarts_def ledger_gates(1,2) [OF e])
qed

text \<open>The writes and the patches of a trace, newest first.\<close>

definition deed :: "effect \<Rightarrow> bool" where
  "deed e \<longleftrightarrow> (case e of EUpdateStatus q ok \<Rightarrow> ok | EPatch x y ok \<Rightarrow> True | _ \<Rightarrow> False)"

lemma deed_simps [simp]:
  "deed (EUpdateStatus q ok) = ok" "deed (EPatch x y b)" "\<not> deed (EUpdatePolicy p ok)" "\<not> deed (EEvent r x1 x2 x3 x4)"
  "\<not> deed (ECounter m ls)" "\<not> deed (EGauge m ls n)" "\<not> deed (EGaugeReset m)" "\<not> deed (ELog l)"
  "\<not> deed (EHTTP h)" "\<not> deed (EStore k j)" "\<not> deed (EEnqueue x1 x2)"
  by (simp_all add: deed_def)

definition deeds :: "effect list \<Rightarrow> effect list" where
  "deeds es = filter deed es"

lemma deeds_append: "deeds (es @ fs) = deeds es @ deeds fs"
  by (simp add: deeds_def)

text \<open>With them the status writes the server refused.\<close>

definition attempt :: "effect \<Rightarrow> bool" where
  "attempt e \<longleftrightarrow> (case e of EUpdateStatus q ok \<Rightarrow> True | EPatch x y ok \<Rightarrow> True | _ \<Rightarrow> False)"

lemma attempt_simps [simp]:
  "attempt (EUpdateStatus q ok)" "attempt (EPatch x y b)" "\<not> attempt (EUpdatePolicy p ok)" "\<not> attempt (EEvent r x1 x2 x3 x4)"
  "\<not> attempt (ECounter m ls)" "\<not> attempt (EGauge m ls n)" "\<not> attempt (EGaugeReset m)" "\<not> attempt (ELog l)"
  "\<not> attempt (EHTTP h)" "\<not> attempt (EStore k j)" "\<not> attempt (EEnqueue x1 x2)"
  by (simp_all add: attempt_def)

definition attempts :: "effect list \<Rightarrow> effect list" where
  "attempts es = filter attempt es"

lemma attempts_append: "attempts (es @ fs) = attempts es @ attempts fs"
  by (simp add: attempts_def)

lemma deeds_attempts: "deeds (attempts es) = deeds es"
  by (induction es) (auto simp: deeds_def attempts_def attempt_def deed_def split: effect.splits)

lemma deeds_eq: "attempts es = attempts fs \<Longrightarrow> deeds es = deeds fs"
  by (metis deeds_attempts)

text \<open>
  A status write of the policy was refused, and then the same status written all the same: what the retry of a
  conflicting write does. Traces have the newest effect first.
\<close>

definition retried :: "string \<Rightarrow> string \<Rightarrow> effect list \<Rightarrow> bool" where
  "retried ns n es \<longleftrightarrow> (\<exists>post q p pre. es = post @ EUpdateStatus q True # EUpdateStatus p False # pre
     \<and> of_policy ns n p \<and> of_policy ns n q \<and> p_Status q = p_Status p)"

lemma retried_append: "retried ns n es \<Longrightarrow> retried ns n (fs @ es)"
  unfolding retried_def by (metis append.assoc)

text \<open>The status the server has of the policy after the writes, \<open>st\<close> before the first.\<close>

fun held :: "duration \<Rightarrow> string \<Rightarrow> string \<Rightarrow> policy_status \<Rightarrow> effect list \<Rightarrow> policy_status" where
  "held gr ns n st [] = st"
| "held gr ns n st (EUpdateStatus q True # es) = (if of_policy ns n q then stored gr (p_Status q) else held gr ns n st es)"
| "held gr ns n st (e # es) = held gr ns n st es"

lemma held_coarse: "coarse gr st \<Longrightarrow> coarse gr (held gr ns n st es)"
  by (induction gr ns n st es rule: held.induct) auto

text \<open>Every write is a lawful step, and every patch comes right after the write of its restart.\<close>

fun lawful :: "duration \<Rightarrow> lib \<Rightarrow> pod_config set \<Rightarrow> string \<Rightarrow> string \<Rightarrow> policy_status \<Rightarrow> effect list \<Rightarrow> bool" where
  "lawful gr L G ns n st [] = True"
| "lawful gr L G ns n st (EUpdateStatus q True # es) =
     ((of_policy ns n q \<longrightarrow> adopts (held gr ns n st es) (p_Status q) \<or> restarts L G (held gr ns n st es) (p_Status q))
      \<and> lawful gr L G ns n st es)"
| "lawful gr L G ns n st (EPatch x y ok # es) =
     ((case es of EUpdateStatus q True # es' \<Rightarrow> of_policy ns n q \<longrightarrow> restarts L G (held gr ns n st es') (p_Status q)
       | _ \<Rightarrow> False) \<and> lawful gr L G ns n st es)"
| "lawful gr L G ns n st (e # es) = lawful gr L G ns n st es"

lemma lawful_suffix: "lawful gr L G ns n st (es @ fs) \<Longrightarrow> lawful gr L G ns n st fs"
proof (induction es)
  case (Cons e es)
  have "lawful gr L G ns n st (e # gs) \<Longrightarrow> lawful gr L G ns n st gs" for gs
    by (cases "(gr, L, G, ns, n, st, e # gs)" rule: lawful.cases) auto
  with Cons show ?case by simp
qed simp

section \<open>The cooldown over a run\<close>

text \<open>While the workload keeps its UID, the time of the last restart only grows, by the cooldown at least.\<close>

lemma restarts_spaced:
  assumes "restarts L G old new" and "\<And>cfg. cfg \<in> G \<Longrightarrow> cd \<le> pc_Cooldown cfg" and "0 < cd" "cd \<le> maxDuration"
  shows "\<exists>t. st_LastRestartAt new = Some t \<and> (\<forall>u. st_LastRestartAt old = Some u \<longrightarrow> u + cd \<le> t)"
proof -
  obtain cfg w c now where G: "cfg \<in> G" and n: "\<not> InCooldown old now (pc_Cooldown cfg)"
    and l: "ledger new = ledger (ApplyRestart L old w c now (pc_RestartWindow cfg))"
    using assms(1) unfolding restarts_def by blast
  have "st_LastRestartAt new = Some now" using l by (simp add: ledger_eq_iff ApplyRestart_fields)
  moreover have "u + cd \<le> now" if "st_LastRestartAt old = Some u" for u
    using n that assms(2) [OF G] time_Sub_less_iff [of cd now u] assms(3,4)
    by (simp add: InCooldown_def minDuration_def)
  ultimately show ?thesis by blast
qed

lemma adopts_UID: "adopts old new \<Longrightarrow> st_WorkloadUID new = st_WorkloadUID old \<Longrightarrow> ledger new = ledger old"
  by (metis adopts_def ledger_AdoptWorkload_same)

lemma restarts_UID: "restarts L G old new \<Longrightarrow> st_WorkloadUID new = st_WorkloadUID old"
  by (auto simp: restarts_def ledger_eq_iff ApplyRestart_fields)

text \<open>The writes of \<open>es\<close> all carry the UID \<open>u\<close>.\<close>

definition one_UID :: "string \<Rightarrow> string \<Rightarrow> string \<Rightarrow> effect list \<Rightarrow> bool" where
  "one_UID ns n u es \<longleftrightarrow> (\<forall>q. EUpdateStatus q True \<in> set es \<longrightarrow> of_policy ns n q \<longrightarrow> st_WorkloadUID (p_Status q) = u)"

section \<open>The times of the restarts\<close>

text \<open>
  The times of the restarts that were dispatched, oldest first: for each patch the start of the cooldown in
  the write just before it. The times of all recorded restarts include those whose dispatch failed.
\<close>

definition time_of :: "policy_status \<Rightarrow> time list" where
  "time_of st = (case st_LastRestartAt st of None \<Rightarrow> [] | Some t \<Rightarrow> [t])"

fun patch_times :: "string \<Rightarrow> string \<Rightarrow> effect list \<Rightarrow> time list" where
  "patch_times ns n [] = []"
| "patch_times ns n (e # es) = patch_times ns n es @ (case e of
       EPatch x y ok \<Rightarrow> (case es of EUpdateStatus q True # _ \<Rightarrow> if of_policy ns n q then time_of (p_Status q) else [] | _ \<Rightarrow> [])
     | _ \<Rightarrow> [])"

fun restart_times :: "duration \<Rightarrow> string \<Rightarrow> string \<Rightarrow> policy_status \<Rightarrow> effect list \<Rightarrow> time list" where
  "restart_times gr ns n st [] = []"
| "restart_times gr ns n st (e # es) = restart_times gr ns n st es @ (case e of
       EUpdateStatus q ok \<Rightarrow> if ok \<and> of_policy ns n q \<and> st_LastRestartAt (p_Status q) \<noteq> st_LastRestartAt (held gr ns n st es)
                             then time_of (p_Status q) else []
     | _ \<Rightarrow> [])"

lemma held_append: "held gr ns n st (es @ fs) = held gr ns n (held gr ns n st fs) es"
proof (induction es)
  case (Cons e es)
  then show ?case by (cases "(gr, ns, n, st, e # es)" rule: held.cases) auto
qed simp

text \<open>While the workload keeps its UID, the recorded restarts are spaced by the cooldown.\<close>

lemma restart_times_spaced:
  assumes "lawful gr L G ns n st (es @ fs)" "one_UID ns n u es"
    and "\<And>cfg. cfg \<in> G \<Longrightarrow> cd \<le> pc_Cooldown cfg" and "0 < cd" "cd \<le> maxDuration"
    and gr: "0 < gr" "coarse gr st"
  defines "start \<equiv> held gr ns n st fs"
  shows "sorted_wrt (\<lambda>x y. x + cd < y + gr) (restart_times gr ns n start es)
    \<and> (\<forall>t \<in> set (restart_times gr ns n start es). \<exists>t'. st_LastRestartAt (held gr ns n start es) = Some t' \<and> to_grain gr t \<le> t'
        \<and> st_WorkloadUID (held gr ns n start es) = u)"
  using assms(1,2)
proof (induction es)
  case (Cons e es)
  let ?ts = "restart_times gr ns n start es" and ?h = "held gr ns n start es"
  have tail: "lawful gr L G ns n st (es @ fs)" "one_UID ns n u es"
    using Cons.prems lawful_suffix [of gr L G ns n st "[e]" "es @ fs"] by (simp_all add: one_UID_def)
  note IH = Cons.IH [OF tail]
  have low: "coarse gr ?h" unfolding start_def by (intro held_coarse gr(2))
  show ?case
  proof (cases "\<exists>q. e = EUpdateStatus q True \<and> of_policy ns n q")
    case True
    then obtain q where e: "e = EUpdateStatus q True" "of_policy ns n q" by blast
    then have q: "st_WorkloadUID (p_Status q) = u" using Cons.prems(2) by (simp add: one_UID_def)
    have "adopts ?h (p_Status q) \<or> restarts L G ?h (p_Status q)"
      using Cons.prems(1) e by (simp add: held_append start_def)
    then show ?thesis
    proof
      assume a: "adopts ?h (p_Status q)"
      show ?thesis
      proof (cases "st_WorkloadUID ?h = u")
        case True
        then have l: "ledger (p_Status q) = ledger ?h" using adopts_UID [OF a] q by simp
        then have "st_LastRestartAt (stored gr (p_Status q)) = st_LastRestartAt ?h"
          using low ledger_stored [OF l, of gr] by (simp add: coarse_def ledger_eq_iff)
        then show ?thesis using IH e q l by (auto simp: ledger_eq_iff)
      next
        case False
        then have "?ts = []" using IH by (cases ?ts) auto
        then show ?thesis using e q by (auto simp: time_of_def split: option.splits)
      qed
    next
      assume r: "restarts L G ?h (p_Status q)"
      from restarts_spaced [OF r assms(3-5)] obtain t where t: "st_LastRestartAt (p_Status q) = Some t"
        and later: "\<And>u. st_LastRestartAt ?h = Some u \<Longrightarrow> u + cd \<le> t" by blast
      have after: "x + cd < t + gr \<and> to_grain gr x \<le> to_grain gr t" if "x \<in> set ?ts" for x
      proof -
        obtain t' where t': "st_LastRestartAt ?h = Some t'" "to_grain gr x \<le> t'" using IH \<open>x \<in> set ?ts\<close> by blast
        then have "to_grain gr x \<le> t" "to_grain gr x + cd \<le> t" using later [OF t'(1)] assms(4) by simp_all
        then show ?thesis
          using to_grain_bounds(2) [OF gr(1), of x] to_grain_le [OF gr(1), of "to_grain gr x" t] by simp
      qed
      then show ?thesis using IH e q t by (auto simp: sorted_wrt_append time_of_def)
    qed
  next
    case False
    then have "held gr ns n start (e # es) = ?h" "restart_times gr ns n start (e # es) = ?ts"
      by (cases "(gr, ns, n, st, e # es)" rule: held.cases; auto)+
    then show ?thesis using IH by simp
  qed
qed simp

text \<open>And they come as long after the last restart of the workload before the stretch.\<close>

lemma restart_times_start:
  assumes "lawful gr L G ns n st (es @ fs)" "one_UID ns n u es"
    and start: "st_WorkloadUID (held gr ns n st fs) = u" "st_LastRestartAt (held gr ns n st fs) = Some x"
    and "\<And>cfg. cfg \<in> G \<Longrightarrow> cd \<le> pc_Cooldown cfg" and "0 < cd" "cd \<le> maxDuration"
    and gr: "0 < gr" "coarse gr st"
  shows "(\<forall>y \<in> set (restart_times gr ns n (held gr ns n st fs) es). x + cd \<le> y)
    \<and> st_WorkloadUID (held gr ns n (held gr ns n st fs) es) = u
    \<and> (\<exists>x'. st_LastRestartAt (held gr ns n (held gr ns n st fs) es) = Some x' \<and> x \<le> x')"
  using assms(1,2)
proof (induction es)
  case (Cons e es)
  let ?st = "held gr ns n st fs" and ?h = "held gr ns n (held gr ns n st fs) es"
  have IH: "(\<forall>y \<in> set (restart_times gr ns n ?st es). x + cd \<le> y) \<and> st_WorkloadUID ?h = u
    \<and> (\<exists>x'. st_LastRestartAt ?h = Some x' \<and> x \<le> x')"
    using Cons.IH Cons.prems lawful_suffix [of gr L G ns n st "[e]" "es @ fs"] by (simp add: one_UID_def)
  have low: "coarse gr ?h" by (intro held_coarse gr(2))
  show ?case
  proof (cases "\<exists>q. e = EUpdateStatus q True \<and> of_policy ns n q")
    case True
    then obtain q where e: "e = EUpdateStatus q True" "of_policy ns n q" by blast
    then have q: "st_WorkloadUID (p_Status q) = u" using Cons.prems(2) by (simp add: one_UID_def)
    have "adopts ?h (p_Status q) \<or> restarts L G ?h (p_Status q)"
      using Cons.prems(1) e by (simp add: held_append)
    then show ?thesis
    proof
      assume "adopts ?h (p_Status q)"
      then have l: "ledger (p_Status q) = ledger ?h" using adopts_UID q IH by metis
      then have "st_LastRestartAt (stored gr (p_Status q)) = st_LastRestartAt ?h"
        using low ledger_stored [OF l, of gr] by (simp add: coarse_def ledger_eq_iff)
      then show ?thesis using IH e q l by (auto simp: ledger_eq_iff)
    next
      assume r: "restarts L G ?h (p_Status q)"
      from restarts_spaced [OF r assms(5-7)] obtain t where t: "st_LastRestartAt (p_Status q) = Some t"
        and later: "\<And>u. st_LastRestartAt ?h = Some u \<Longrightarrow> u + cd \<le> t" by blast
      obtain x' where x': "st_LastRestartAt ?h = Some x'" "x \<le> x'" using IH by blast
      have "x + cd \<le> t" "x \<le> to_grain gr t"
        using later [OF x'(1)] x'(2) assms(6) to_grain_le [OF gr(1), of x t] coarse_times(1) [OF held_coarse [OF gr(2)] start(2)]
        by simp_all
      then show ?thesis using IH e q t by (auto simp: time_of_def)
    qed
  next
    case False
    then have "held gr ns n ?st (e # es) = ?h" "restart_times gr ns n ?st (e # es) = restart_times gr ns n ?st es"
      by (cases "(gr, ns, n, st, e # es)" rule: held.cases; auto)+
    then show ?thesis using IH by simp
  qed
qed (use start in auto)

text \<open>A dispatched restart is a recorded one.\<close>

lemma patch_times_other:
  assumes "\<nexists>x y ok q. e = EPatch x y ok \<and> d = EUpdateStatus q True \<and> of_policy ns n q"
  shows "patch_times ns n (e # d # es) = patch_times ns n (d # es)"
proof -
  have "patch_times ns n (e # d # es) = patch_times ns n (d # es) @ []" if "\<nexists>x y ok. e = EPatch x y ok"
    using that by (cases e) simp_all
  moreover have "patch_times ns n (e # d # es) = patch_times ns n (d # es)" if "e = EPatch x y ok" for x y ok
    using that assms by (cases d) (auto split: bool.split)
  ultimately show ?thesis by force
qed

lemma patch_times_restarts:
  assumes "lawful gr L G ns n st (es @ fs)"
    and "\<And>cfg. cfg \<in> G \<Longrightarrow> cd \<le> pc_Cooldown cfg" and "0 < cd" "cd \<le> maxDuration"
  shows "subseq (patch_times ns n es) (restart_times gr ns n (held gr ns n st fs) es)"
  using assms(1)
proof (induction es rule: induct_list012)
  case (3 e d es)
  let ?st = "held gr ns n st fs" and ?old = "held gr ns n (held gr ns n st fs) es"
  have tail: "lawful gr L G ns n st (d # es @ fs)" "lawful gr L G ns n st (es @ fs)"
    using "3.prems" lawful_suffix [of gr L G ns n st "[e]" "d # es @ fs"] lawful_suffix [of gr L G ns n st "[e, d]" "es @ fs"]
    by (simp_all del: lawful.simps)
  show ?case
  proof (cases "\<exists>x y ok q. e = EPatch x y ok \<and> d = EUpdateStatus q True \<and> of_policy ns n q")
    case True
    then obtain x y ok q where e: "e = EPatch x y ok" "d = EUpdateStatus q True" "of_policy ns n q" by blast
    then have "restarts L G ?old (p_Status q)" using "3.prems" by (simp add: held_append)
    from restarts_spaced [OF this assms(2-4)] have "time_of (p_Status q) \<noteq> []" "st_LastRestartAt (p_Status q) \<noteq> st_LastRestartAt ?old"
      using assms(3) by (auto simp: time_of_def)
    then show ?thesis using "3.IH"(1) [OF tail(2)] e by simp
  next
    case False
    then have "patch_times ns n (e # d # es) = patch_times ns n (d # es)" by (rule patch_times_other)
    moreover have "subseq (patch_times ns n (d # es)) (restart_times gr ns n ?st (d # es))" using "3.IH"(2) tail(1) by simp
    moreover have "subseq (restart_times gr ns n ?st (d # es)) (restart_times gr ns n ?st (e # d # es))"
      unfolding restart_times.simps(2) [of gr ns n ?st e] by (rule subseq_rev_drop_many) simp
    ultimately show ?thesis by (metis subseq_order.order_trans)
  qed
qed (simp_all split: effect.split)

section \<open>The breaker over a run\<close>

lemma breaker_run_snoc:
  "breaker_run gr L w c cd win mx st (ts @ [t]) = breaker_run gr L w c cd win mx st ts @
     (let st' = foldl (\<lambda>st now. stored gr (ApplyRestart L st w c now win)) st (breaker_run gr L w c cd win mx st ts)
      in if InCooldown st' t cd \<or> BreakerTripped st' (TemplateVersion L w) t win mx then [] else [t])"
  by (induction ts arbitrary: st) (simp_all add: Let_def)

lemma BreakerTripped_mono:
  "\<not> BreakerTripped st v now win m \<Longrightarrow> 0 < m \<Longrightarrow> m \<le> mx \<Longrightarrow> \<not> BreakerTripped st v now win mx"
  by (auto simp: BreakerTripped_def split: prod.splits)

lemma InCooldown_mono: "\<not> InCooldown st now d \<Longrightarrow> cd \<le> d \<Longrightarrow> \<not> InCooldown st now cd"
  by (auto simp: InCooldown_def split: option.splits)

text \<open>The writes of \<open>es\<close> that stand after a restart carry the template version \<open>v\<close>.\<close>

definition one_version :: "string \<Rightarrow> string \<Rightarrow> string \<Rightarrow> effect list \<Rightarrow> bool" where
  "one_version ns n v es \<longleftrightarrow> (\<forall>q. EUpdateStatus q True \<in> set es \<longrightarrow> of_policy ns n q \<longrightarrow>
     st_LastRestartAt (p_Status q) = None \<or> st_Version (p_Status q) = v)"

text \<open>The recorded restarts are those the breaker lets through when it is asked at their times.\<close>

lemma restart_times_breaker:
  fixes w :: workload and start :: policy_status
  assumes "lawful gr L G ns n st (es @ fs)" "one_UID ns n u es" "one_version ns n (TemplateVersion L w) es"
    and start: "start = held gr ns n st fs" "st_WorkloadUID start = u"
    and G: "\<And>cfg. cfg \<in> G \<Longrightarrow> cd \<le> pc_Cooldown cfg \<and> pc_RestartWindow cfg = win
        \<and> 0 < pc_MaxRestartsPerWindow cfg \<and> pc_MaxRestartsPerWindow cfg \<le> mx"
    and cd: "0 < cd" "cd \<le> maxDuration" and gr: "0 < gr" "coarse gr st"
  shows "breaker_run gr L w c cd win mx start (restart_times gr ns n start es) = restart_times gr ns n start es
    \<and> ledger (foldl (\<lambda>st now. stored gr (ApplyRestart L st w c now win)) start (restart_times gr ns n start es)) = ledger (held gr ns n start es)
    \<and> st_WorkloadUID (held gr ns n start es) = u"
  using assms(1-3)
proof (induction es)
  case (Cons e es)
  let ?ts = "restart_times gr ns n start es" and ?h = "held gr ns n start es"
  have tail: "lawful gr L G ns n st (es @ fs)" "one_UID ns n u es" "one_version ns n (TemplateVersion L w) es"
    using Cons.prems lawful_suffix [of gr L G ns n st "[e]" "es @ fs"] by (simp_all add: one_UID_def one_version_def)
  note IH = Cons.IH [OF tail]
  show ?case
  proof (cases "\<exists>q. e = EUpdateStatus q True \<and> of_policy ns n q")
    case True
    then obtain q where e: "e = EUpdateStatus q True" "of_policy ns n q" by blast
    then have q: "st_WorkloadUID (p_Status q) = u" using Cons.prems(2) by (simp add: one_UID_def)
    have "adopts ?h (p_Status q) \<or> restarts L G ?h (p_Status q)"
      using Cons.prems(1) e by (simp add: held_append start(1))
    then show ?thesis
    proof
      assume "adopts ?h (p_Status q)"
      then have l: "ledger (p_Status q) = ledger ?h" using adopts_UID q IH by metis
      have "coarse gr ?h" unfolding start(1) by (intro held_coarse gr(2))
      then have "ledger (stored gr (p_Status q)) = ledger ?h" using ledger_stored [OF l, of gr] by (simp add: coarse_def)
      then show ?thesis using IH e q l by (simp add: ledger_eq_iff)
    next
      assume r: "restarts L G ?h (p_Status q)"
      then obtain cfg w' c' now where cfg: "cfg \<in> G" and gates: "\<not> InCooldown ?h now (pc_Cooldown cfg)"
        "\<not> BreakerTripped ?h (TemplateVersion L w') now (pc_RestartWindow cfg) (pc_MaxRestartsPerWindow cfg)"
        and l: "ledger (p_Status q) = ledger (ApplyRestart L ?h w' c' now (pc_RestartWindow cfg))"
        unfolding restarts_def by blast
      have now: "st_LastRestartAt (p_Status q) = Some now" "st_Version (p_Status q) = TemplateVersion L w'"
        using l by (simp_all add: ledger_eq_iff ApplyRestart_fields)
      then have v: "TemplateVersion L w' = TemplateVersion L w" using Cons.prems(3) e by (auto simp: one_version_def)
      let ?f = "foldl (\<lambda>st now. stored gr (ApplyRestart L st w c now win)) start ?ts"
      have f: "ledger ?f = ledger ?h" using IH by blast
      have open_gates: "\<not> InCooldown ?f now cd" "\<not> BreakerTripped ?f (TemplateVersion L w) now win mx"
        using InCooldown_mono [OF gates(1)] BreakerTripped_mono [OF gates(2)] G [OF cfg] v
        by (simp_all add: ledger_gates [OF f])
      have "st_LastRestartAt (p_Status q) \<noteq> st_LastRestartAt ?h"
      proof -
        obtain t where "st_LastRestartAt (p_Status q) = Some t" "\<forall>u. st_LastRestartAt ?h = Some u \<longrightarrow> u + cd \<le> t"
          using restarts_spaced [OF r _ cd] G by blast
        then show ?thesis using cd(1) by fastforce
      qed
      then have ts: "restart_times gr ns n start (e # es) = ?ts @ [now]" using e now by (simp add: time_of_def)
      have "ledger (ApplyRestart L ?f w c now win) = ledger (ApplyRestart L ?h w' c' now win)"
        by (rule ledger_ApplyRestart [OF f v [symmetric]])
      then have "ledger (stored gr (ApplyRestart L ?f w c now win)) = ledger (stored gr (p_Status q))"
        using l G [OF cfg] by (intro ledger_stored) simp
      then show ?thesis
        unfolding ts breaker_run_snoc using IH open_gates e q by simp
    qed
  next
    case False
    then have "held gr ns n start (e # es) = ?h" "restart_times gr ns n start (e # es) = ?ts"
      by (cases "(gr, ns, n, st, e # es)" rule: held.cases; auto)+
    then show ?thesis using IH by simp
  qed
qed (simp add: start(2))

text \<open>So the bound of the breaker holds for the restarts of a stretch with one UID and one template.\<close>

lemma patch_times_bounded:
  assumes "lawful gr L G ns n st (es @ fs)" "one_UID ns n u es" "one_version ns n (TemplateVersion L w) es"
    and "st_WorkloadUID (held gr ns n st fs) = u" "st_WindowStart (held gr ns n st fs) = None" "0 \<le> st_RestartCount (held gr ns n st fs)"
    and "\<And>cfg. cfg \<in> G \<Longrightarrow> cd \<le> pc_Cooldown cfg \<and> pc_RestartWindow cfg = win
        \<and> 0 < pc_MaxRestartsPerWindow cfg \<and> pc_MaxRestartsPerWindow cfg \<le> mx"
    and "0 < cd" "cd \<le> maxDuration" "0 < win" "win \<le> maxDuration" "0 < mx" "mx < 2 ^ 63"
    and gr: "0 < gr" "coarse gr st" "gr \<le> cd" "gr \<le> win"
  shows "int (length (filter (\<lambda>t. a \<le> t \<and> t + gr \<le> a + win) (patch_times ns n es))) \<le> 2 * mx - 1"
proof -
  let ?st = "held gr ns n st fs" and ?in = "\<lambda>t. a \<le> t \<and> t + gr \<le> a + win"
  let ?ts = "restart_times gr ns n ?st es"
  have G: "cd \<le> pc_Cooldown cfg" if "cfg \<in> G" for cfg using assms(7) that by blast
  have run: "breaker_run gr L w undefined cd win mx ?st ?ts = ?ts"
    using restart_times_breaker [OF assms(1-3) refl assms(4,7-9) gr(1,2)] by blast
  have "sorted_wrt (\<lambda>x y. x + cd < y + gr) ?ts" using restart_times_spaced [OF assms(1,2) G assms(8,9) gr(1,2)] by blast
  then have sorted: "sorted ?ts" by (rule sorted_wrt_mono_rel [rotated]) (use gr(3) in linarith)
  obtain ws where ws: "?ts = concat ws" "chunks_ok gr win (nat mx) ws"
    using breaker_run_chunks [OF assms(10-13) gr(1,4) sorted, of ?st L w undefined cd] run assms(5,6) by auto
  have "subseq (patch_times ns n es) ?ts" by (rule patch_times_restarts [OF assms(1) _ assms(8,9)]) (rule G)
  then have "length (filter ?in (patch_times ns n es)) \<le> length (filter ?in ?ts)"
    by (rule list_emb_length [OF subseq_filter])
  moreover have "length (filter ?in ?ts) \<le> 2 * nat mx - 1"
    unfolding ws(1) by (rule chunks_interval [OF ws(2) gr(1,4)]) (use assms(12) in simp)
  ultimately show ?thesis using assms(12) by linarith
qed

text \<open>And the dispatched restarts are spaced by the cooldown.\<close>

lemma sorted_wrt_subseq: "subseq xs ys \<Longrightarrow> sorted_wrt P ys \<Longrightarrow> sorted_wrt P xs"
  by (induction rule: list_emb.induct) (auto dest: list_emb_set)

lemma patch_times_spaced:
  assumes "lawful gr L G ns n st (es @ fs)" "one_UID ns n u es"
    and "\<And>cfg. cfg \<in> G \<Longrightarrow> cd \<le> pc_Cooldown cfg" and "0 < cd" "cd \<le> maxDuration" and "0 < gr" "coarse gr st"
  shows "sorted_wrt (\<lambda>x y. x + cd < y + gr) (patch_times ns n es)"
  using patch_times_restarts [OF assms(1,3-5)] restart_times_spaced [OF assms] by (blast intro: sorted_wrt_subseq)

end
