(* ===== verification/Durable.thy ===== *)
theory Durable
  imports Controller Ledger
begin

text \<open>
  The cooldown and the circuit breaker of the running controller. Their bookkeeping lives in the policy
  status, so what they promise over a run, across requeues, sweeps and changes of leader, rests on the API
  server: on a server that keeps a policy's status as the controller wrote it and refuses writes of outdated objects,
  every step of every run keeps the ledger of the policy lawfully, as long as no conflict is forced while reads lag.
\<close>

section \<open>A server that keeps the status\<close>

text \<open>
  \<open>recall\<close> is the status the server has stored for the policy \<open>ns/n\<close>. Reads give it back, a successful
  write of the status subresource replaces it, its times kept to the grain \<open>gr\<close>, and returns the object with it, a
  failed one does not, and no other call touches it. That rules out reads from a cache that lags behind, which the
  contract after this one allows, and other writers of the status. A Kubernetes API server keeps these times in
  whole seconds.
\<close>

definition leaves :: "('w \<Rightarrow> 'v) \<Rightarrow> ('w \<Rightarrow> 'a \<times> 'w) \<Rightarrow> bool" where
  "leaves v f \<longleftrightarrow> (\<forall>w. v (snd (f w)) = v w)"

definition reads_status :: "'w api \<Rightarrow> string \<Rightarrow> string \<Rightarrow> ('w \<Rightarrow> policy_status) \<Rightarrow> bool" where
  "reads_status A ns n recall \<longleftrightarrow>
     (\<forall>m k w p. fst (a_GetPolicy A m k w) = Inr p \<longrightarrow> of_policy m k p \<and> (of_policy ns n p \<longrightarrow> p_Status p = recall w))
     \<and> (\<forall>m w ps. fst (a_ListPolicies A m w) = Inr ps \<longrightarrow> (\<forall>p \<in> set ps. of_policy ns n p \<longrightarrow> p_Status p = recall w))"

definition writes_status :: "duration \<Rightarrow> 'w api \<Rightarrow> string \<Rightarrow> string \<Rightarrow> ('w \<Rightarrow> policy_status) \<Rightarrow> bool" where
  "writes_status gr A ns n recall \<longleftrightarrow> (\<forall>p w. case a_UpdateStatus A p w of
       (Inl e, w') \<Rightarrow> recall w' = recall w
     | (Inr q, w') \<Rightarrow> of_policy (p_Namespace p) (p_Name p) q \<and> p_Status q = stored gr (p_Status p)
         \<and> recall w' = (if of_policy ns n p then stored gr (p_Status p) else recall w))"

definition other_calls_leave :: "'w api \<Rightarrow> ('w \<Rightarrow> 'v) \<Rightarrow> bool" where
  "other_calls_leave A v \<longleftrightarrow> leaves v (a_Now A) \<and> (\<forall>m k. leaves v (a_GetPolicy A m k)) \<and> (\<forall>m. leaves v (a_ListPolicies A m))
     \<and> (\<forall>m k. leaves v (a_GetDeployment A m k)) \<and> (\<forall>m k. leaves v (a_GetStatefulSet A m k))
     \<and> (\<forall>m k. leaves v (a_GetReplicaSet A m k)) \<and> (\<forall>m k. leaves v (a_GetRollout A m k))
     \<and> (\<forall>m sel. leaves v (a_ListPods A m sel)) \<and> (\<forall>p. leaves v (a_UpdatePolicy A p)) \<and> (\<forall>x y. leaves v (a_PatchDeployment A x y))
     \<and> (\<forall>x y. leaves v (a_PatchStatefulSet A x y)) \<and> (\<forall>x y. leaves v (a_PatchRollout A x y))
     \<and> (\<forall>q. leaves v (a_Do A q)) \<and> (\<forall>f d. leaves v (a_WriteFile A f d)) \<and> (\<forall>b k d. leaves v (a_Upload A b k d))"

definition keeps_status :: "duration \<Rightarrow> 'w api \<Rightarrow> string \<Rightarrow> string \<Rightarrow> ('w \<Rightarrow> policy_status) \<Rightarrow> bool" where
  "keeps_status gr A ns n recall \<longleftrightarrow> reads_status A ns n recall \<and> writes_status gr A ns n recall \<and> other_calls_leave A recall"

text \<open>
  The controller reads through a cache that may lag behind, and the server checks the version of an object before it
  takes a write. \<open>view\<close> is the status the server has stored for \<open>ns/n\<close>, and the resource versions that are outdated,
  those of the objects from before the last change of that status. A read may answer any outdated object; a write
  of the status is accepted only for an object that is not outdated. No write of the controller takes an object
  back from the outdated ones.
\<close>

definition known :: "string \<Rightarrow> string \<Rightarrow> ('w \<Rightarrow> policy_status \<times> string set) \<Rightarrow> 'w \<Rightarrow> policy \<Rightarrow> bool" where
  "known ns n view w p \<longleftrightarrow> (of_policy ns n p \<longrightarrow> p_ResourceVersion p \<in> snd (view w) \<or> p_Status p = fst (view w))"

definition accepted ::
    "duration \<Rightarrow> string \<Rightarrow> string \<Rightarrow> ('w \<Rightarrow> policy_status \<times> string set) \<Rightarrow> policy \<Rightarrow> 'w \<Rightarrow> 'w \<Rightarrow> bool" where
  "accepted gr ns n view p w w' \<longleftrightarrow> (if of_policy ns n p
     then fst (view w') = stored gr (p_Status p) \<and> snd (view w) \<subseteq> snd (view w') else view w' = view w)"

definition reads_known :: "'w api \<Rightarrow> string \<Rightarrow> string \<Rightarrow> ('w \<Rightarrow> policy_status \<times> string set) \<Rightarrow> bool" where
  "reads_known A ns n view \<longleftrightarrow>
     (\<forall>m k w p. fst (a_GetPolicy A m k w) = Inr p \<longrightarrow> of_policy m k p \<and> known ns n view w p)
     \<and> (\<forall>m w ps. fst (a_ListPolicies A m w) = Inr ps \<longrightarrow> list_all (known ns n view w) ps)"

definition writes_checked :: "duration \<Rightarrow> 'w api \<Rightarrow> string \<Rightarrow> string \<Rightarrow> ('w \<Rightarrow> policy_status \<times> string set) \<Rightarrow> bool" where
  "writes_checked gr A ns n view \<longleftrightarrow> (\<forall>p w. case a_UpdateStatus A p w of
       (Inl e, w') \<Rightarrow> view w' = view w
     | (Inr q, w') \<Rightarrow> of_policy (p_Namespace p) (p_Name p) q \<and> p_Status q = stored gr (p_Status p)
         \<and> (of_policy ns n p \<longrightarrow> p_ResourceVersion p \<notin> snd (view w)) \<and> accepted gr ns n view p w w')"

definition tracks :: "duration \<Rightarrow> 'w api \<Rightarrow> string \<Rightarrow> string \<Rightarrow> ('w \<Rightarrow> policy_status \<times> string set) \<Rightarrow> bool" where
  "tracks gr A ns n view \<longleftrightarrow> reads_known A ns n view \<and> writes_checked gr A ns n view \<and> other_calls_leave A view"

definition lagging :: "('w \<Rightarrow> policy_status \<times> string set) \<Rightarrow> bool" where
  "lagging view \<longleftrightarrow> (\<exists>w. snd (view w) \<noteq> {})"

text \<open>Reads that see the last write are those of a view without outdated objects.\<close>

definition up_to_date :: "('w \<Rightarrow> policy_status) \<Rightarrow> 'w \<Rightarrow> policy_status \<times> string set" where
  "up_to_date recall w = (recall w, {})"

lemma up_to_date_sel [simp]: "fst (up_to_date recall w) = recall w" "snd (up_to_date recall w) = {}"
  by (simp_all add: up_to_date_def)

lemma not_lagging_up_to_date [simp]: "\<not> lagging (up_to_date recall)"
  by (simp add: lagging_def)

lemma leaves_up_to_date: "leaves recall f \<Longrightarrow> leaves (up_to_date recall) f"
  by (simp add: leaves_def up_to_date_def)

lemma keeps_status_tracks:
  assumes "keeps_status gr A ns n recall"
  shows "tracks gr A ns n (up_to_date recall)"
proof -
  have "reads_known A ns n (up_to_date recall)"
    using assms by (simp add: keeps_status_def reads_status_def reads_known_def known_def list_all_iff)
  moreover have "writes_checked gr A ns n (up_to_date recall)"
  proof (unfold writes_checked_def, intro allI)
    fix p w
    have "case a_UpdateStatus A p w of (Inl e, w') \<Rightarrow> recall w' = recall w
       | (Inr q, w') \<Rightarrow> of_policy (p_Namespace p) (p_Name p) q \<and> p_Status q = stored gr (p_Status p)
           \<and> recall w' = (if of_policy ns n p then stored gr (p_Status p) else recall w)"
      using assms unfolding keeps_status_def writes_status_def by (elim conjE) (drule spec [of _ p], erule spec [of _ w])
    then show "case a_UpdateStatus A p w of (Inl e, w') \<Rightarrow> up_to_date recall w' = up_to_date recall w
       | (Inr q, w') \<Rightarrow> of_policy (p_Namespace p) (p_Name p) q \<and> p_Status q = stored gr (p_Status p)
           \<and> (of_policy ns n p \<longrightarrow> p_ResourceVersion p \<notin> snd (up_to_date recall w)) \<and> accepted gr ns n (up_to_date recall) p w w'"
      by (cases "a_UpdateStatus A p w"; cases "fst (a_UpdateStatus A p w)") (simp_all add: up_to_date_def accepted_def)
  qed
  moreover have "other_calls_leave A (up_to_date recall)"
    using assms by (simp add: keeps_status_def other_calls_leave_def leaves_up_to_date)
  ultimately show ?thesis by (simp add: tracks_def)
qed

section \<open>What no operation but a status write and a patch changes\<close>

text \<open>The durable part of the state: what the server has, and the attempts to write it and to patch so far.\<close>

definition durable :: "('w \<Rightarrow> 'v) \<Rightarrow> 'w sys \<Rightarrow> 'v \<times> effect list" where
  "durable v s = (v (sy_World s), attempts (sy_Trace s))"

lemma durable_call: "leaves v f \<Longrightarrow> keeps (durable v) (call f)"
  by (auto simp: keeps_def leaves_def durable_def split: prod.split) (metis snd_conv)

lemma durable_calls:
  assumes "other_calls_leave A v"
  shows "keeps (durable v) (call (a_Now A))" "keeps (durable v) (call (a_GetPolicy A m k))"
    "keeps (durable v) (call (a_ListPolicies A m))" "keeps (durable v) (call (a_GetDeployment A m k))"
    "keeps (durable v) (call (a_GetStatefulSet A m k))" "keeps (durable v) (call (a_GetReplicaSet A m k))"
    "keeps (durable v) (call (a_GetRollout A m k))" "keeps (durable v) (call (a_ListPods A m sel))"
    "keeps (durable v) (call (a_UpdatePolicy A p))" "keeps (durable v) (call (a_Do A q))"
    "keeps (durable v) (call (a_WriteFile A f d))" "keeps (durable v) (call (a_Upload A b f d))"
  using assms by (auto simp: other_calls_leave_def intro: durable_call)

lemma durable_emit [keeping]: "\<not> attempt e \<Longrightarrow> keeps (durable v) (emit e)"
  by (auto simp: keeps_def durable_def attempts_def)

lemma durable_state [keeping]: "keeps (durable v) (put_gate g)" "keeps (durable v) (put_samples st)"
  by (simp_all add: keeps_def durable_def)

lemma durable_small [keeping]:
  "keeps (durable v) (release_slot k)" "keeps (durable v) (acquire_slot k now)" "keeps (durable v) inflight_gauge"
  "keeps (durable v) (warnUnmonitorableOnce pod)" "keeps (durable v) (recentlyWouldRestart k now cd)"
  "keeps (durable v) (store_would_restart k now)" "keeps (durable v) (skip p r)" "keeps (durable v) (skipRequeue R p r)"
  by (auto simp: keeps_def durable_def attempts_def release_slot_def inflight_gauge_def acquire_slot_wp warnUnmonitorableOnce_def
      recentlyWouldRestart_def store_would_restart_def skip_def skipRequeue_def)

declare durable_calls [keeping]

lemma durable_reads [keeping]:
  assumes [keeping]: "other_calls_leave A v"
  shows "keeps (durable v) (GetWorkload A k ns n)" "keeps (durable v) (ResolveOwner L A p ks)"
    "keeps (durable v) (listWorkloadPods L A wl)" "keeps (durable v) (podAge A p)"
  unfolding GetWorkload_def ResolveOwner_def resolve_statefulset_def resolve_replicaset_def listWorkloadPods_def podAge_def
  by (intro keeping)+

lemma durable_update_policy [keeping]: "other_calls_leave A v \<Longrightarrow> keeps (durable v) (update_policy A p)"
  unfolding update_policy_def by (intro keeping) simp_all

lemma durable_http_do [keeping]: "other_calls_leave A v \<Longrightarrow> keeps (durable v) (http_do A q)"
  unfolding http_do_def by (intro keeping) simp_all

lemma durable_Notify [keeping]:
  assumes [keeping]: "other_calls_leave A v"
  shows "keeps (durable v) (Notify L A nt e)"
proof -
  have [keeping]: "keeps (durable v) (sink_Send L A s e)" for s by (cases s) (auto simp: send_defs intro!: keeping)
  have "keeps (durable v) (notify_loop L A e ss)" for ss by (induction ss) (auto intro!: keeping)
  then show ?thesis unfolding Notify_def by (auto intro!: keeping split: option.split)
qed

lemma durable_Capture [keeping]:
  assumes [keeping]: "other_calls_leave A v"
  shows "keeps (durable v) (Capture A c ip path key)"
proof -
  have [keeping]: "keeps (durable v) (sink_Put A k key data)" for k data
    by (cases k) (auto simp: put_defs Let_def intro!: keeping split: option.split)
  show ?thesis unfolding Capture_def by (intro keeping)
qed

lemma durable_notify [keeping]:
  assumes [keeping]: "other_calls_leave (rc_API R) v"
  shows "keeps (durable v) (notify R t wl b now cfg)" "keeps (durable v) (captureProfile R wl cfg b now st)"
proof -
  have [keeping]: "keeps (durable v) (known_routes R wl names)" for names by (induction names) (auto intro!: keeping)
  show "keeps (durable v) (notify R t wl b now cfg)" unfolding notify_def by (intro keeping)
  show "keeps (durable v) (captureProfile R wl cfg b now st)"
    unfolding captureProfile_def by (auto intro!: keeping split: option.split)
qed

lemma durable_scan_pods [keeping]:
  assumes [keeping]: "other_calls_leave (rc_API R) v"
  shows "keeps (durable v) (scan_pods R cfg now pods)"
proof -
  have [keeping]: "keeps (durable v) (scan_targets pod now ts)" for pod ts
    by (induction ts) (auto simp: Let_def intro!: keeping)
  have "keeps (durable v) (scan_pod R cfg now pod)" for pod
    unfolding scan_pod_def scan_owned_def by (intro keeping)
  then show ?thesis by (induction pods) (auto intro!: keeping)
qed

lemma durable_branches [keeping]:
  assumes [keeping]: "other_calls_leave (rc_API R) v"
  shows "keeps (durable v) (dry_run_restart R wl cfg b now p k)" "keeps (durable v) (effective_windows R p cfg)"
    "keeps (durable v) (defer_restart R wl cfg b now ws)" "keeps (durable v) (announce_restart R wl cfg b now k)"
    "keeps (durable v) (restart_failed wl k what e)" "keeps (durable v) (unsettled_phase R p k ver)"
    "keeps (durable v) (finalize R p k)"
  unfolding dry_run_restart_def effective_windows_def defer_restart_def announce_restart_def restart_failed_def
    unsettled_phase_def finalize_def
  by (intro keeping; simp)+

section \<open>Status writes\<close>

lemma keeps_statusD:
  assumes "keeps_status gr A ns n recall"
  shows "a_UpdateStatus A p w = (Inl e, w') \<Longrightarrow> recall w' = recall w"
    "a_UpdateStatus A p w = (Inr q, w') \<Longrightarrow> of_policy (p_Namespace p) (p_Name p) q \<and> p_Status q = stored gr (p_Status p)
       \<and> recall w' = (if of_policy ns n p then stored gr (p_Status p) else recall w)"
    "a_GetPolicy A m k w = (Inr f, w') \<Longrightarrow> of_policy m k f \<and> (of_policy ns n f \<longrightarrow> p_Status f = recall w)"
    "a_ListPolicies A m w = (Inr ps, w') \<Longrightarrow> f \<in> set ps \<Longrightarrow> of_policy ns n f \<Longrightarrow> p_Status f = recall w"
    "a_GetPolicy A m k w = (g, w') \<Longrightarrow> recall w' = recall w"
    "other_calls_leave A recall"
proof -
  have "case a_UpdateStatus A p w of (Inl e, w') \<Rightarrow> recall w' = recall w
     | (Inr q, w') \<Rightarrow> of_policy (p_Namespace p) (p_Name p) q \<and> p_Status q = stored gr (p_Status p)
         \<and> recall w' = (if of_policy ns n p then stored gr (p_Status p) else recall w)"
    using assms unfolding keeps_status_def writes_status_def by (elim conjE) (drule spec [of _ p], erule spec [of _ w])
  then show "a_UpdateStatus A p w = (Inl e, w') \<Longrightarrow> recall w' = recall w"
    "a_UpdateStatus A p w = (Inr q, w') \<Longrightarrow> of_policy (p_Namespace p) (p_Name p) q \<and> p_Status q = stored gr (p_Status p)
       \<and> recall w' = (if of_policy ns n p then stored gr (p_Status p) else recall w)"
    by simp_all
  show "a_GetPolicy A m k w = (Inr f, w') \<Longrightarrow> of_policy m k f \<and> (of_policy ns n f \<longrightarrow> p_Status f = recall w)"
    "a_ListPolicies A m w = (Inr ps, w') \<Longrightarrow> f \<in> set ps \<Longrightarrow> of_policy ns n f \<Longrightarrow> p_Status f = recall w"
    using assms unfolding keeps_status_def reads_status_def by (metis fst_conv)+
  show "a_GetPolicy A m k w = (g, w') \<Longrightarrow> recall w' = recall w" "other_calls_leave A recall"
    using assms unfolding keeps_status_def other_calls_leave_def leaves_def by (metis snd_conv)+
qed

lemma tracksD:
  assumes "tracks gr A ns n view"
  shows "a_UpdateStatus A p w = (Inl e, w') \<Longrightarrow> view w' = view w"
    "a_UpdateStatus A p w = (Inr q, w') \<Longrightarrow> of_policy (p_Namespace p) (p_Name p) q \<and> p_Status q = stored gr (p_Status p)
       \<and> (of_policy ns n p \<longrightarrow> p_ResourceVersion p \<notin> snd (view w)) \<and> accepted gr ns n view p w w'"
    "a_GetPolicy A m k w = (Inr f, w') \<Longrightarrow> of_policy m k f \<and> known ns n view w f"
    "a_ListPolicies A m w = (Inr ps, w') \<Longrightarrow> f \<in> set ps \<Longrightarrow> known ns n view w f"
    "a_GetPolicy A m k w = (g, w') \<Longrightarrow> view w' = view w"
    "other_calls_leave A view"
proof -
  have "case a_UpdateStatus A p w of (Inl e, w') \<Rightarrow> view w' = view w
     | (Inr q, w') \<Rightarrow> of_policy (p_Namespace p) (p_Name p) q \<and> p_Status q = stored gr (p_Status p)
         \<and> (of_policy ns n p \<longrightarrow> p_ResourceVersion p \<notin> snd (view w)) \<and> accepted gr ns n view p w w'"
    using assms unfolding tracks_def writes_checked_def by (elim conjE) (drule spec [of _ p], erule spec [of _ w])
  then show "a_UpdateStatus A p w = (Inl e, w') \<Longrightarrow> view w' = view w"
    "a_UpdateStatus A p w = (Inr q, w') \<Longrightarrow> of_policy (p_Namespace p) (p_Name p) q \<and> p_Status q = stored gr (p_Status p)
       \<and> (of_policy ns n p \<longrightarrow> p_ResourceVersion p \<notin> snd (view w)) \<and> accepted gr ns n view p w w'"
    by simp_all
  show "a_GetPolicy A m k w = (Inr f, w') \<Longrightarrow> of_policy m k f \<and> known ns n view w f"
    "a_ListPolicies A m w = (Inr ps, w') \<Longrightarrow> f \<in> set ps \<Longrightarrow> known ns n view w f"
    using assms unfolding tracks_def reads_known_def list_all_iff by (metis fst_conv)+
  show "a_GetPolicy A m k w = (g, w') \<Longrightarrow> view w' = view w" "other_calls_leave A view"
    using assms unfolding tracks_def other_calls_leave_def leaves_def by (metis snd_conv)+
qed

text \<open>
  A persist writes once, the status it was given, or not at all. The first attempt goes to the object it was given;
  after a conflict a second one forces the status onto the object of a fresh read. The caller is left with what the
  server kept of the status, or after a conflict with what it had.
\<close>

definition persisted ::
    "duration \<Rightarrow> string \<Rightarrow> string \<Rightarrow> ('w \<Rightarrow> policy_status \<times> string set) \<Rightarrow> policy \<Rightarrow> 'w sys \<Rightarrow> 'w sys \<Rightarrow> bool" where
  "persisted gr ns n view p s t \<longleftrightarrow> (\<exists>q rs. of_policy (p_Namespace p) (p_Name p) q \<and> p_Status q = p_Status p
     \<and> attempts (sy_Trace t) = EUpdateStatus q True # rs @ attempts (sy_Trace s)
     \<and> (rs = [] \<and> (of_policy ns n p \<longrightarrow> p_ResourceVersion p \<notin> snd (view (sy_World s))) \<or> rs = [EUpdateStatus p False])
     \<and> accepted gr ns n view p (sy_World s) (sy_World t))"

definition refused :: "('w \<Rightarrow> 'v) \<Rightarrow> 'w sys \<Rightarrow> 'w sys \<Rightarrow> bool" where
  "refused view s t \<longleftrightarrow> view (sy_World t) = view (sy_World s)
     \<and> (\<exists>rs. attempts (sy_Trace t) = rs @ attempts (sy_Trace s) \<and> deeds rs = [])"

definition left_with :: "duration \<Rightarrow> policy \<Rightarrow> policy \<Rightarrow> bool" where
  "left_with gr p p' \<longleftrightarrow> of_policy (p_Namespace p) (p_Name p) p' \<and> p_Status p' \<in> {p_Status p, stored gr (p_Status p)}"

lemma Persist_tracks:
  fixes s :: "'w sys"
  assumes st: "tracks gr A ns n view"
  shows "wp (Persist A p) (\<lambda>(r, p') t. if is_ok r then left_with gr p p' \<and> persisted gr ns n view p s t else refused view s t) s"
proof -
  have own: "of_policy (p_Namespace p) (p_Name p) p" by (simp add: of_policy_def)
  obtain r1 w1 where u1: "a_UpdateStatus A p (sy_World s) = (r1, w1)" by fastforce
  obtain g w2 where g: "a_GetPolicy A (p_Namespace p) (p_Name p) w1 = (g, w2)" by fastforce
  have w2: "view w2 = view w1" by (rule tracksD(5) [OF st g])
  show ?thesis
  proof (cases r1)
    case (Inr q)
    with tracksD(2) [OF st, of p "sy_World s" q w1] u1 own show ?thesis
      by (auto simp: Persist_def update_status_def u1 left_with_def persisted_def attempts_def)
  next
    case (Inl e)
    then have w1: "view w1 = view (sy_World s)" using tracksD(1) [OF st] u1 by metis
    have again: ?thesis if e: "err_is e ErrConflict" and f: "g = Inr f" for f
    proof -
      let ?f = "f\<lparr>p_Status := p_Status p\<rparr>"
      obtain r2 w3 where u2: "a_UpdateStatus A ?f w2 = (r2, w3)" by fastforce
      have ids: "of_policy (p_Namespace p) (p_Name p) ?f" "of_policy ns n ?f = of_policy ns n p"
        using tracksD(3) [OF st g [unfolded f]] by (simp_all add: of_policy_def)
      have same: "accepted gr ns n view ?f w2 w3 = accepted gr ns n view p (sy_World s) w3"
        by (simp add: accepted_def ids(2) w2 w1)
      show ?thesis
      proof (cases r2)
        case (Inl e2)
        then have "view w3 = view (sy_World s)" using tracksD(1) [OF st] u2 w2 w1 by metis
        then show ?thesis using \<open>r1 = Inl e\<close> e f Inl
          by (simp add: Persist_def update_status_def u1 g u2 refused_def attempts_def deeds_def)
      next
        case (Inr q)
        then have "accepted gr ns n view p (sy_World s) w3" using tracksD(2) [OF st, of ?f w2 q w3] u2 same by simp
        then show ?thesis using \<open>r1 = Inl e\<close> e f Inr ids own
          by (auto simp: Persist_def update_status_def u1 g u2 persisted_def left_with_def attempts_def intro!: exI [of _ ?f])
      qed
    qed
    show ?thesis
    proof (cases "err_is e ErrConflict \<and> (\<exists>f. g = Inr f)")
      case True
      then show ?thesis using again by blast
    next
      case False
      then have "wp (Persist A p) (\<lambda>(r, p') t. \<not> is_ok r \<and> refused view s t) s"
        using Inl w1 w2 by (cases g) (auto simp: Persist_def update_status_def u1 g refused_def attempts_def deeds_def)
      then show ?thesis by (rule wp_mono) auto
    qed
  qed
qed

text \<open>The same where every read sees the last write, for the writes alone.\<close>

definition booked :: "('w \<Rightarrow> 'v) \<Rightarrow> 'w sys \<Rightarrow> 'v \<times> effect list" where
  "booked v s = (v (sy_World s), deeds (sy_Trace s))"

lemma durable_booked: "durable v t = durable v s \<Longrightarrow> booked v t = booked v s"
  by (auto simp: durable_def booked_def dest: deeds_eq)

definition written :: "duration \<Rightarrow> string \<Rightarrow> string \<Rightarrow> ('w \<Rightarrow> policy_status) \<Rightarrow> policy \<Rightarrow> 'w sys \<Rightarrow> 'w sys \<Rightarrow> bool" where
  "written gr ns n recall p s t \<longleftrightarrow> (\<exists>q. of_policy (p_Namespace p) (p_Name p) q \<and> p_Status q = p_Status p
     \<and> booked recall t = (if of_policy ns n p then stored gr (p_Status p) else recall (sy_World s), EUpdateStatus q True # deeds (sy_Trace s)))"

lemma deeds_persisted:
  assumes "attempts (sy_Trace t) = EUpdateStatus q True # rs @ attempts (sy_Trace s)" "rs = [] \<or> rs = [EUpdateStatus p False]"
  shows "deeds (sy_Trace t) = EUpdateStatus q True # deeds (sy_Trace s)"
proof -
  have "deeds (attempts (sy_Trace t)) = EUpdateStatus q True # deeds (attempts (sy_Trace s))"
    unfolding assms(1) using assms(2) by (auto simp: deeds_def)
  then show ?thesis by (simp add: deeds_attempts)
qed

lemma deeds_refused: "refused view s t \<Longrightarrow> deeds (sy_Trace t) = deeds (sy_Trace s)"
  unfolding refused_def by (metis deeds_append deeds_attempts append_Nil)

lemma Persist_durable:
  assumes st: "keeps_status gr A ns n recall"
  shows "wp (Persist A p) (\<lambda>(r, p') t. if is_ok r
      then left_with gr p p' \<and> written gr ns n recall p s t
      else booked recall t = booked recall s) s"
proof (rule wp_mono [OF Persist_tracks [OF keeps_status_tracks [OF st]]], clarify)
  fix r :: "unit result" and p' and t :: "'a sys"
  assume t: "if is_ok r then left_with gr p p' \<and> persisted gr ns n (up_to_date recall) p s t else refused (up_to_date recall) s t"
  have "written gr ns n recall p s t" if w: "persisted gr ns n (up_to_date recall) p s t"
  proof -
    obtain q rs where q: "of_policy (p_Namespace p) (p_Name p) q" "p_Status q = p_Status p"
      and a: "attempts (sy_Trace t) = EUpdateStatus q True # rs @ attempts (sy_Trace s)" "rs = [] \<or> rs = [EUpdateStatus p False]"
      and v: "accepted gr ns n (up_to_date recall) p (sy_World s) (sy_World t)"
      using w unfolding persisted_def by blast
    show ?thesis
      unfolding written_def booked_def deeds_persisted [OF a] using q v
      by (intro exI [of _ q]) (simp add: accepted_def up_to_date_def split: if_splits)
  qed
  moreover have "booked recall t = booked recall s" if "refused (up_to_date recall) s t"
    using deeds_refused [OF that] that by (simp add: booked_def refused_def up_to_date_def)
  ultimately show "if is_ok r then left_with gr p p' \<and> written gr ns n recall p s t else booked recall t = booked recall s"
    using t by (simp split: if_splits)
qed

section \<open>Every operation keeps the ledger lawfully\<close>

text \<open>
  The configurations the policy can resolve to, and the invariant: every step so far was lawful, from \<open>st0\<close>. It says
  nothing once a conflict has been retried while reads lag behind, since such a write puts a status on the server
  that was decided on an outdated one.
\<close>

definition settings :: "'w reconciler \<Rightarrow> string \<Rightarrow> string \<Rightarrow> pod_config set" where
  "settings R ns n = {ResolvePolicy (rc_Defaults R) (p_Spec p) | p w. fst (a_GetPolicy (rc_API R) ns n w) = Inr p}"

definition overran :: "string \<Rightarrow> string \<Rightarrow> ('w \<Rightarrow> policy_status \<times> string set) \<Rightarrow> 'w sys \<Rightarrow> bool" where
  "overran ns n view s \<longleftrightarrow> lagging view \<and> retried ns n (attempts (sy_Trace s))"

definition lawfully ::
    "duration \<Rightarrow> 'w reconciler \<Rightarrow> string \<Rightarrow> string \<Rightarrow> ('w \<Rightarrow> policy_status \<times> string set) \<Rightarrow> policy_status \<Rightarrow> 'w sys \<Rightarrow> bool" where
  "lawfully gr R ns n view st0 s \<longleftrightarrow> overran ns n view s
     \<or> lawful gr (rc_Lib R) (settings R ns n) ns n st0 (deeds (sy_Trace s))
       \<and> fst (view (sy_World s)) = held gr ns n st0 (deeds (sy_Trace s)) \<and> coarse gr st0"

text \<open>\<open>p\<close> carries the ledger the server has, or is outdated.\<close>

definition in_step ::
    "duration \<Rightarrow> 'w reconciler \<Rightarrow> string \<Rightarrow> string \<Rightarrow> ('w \<Rightarrow> policy_status \<times> string set) \<Rightarrow> policy_status \<Rightarrow> policy \<Rightarrow> 'w sys \<Rightarrow> bool" where
  "in_step gr R ns n view st0 p s \<longleftrightarrow> overran ns n view s \<or> lawfully gr R ns n view st0 s
     \<and> (of_policy ns n p \<longrightarrow> p_ResourceVersion p \<in> snd (view (sy_World s)) \<or> ledger (fst (view (sy_World s))) = ledger (p_Status p))"

definition leads :: "('w sys \<Rightarrow> bool) \<Rightarrow> ('w, 'a) op \<Rightarrow> ('w sys \<Rightarrow> bool) \<Rightarrow> bool" where
  "leads P m Q \<longleftrightarrow> (\<forall>s. P s \<longrightarrow> wp m (\<lambda>_. Q) s)"

lemma leadsI: "(\<And>s. P s \<Longrightarrow> wp m (\<lambda>_. Q) s) \<Longrightarrow> leads P m Q"
  by (simp add: leads_def)

lemma overran_lawfully: "overran ns n view s \<Longrightarrow> lawfully gr R ns n view st0 s"
  by (simp add: lawfully_def)

lemma overran_later: "overran ns n view s \<Longrightarrow> attempts (sy_Trace t) = es @ attempts (sy_Trace s) \<Longrightarrow> overran ns n view t"
  by (simp add: overran_def retried_append)

lemma durable_overran: "durable view t = durable view s \<Longrightarrow> overran ns n view t = overran ns n view s"
  by (simp add: overran_def durable_def)

lemma durable_lawfully: "durable view t = durable view s \<Longrightarrow> lawfully gr R ns n view st0 t = lawfully gr R ns n view st0 s"
  using durable_overran [of view t s ns n] durable_booked [of view t s] by (simp add: lawfully_def durable_def booked_def)

lemma durable_in_step: "durable view t = durable view s \<Longrightarrow> in_step gr R ns n view st0 p t = in_step gr R ns n view st0 p s"
  using durable_lawfully [of view t s] durable_overran [of view t s ns n] by (simp add: in_step_def durable_def)

lemma in_step_lawfully: "in_step gr R ns n view st0 p s \<Longrightarrow> lawfully gr R ns n view st0 s"
  by (auto simp: in_step_def lawfully_def)

lemma known_in_step: "known ns n view (sy_World s) p \<Longrightarrow> lawfully gr R ns n view st0 s \<Longrightarrow> in_step gr R ns n view st0 p s"
  by (auto simp: in_step_def known_def)

lemma refused_in_step:
  assumes "refused view s t"
  shows "in_step gr R ns n view st0 p s \<Longrightarrow> in_step gr R ns n view st0 p t"
    "lawfully gr R ns n view st0 s \<Longrightarrow> lawfully gr R ns n view st0 t"
proof -
  have "overran ns n view s \<Longrightarrow> overran ns n view t" "view (sy_World t) = view (sy_World s)"
    using assms unfolding refused_def by (blast intro: overran_later)+
  then show "in_step gr R ns n view st0 p s \<Longrightarrow> in_step gr R ns n view st0 p t"
    "lawfully gr R ns n view st0 s \<Longrightarrow> lawfully gr R ns n view st0 t"
    using deeds_refused [OF assms] by (auto simp: in_step_def lawfully_def)
qed

lemma leads_last: "keeps (durable view) m \<Longrightarrow> leads (in_step gr R ns n view st0 p) m (lawfully gr R ns n view st0)"
  unfolding leads_def by (blast intro: wp_mono [OF keepsD] dest: durable_lawfully in_step_lawfully)

lemma leads_bind:
  assumes "keeps (durable view) m" and "\<And>a. leads (in_step gr R ns n view st0 p) (f a) Q"
  shows "leads (in_step gr R ns n view st0 p) (State_Monad.bind m f) Q"
proof (rule leadsI)
  fix s
  assume "in_step gr R ns n view st0 p s"
  then show "wp (State_Monad.bind m f) (\<lambda>_. Q) s"
    unfolding wp_bind using assms(2) unfolding leads_def
    by (intro wp_mono [OF keepsD [OF assms(1)]]) (blast dest: durable_in_step)
qed

lemma leads_bind_yields:
  assumes "keeps (durable view) m" "yields V m" and "\<And>a. V a \<Longrightarrow> leads (in_step gr R ns n view st0 p) (f a) Q"
  shows "leads (in_step gr R ns n view st0 p) (State_Monad.bind m f) Q"
proof (rule leadsI)
  fix s
  assume s: "in_step gr R ns n view st0 p s"
  have "wp m (\<lambda>a t. V a \<and> durable view t = durable view s) s"
    using keepsD [OF assms(1)] assms(2) unfolding yields_def by (intro wp_conj) auto
  then show "wp (State_Monad.bind m f) (\<lambda>_. Q) s"
    unfolding wp_bind using s assms(3) unfolding leads_def by (elim wp_mono) (blast dest: durable_in_step)
qed

lemma leads_branch:
  "(b \<Longrightarrow> leads P m Q) \<Longrightarrow> (\<not> b \<Longrightarrow> leads P n Q) \<Longrightarrow> leads P (if b then m else n) Q"
  "(\<And>e. r = Inl e \<Longrightarrow> leads P (f e) Q) \<Longrightarrow> (\<And>x. r = Inr x \<Longrightarrow> leads P (g x) Q) \<Longrightarrow>
   leads P (case r of Inl e \<Rightarrow> f e | Inr x \<Rightarrow> g x) Q"
  "(opt = None \<Longrightarrow> leads P h Q) \<Longrightarrow> (\<And>y. opt = Some y \<Longrightarrow> leads P (k y) Q) \<Longrightarrow>
   leads P (case opt of None \<Rightarrow> h | Some y \<Rightarrow> k y) Q"
  "(\<And>a c. pr = (a, c) \<Longrightarrow> leads P (q a c) Q) \<Longrightarrow> leads P (case pr of (a, c) \<Rightarrow> q a c) Q"
  "(\<And>z. z = t \<Longrightarrow> leads P (w z) Q) \<Longrightarrow> leads P (Let t w) Q"
  "leads P x1 Q \<Longrightarrow> leads P x2 Q \<Longrightarrow> leads P x3 Q \<Longrightarrow>
   leads P (case out of Acquired \<Rightarrow> x1 | AlreadyInF \<Rightarrow> x2 | CapReached \<Rightarrow> x3) Q"
  by (cases b; cases r; cases opt; cases pr; cases out; simp add: Let_def)+

text \<open>A write that keeps the ledger \<open>p0\<close> carries or adopts a workload.\<close>

definition lawful_write :: "string \<Rightarrow> string \<Rightarrow> policy \<Rightarrow> policy \<Rightarrow> bool" where
  "lawful_write ns n p0 p \<longleftrightarrow> p_ResourceVersion p = p_ResourceVersion p0
     \<and> (of_policy ns n p \<longrightarrow> of_policy ns n p0 \<and> adopts (p_Status p0) (p_Status p))"

lemma same_ledger_write: "ledger st = ledger (p_Status p0) \<Longrightarrow> lawful_write ns n p0 (p0\<lparr>p_Status := st\<rparr>)"
  by (simp add: lawful_write_def adopts_same of_policy_def)

lemma of_policy_status [simp]: "of_policy ns n (p\<lparr>p_Status := st\<rparr>) = of_policy ns n p"
  by (simp add: of_policy_def)

lemma of_policy_ids: "of_policy (p_Namespace p) (p_Name p) q \<Longrightarrow> of_policy ns n q = of_policy ns n p"
  by (simp add: of_policy_def)

text \<open>
  A write that goes through was decided on the ledger the server had, unless it forced its way past another one.
\<close>

lemma persisted_fresh:
  assumes "persisted gr ns n view p s t" "of_policy ns n p"
  shows "p_ResourceVersion p \<notin> snd (view (sy_World s)) \<or> overran ns n view t"
proof -
  obtain q rs where q: "of_policy (p_Namespace p) (p_Name p) q" "p_Status q = p_Status p"
    and a: "attempts (sy_Trace t) = EUpdateStatus q True # rs @ attempts (sy_Trace s)"
    and rs: "rs = [] \<and> p_ResourceVersion p \<notin> snd (view (sy_World s)) \<or> rs = [EUpdateStatus p False]"
    using assms unfolding persisted_def by blast
  have "of_policy ns n q" using of_policy_ids [OF q(1)] assms(2) by simp
  then have "retried ns n (attempts (sy_Trace t))" if "rs = [EUpdateStatus p False]"
    unfolding retried_def a that using q(2) assms(2) by (metis append_Cons append_Nil)
  then show ?thesis using rs by (auto simp: overran_def lagging_def)
qed

lemma in_step_fresh:
  assumes "in_step gr R ns n view st0 p0 s" "persisted gr ns n view p s t" "of_policy ns n p" "of_policy ns n p0"
    "p_ResourceVersion p = p_ResourceVersion p0" and no: "\<not> overran ns n view t"
  shows "lawful gr (rc_Lib R) (settings R ns n) ns n st0 (deeds (sy_Trace s))"
    "ledger (held gr ns n st0 (deeds (sy_Trace s))) = ledger (p_Status p0)" "coarse gr st0" "coarse gr (p_Status p0)"
    "ledger (fst (view (sy_World s))) = ledger (p_Status p0)"
proof -
  have "p_ResourceVersion p0 \<notin> snd (view (sy_World s))" using persisted_fresh [OF assms(2,3)] assms(5) no by simp
  moreover have "\<not> overran ns n view s"
    using assms(2) no overran_later [of ns n view s t] unfolding persisted_def by (metis append_Cons)
  ultimately show l: "lawful gr (rc_Lib R) (settings R ns n) ns n st0 (deeds (sy_Trace s))"
    "ledger (held gr ns n st0 (deeds (sy_Trace s))) = ledger (p_Status p0)" "coarse gr st0"
    "ledger (fst (view (sy_World s))) = ledger (p_Status p0)"
    using assms(1,4) by (auto simp: in_step_def lawfully_def)
  show "coarse gr (p_Status p0)"
    using held_coarse [OF l(3)] coarse_ledger [OF l(2)] by blast
qed

lemma persisted_in_step:
  assumes s: "in_step gr R ns n view st0 p0 s" and p: "lawful_write ns n p0 p" and t: "persisted gr ns n view p s t"
    and p': "left_with gr p p'"
  shows "in_step gr R ns n view st0 p' t"
proof (cases "overran ns n view t")
  case False
  obtain q rs where q: "of_policy (p_Namespace p) (p_Name p) q" "p_Status q = p_Status p"
    and a: "attempts (sy_Trace t) = EUpdateStatus q True # rs @ attempts (sy_Trace s)" "rs = [] \<or> rs = [EUpdateStatus p False]"
    and v: "accepted gr ns n view p (sy_World s) (sy_World t)"
    using t unfolding persisted_def by blast
  have ids: "of_policy ns n q = of_policy ns n p" "of_policy ns n p' = of_policy ns n p"
    using q(1) p' of_policy_ids [of p] by (simp_all add: left_with_def)
  have before: "\<not> overran ns n view s" using False overran_later [of ns n view s t] a(1) by (metis append_Cons)
  have d: "deeds (sy_Trace t) = EUpdateStatus q True # deeds (sy_Trace s)" by (rule deeds_persisted [OF a])
  show ?thesis
  proof (cases "of_policy ns n p")
    case True
    then have p0: "of_policy ns n p0" "adopts (p_Status p0) (p_Status p)" "p_ResourceVersion p = p_ResourceVersion p0"
      using p by (simp_all add: lawful_write_def)
    note f = in_step_fresh [OF s t True p0(1,3) False]
    have "adopts (held gr ns n st0 (deeds (sy_Trace s))) (p_Status p)" using adopts_cong [OF f(2)] p0(2) by simp
    moreover have "ledger (stored gr (p_Status p)) = ledger (p_Status p')"
      using adopts_coarse [OF p0(2) f(4)] p' by (auto simp: left_with_def coarse_def)
    ultimately show ?thesis
      using v f(1,3) True ids q(2) by (simp add: in_step_def lawfully_def d accepted_def)
  next
    case no: False
    then show ?thesis using s before v ids by (simp add: in_step_def lawfully_def d accepted_def)
  qed
qed (simp add: in_step_def)

text \<open>The other policies of a listing stay in step when one of them is closed: its ledger stays.\<close>

lemma sibling_in_step:
  assumes s: "in_step gr R ns n view st0 p s" and p: "lawful_write ns n p (p\<lparr>p_Status := CompleteInFlight L (p_Status p) now out\<rparr>)"
    and t: "persisted gr ns n view (p\<lparr>p_Status := CompleteInFlight L (p_Status p) now out\<rparr>) s t"
    and p': "left_with gr (p\<lparr>p_Status := CompleteInFlight L (p_Status p) now out\<rparr>) p'"
    and q: "in_step gr R ns n view st0 q s"
  shows "in_step gr R ns n view st0 q t"
proof (cases "overran ns n view t")
  case False
  let ?p = "p\<lparr>p_Status := CompleteInFlight L (p_Status p) now out\<rparr>"
  have law: "lawfully gr R ns n view st0 t" by (rule in_step_lawfully [OF persisted_in_step [OF s p t p']])
  have v: "accepted gr ns n view ?p (sy_World s) (sy_World t)"
    and before: "\<not> overran ns n view s" using t False overran_later [of ns n view s t] unfolding persisted_def by (metis append_Cons)+
  have "snd (view (sy_World s)) \<subseteq> snd (view (sy_World t)) \<and> ledger (fst (view (sy_World t))) = ledger (fst (view (sy_World s)))"
  proof (cases "of_policy ns n p")
    case True
    note f = in_step_fresh [OF s t _ True _ False, simplified, OF True]
    have "ledger (stored gr (p_Status ?p)) = ledger (stored gr (p_Status p))" by (rule ledger_stored) simp
    then show ?thesis using v True f(4,5) by (simp add: accepted_def coarse_def)
  qed (use v in \<open>simp add: accepted_def\<close>)
  then show ?thesis using q before law by (auto simp: in_step_def)
qed (simp add: in_step_def)

lemma leads_persist:
  fixes R :: "'w reconciler"
  assumes st: "tracks gr (rc_API R) ns n view" and p: "lawful_write ns n p0 p"
    and fail: "\<And>e p'. leads (in_step gr R ns n view st0 p0) (f (Inl e, p')) (lawfully gr R ns n view st0)"
    and ok: "\<And>p'. of_policy ns n p' = of_policy ns n p \<Longrightarrow>
      leads (in_step gr R ns n view st0 p') (f (Inr (), p')) (lawfully gr R ns n view st0)"
  shows "leads (in_step gr R ns n view st0 p0) (State_Monad.bind (Persist (rc_API R) p) f) (lawfully gr R ns n view st0)"
proof (rule leadsI, unfold wp_bind, rule wp_mono [OF Persist_tracks [OF st]], clarify)
  fix s t :: "'w sys" and p' and r :: "unit result"
  assume s: "in_step gr R ns n view st0 p0 s"
    and t: "if is_ok r then left_with gr p p' \<and> persisted gr ns n view p s t else refused view s t"
  show "wp (f (r, p')) (\<lambda>_. lawfully gr R ns n view st0) t"
  proof (cases r)
    case (Inl e)
    then have "in_step gr R ns n view st0 p0 t" using t refused_in_step(1) [OF _ s] by simp
    then show ?thesis using fail Inl unfolding leads_def by blast
  next
    case (Inr u)
    then have "in_step gr R ns n view st0 p' t" "of_policy ns n p' = of_policy ns n p"
      using t persisted_in_step [OF s p] of_policy_ids [of p p'] by (auto simp: left_with_def)
    then show ?thesis using ok Inr unfolding leads_def by (cases u) blast
  qed
qed

text \<open>The restart: the write, then the patch right after it.\<close>

lemma Dispatch_recall:
  assumes "other_calls_leave A v"
  shows "wp (Dispatch L A w now) (\<lambda>_ t. v (sy_World t) = v (sy_World s)) s"
proof -
  let ?k = "keeps (\<lambda>s. v (sy_World s))"
  have "?k (call (a_PatchDeployment A d d'))" "?k (call (a_PatchStatefulSet A e e'))" "?k (call (a_PatchRollout A f f'))" for d d' e e' f f'
    using assms by (auto simp: other_calls_leave_def leaves_def keeps_def split: prod.split) (metis snd_conv)+
  moreover have "?k (emit e)" for e by (auto simp: keeps_def)
  ultimately have "?k (Dispatch L A w now)"
    unfolding Dispatch_def patch_object_def by (intro keeping)
  from keepsD [OF this] show ?thesis .
qed

lemma lawfully_leads: "keeps (durable view) m \<Longrightarrow> leads (lawfully gr R ns n view st0) m (lawfully gr R ns n view st0)"
  unfolding leads_def by (blast intro: wp_mono [OF keepsD] dest: durable_lawfully)

lemma leads_real_restart:
  fixes R :: "'w reconciler"
  assumes st: "tracks gr (rc_API R) ns n view"
    and p: "of_policy ns n p \<Longrightarrow> cfg \<in> settings R ns n \<and> \<not> InCooldown (p_Status p) now (pc_Cooldown cfg)
      \<and> \<not> BreakerTripped (p_Status p) (TemplateVersion (rc_Lib R) wl) now (pc_RestartWindow cfg) (pc_MaxRestartsPerWindow cfg)"
  shows "leads (in_step gr R ns n view st0 p) (real_restart R wl cfg b now p k) (lawfully gr R ns n view st0)"
proof (rule leadsI, unfold real_restart_def wp_bind, rule wp_mono [OF Persist_tracks [OF st]], clarify)
  fix s t :: "'w sys" and p' and r :: "unit result"
  let ?p = "p\<lparr>p_Status := restarted_status R (p_Status p) wl cfg b now\<rparr>"
  let ?L = "rc_Lib R" and ?G = "settings R ns n" and ?old = "held gr ns n st0 (deeds (sy_Trace s))"
  note calls = tracksD(6) [OF st]
  assume s: "in_step gr R ns n view st0 p s"
    and t: "if is_ok r then left_with gr ?p p' \<and> persisted gr ns n view ?p s t else refused view s t"
  show "wp (case fst (r, p') of Inl e \<Rightarrow> restart_failed wl k ''persist restart state for '' e
      | Inr x \<Rightarrow> dispatch_restart R wl cfg b now k) (\<lambda>_. lawfully gr R ns n view st0) t"
  proof (cases r)
    case (Inl e)
    then have "lawfully gr R ns n view st0 t" using t refused_in_step(2) [OF _ in_step_lawfully [OF s]] by simp
    then show ?thesis using Inl lawfully_leads [OF durable_branches(5) [OF calls]] by (simp add: leads_def)
  next
    case (Inr x)
    then have w: "persisted gr ns n view ?p s t" using t by simp
    then obtain q rs where q: "of_policy (p_Namespace ?p) (p_Name ?p) q" "p_Status q = p_Status ?p"
      and a: "attempts (sy_Trace t) = EUpdateStatus q True # rs @ attempts (sy_Trace s)" "rs = [] \<or> rs = [EUpdateStatus ?p False]"
      and v: "accepted gr ns n view ?p (sy_World s) (sy_World t)"
      unfolding persisted_def by blast
    have d: "deeds (sy_Trace t) = EUpdateStatus q True # deeds (sy_Trace s)" by (rule deeds_persisted [OF a])
    have ids: "of_policy ns n q = of_policy ns n p" using of_policy_ids [OF q(1)] by simp
    have restarted: "lawful gr ?L ?G ns n st0 (deeds (sy_Trace s)) \<and> restarts ?L ?G ?old (p_Status ?p) \<and> coarse gr st0"
      if "of_policy ns n p" "\<not> overran ns n view t"
    proof -
      note f = in_step_fresh [OF s w _ that(1) _ that(2), simplified, OF that(1)]
      have "restarts ?L ?G (p_Status p) (p_Status ?p)"
        unfolding restarts_def using p [OF that(1)] by (fastforce simp: restarted_status_def Let_def)
      then show ?thesis using f(1,3) restarts_cong [OF f(2)] by blast
    qed
    have law: "lawfully gr R ns n view st0 u"
      if u: "view (sy_World u) = view (sy_World t)" "sy_Trace u = sy_Trace t \<or> (\<exists>old new ok. sy_Trace u = EPatch old new ok # sy_Trace t)" for u
    proof (cases "overran ns n view t")
      case True
      have "\<exists>es. attempts (sy_Trace u) = es @ attempts (sy_Trace t)" using u(2) by (auto simp: attempts_def)
      then show ?thesis using overran_later [OF True] overran_lawfully by blast
    next
      case False
      moreover have "\<not> overran ns n view s" using False overran_later [of ns n view s t] a(1) by (metis append_Cons)
      ultimately show ?thesis
        using s v u q(2) ids restarted
        by (cases "of_policy ns n p") (auto simp: in_step_def lawfully_def d accepted_def deeds_def [of "_ # _"] deeds_def [symmetric])
    qed
    have "wp (Dispatch ?L (rc_API R) wl now) (\<lambda>dsp u. lawfully gr R ns n view st0 u) t"
      by (rule wp_mono [OF wp_conj [OF Dispatch_run Dispatch_recall [OF calls]]]) (auto intro!: law)
    then have "wp (dispatch_restart R wl cfg b now k) (\<lambda>_. lawfully gr R ns n view st0) t"
      unfolding dispatch_restart_def wp_bind
      by (rule wp_mono)
         (use lawfully_leads [OF durable_branches(5) [OF calls]] lawfully_leads [OF durable_branches(4) [OF calls]]
          in \<open>auto simp: leads_def split: sum.split\<close>)
    then show ?thesis using Inr by simp
  qed
qed

text \<open>The phases of a reconcile, from the gates back to the top.\<close>

lemma in_step_same:
  assumes "ledger st = ledger (p_Status p)"
  shows "in_step gr R ns n view st0 (p\<lparr>p_Status := st\<rparr>) = in_step gr R ns n view st0 p"
  using assms by (intro ext) (simp add: in_step_def)

lemma captureProfile_ledger: "yields (\<lambda>st'. ledger st' = ledger st) (captureProfile R wl cfg b now st)"
  by (auto simp: yields_def captureProfile_def intro!: wp_runI split: option.split sum.split)
     (auto simp: wp_def State_Monad.bind_def emit_def split: sum.splits prod.splits)

definition gates_open :: "'w reconciler \<Rightarrow> string \<Rightarrow> string \<Rightarrow> pod_config \<Rightarrow> time \<Rightarrow> policy \<Rightarrow> workload \<Rightarrow> bool" where
  "gates_open R ns n cfg now p wl \<longleftrightarrow> (of_policy ns n p \<longrightarrow> cfg \<in> settings R ns n \<and> \<not> InCooldown (p_Status p) now (pc_Cooldown cfg)
     \<and> \<not> BreakerTripped (p_Status p) (TemplateVersion (rc_Lib R) wl) now (pc_RestartWindow cfg) (pc_MaxRestartsPerWindow cfg))"

lemma gates_open_cong:
  assumes "of_policy ns n p' = of_policy ns n p" "ledger (p_Status p') = ledger (p_Status p)" "gates_open R ns n cfg now p wl"
  shows "gates_open R ns n cfg now p' wl"
  using assms ledger_gates(1,2) [OF assms(2)] by (simp add: gates_open_def)

lemma leads_act:
  fixes R :: "'w reconciler"
  assumes st: "tracks gr (rc_API R) ns n view" and p: "gates_open R ns n cfg now p wl"
  shows "leads (in_step gr R ns n view st0 p) (act R wl cfg b now p k v) (lawfully gr R ns n view st0)"
proof -
  note calls [keeping] = tracksD(6) [OF st]
  have next_status: "leads (in_step gr R ns n view st0 p) (let policy1 = p\<lparr>p_Status := st'\<rparr> in
      if pc_DryRun cfg then dry_run_restart R wl cfg b now policy1 k else real_restart R wl cfg b now policy1 k)
      (lawfully gr R ns n view st0)" if "ledger st' = ledger (p_Status p)" for st'
  proof -
    let ?p = "p\<lparr>p_Status := st'\<rparr>"
    have ids: "of_policy ns n ?p = of_policy ns n p" "ledger (p_Status ?p) = ledger (p_Status p)" using that by simp_all
    have "leads (in_step gr R ns n view st0 ?p) (real_restart R wl cfg b now ?p k) (lawfully gr R ns n view st0)"
      by (rule leads_real_restart [OF st]) (use gates_open_cong [OF ids p] in \<open>simp add: gates_open_def\<close>)
    moreover have "leads (in_step gr R ns n view st0 ?p) (dry_run_restart R wl cfg b now ?p k) (lawfully gr R ns n view st0)"
      by (intro leads_last keeping)
    ultimately show ?thesis unfolding Let_def in_step_same [OF that] by (intro leads_branch)
  qed
  show ?thesis
    unfolding act_def
    by (intro leads_bind leads_branch leads_bind_yields [OF _ captureProfile_ledger] next_status leads_last keeping) assumption+
qed

lemma leads_handle_breach:
  fixes R :: "'w reconciler"
  assumes st: "tracks gr (rc_API R) ns n view" and cfg: "of_policy ns n p \<Longrightarrow> cfg \<in> settings R ns n"
  shows "leads (in_step gr R ns n view st0 p) (handle_breach R wl cfg b now p k (TemplateVersion (rc_Lib R) wl)) (lawfully gr R ns n view st0)"
proof -
  note calls [keeping] = tracksD(6) [OF st]
  let ?v = "TemplateVersion (rc_Lib R) wl"
  have gate: "leads (in_step gr R ns n view st0 p) (window_gate R wl cfg b now p k ?v) (lawfully gr R ns n view st0)"
    if "\<not> InCooldown (p_Status p) now (pc_Cooldown cfg)"
      "\<not> BreakerTripped (p_Status p) ?v now (pc_RestartWindow cfg) (pc_MaxRestartsPerWindow cfg)"
    unfolding window_gate_def acquire_and_act_def
    by (intro leads_bind leads_branch leads_act [OF st] leads_last keeping) (use cfg that in \<open>simp add: gates_open_def\<close>)
  show ?thesis
    unfolding handle_breach_def by (intro leads_bind leads_branch gate leads_last keeping; simp)
qed

lemma leads_settle_phase:
  fixes R :: "'w reconciler"
  assumes st: "tracks gr (rc_API R) ns n view" and cfg: "of_policy ns n p \<Longrightarrow> cfg \<in> settings R ns n"
  shows "leads (in_step gr R ns n view st0 p) (settle_phase R wl cfg now p k (TemplateVersion (rc_Lib R) wl)) (lawfully gr R ns n view st0)"
proof -
  note calls [keeping] = tracksD(6) [OF st]
  let ?v = "TemplateVersion (rc_Lib R) wl"
  have wr: "lawful_write ns n p (p\<lparr>p_Status := RecomputeObservability (CompleteInFlight (rc_Lib R) (p_Status p) now out) now cd win mx\<rparr>)"
    for out cd win mx by (rule same_ledger_write) simp
  have complete: "leads (in_step gr R ns n view st0 p) (complete_phase R cfg now p k ?v) (lawfully gr R ns n view st0)"
    unfolding complete_phase_def Let_def
    by (intro leads_bind leads_branch leads_persist [OF st wr] leads_last keeping)
  have detect: "leads (in_step gr R ns n view st0 p) (detect_phase R wl cfg now p k ?v) (lawfully gr R ns n view st0)"
    unfolding detect_phase_def by (intro leads_bind leads_branch leads_handle_breach [OF st cfg] leads_last keeping)
  show ?thesis
    unfolding settle_phase_def by (intro leads_bind leads_branch complete detect leads_last keeping)
qed

lemma leads_workload_phase:
  fixes R :: "'w reconciler"
  assumes st: "tracks gr (rc_API R) ns n view" and cfg: "of_policy ns n p \<Longrightarrow> cfg \<in> settings R ns n"
  shows "leads (in_step gr R ns n view st0 p) (workload_phase R wl cfg p k) (lawfully gr R ns n view st0)"
proof -
  note calls [keeping] = tracksD(6) [OF st]
  let ?v = "TemplateVersion (rc_Lib R) wl"
  have adopted: "leads (in_step gr R ns n view st0 p) (let policy1 = p\<lparr>p_Status := AdoptWorkload (p_Status p) uid\<rparr> in
      if st_WorkloadUID (p_Status p) \<noteq> st_WorkloadUID (p_Status policy1) then do {
        r \<leftarrow> Persist (rc_API R) policy1;
        case fst r of Inl e \<Rightarrow> ret (Inl e) | Inr _ \<Rightarrow> settle_phase R wl cfg now (snd r) k ?v }
      else settle_phase R wl cfg now policy1 k ?v) (lawfully gr R ns n view st0)" for uid now
  proof -
    let ?p = "p\<lparr>p_Status := AdoptWorkload (p_Status p) uid\<rparr>"
    have ids: "of_policy ns n ?p = of_policy ns n p" by simp
    have wr: "lawful_write ns n p ?p" by (simp add: lawful_write_def adopts_def)
    have settle: "leads (in_step gr R ns n view st0 p') (settle_phase R wl cfg now p' k ?v) (lawfully gr R ns n view st0)"
      if "of_policy ns n p' = of_policy ns n ?p" for p'
      by (rule leads_settle_phase [OF st]) (use that ids cfg in simp)
    have same: "in_step gr R ns n view st0 ?p = in_step gr R ns n view st0 p" if "st_WorkloadUID (p_Status p) = uid"
      by (rule in_step_same) (use that in \<open>simp add: ledger_AdoptWorkload_same\<close>)
    have "leads (in_step gr R ns n view st0 p) (settle_phase R wl cfg now ?p k ?v) (lawfully gr R ns n view st0)"
      if "st_WorkloadUID (p_Status p) = uid" using settle [of ?p] same [OF that] by simp
    moreover have "leads (in_step gr R ns n view st0 p) (do { r \<leftarrow> Persist (rc_API R) ?p;
        case fst r of Inl e \<Rightarrow> ret (Inl e) | Inr _ \<Rightarrow> settle_phase R wl cfg now (snd r) k ?v }) (lawfully gr R ns n view st0)"
      by (rule leads_persist [OF st wr]) (simp_all add: settle leads_last keeping)
    ultimately show ?thesis by (simp add: Let_def)
  qed
  have "leads (in_step gr R ns n view st0 p) (case Workload_UID wl of Inl e \<Rightarrow> ret (Inl e)
      | Inr uid \<Rightarrow> let policy1 = p\<lparr>p_Status := AdoptWorkload (p_Status p) uid\<rparr> in
          if st_WorkloadUID (p_Status p) \<noteq> st_WorkloadUID (p_Status policy1) then do {
            r \<leftarrow> Persist (rc_API R) policy1;
            case fst r of Inl e \<Rightarrow> ret (Inl e) | Inr _ \<Rightarrow> settle_phase R wl cfg now (snd r) k ?v }
          else settle_phase R wl cfg now policy1 k ?v) (lawfully gr R ns n view st0)" for now
    by (rule leads_branch(2)) (intro leads_last keeping, rule adopted)
  then show ?thesis
    unfolding workload_phase_def by (intro leads_bind keeping) (simp only: Let_def)
qed

lemma leads_live_phase:
  fixes R :: "'w reconciler"
  assumes st: "tracks gr (rc_API R) ns n view"
    and cfg: "of_policy ns n p \<Longrightarrow> ResolvePolicy (rc_Defaults R) (p_Spec p) \<in> settings R ns n"
  shows "leads (in_step gr R ns n view st0 p) (live_phase R p k) (lawfully gr R ns n view st0)"
proof -
  note calls [keeping] = tracksD(6) [OF st]
  let ?cfg = "ResolvePolicy (rc_Defaults R) (p_Spec p)"
  have get: "leads (in_step gr R ns n view st0 p') (get_workload_phase R ?cfg p' k) (lawfully gr R ns n view st0)"
    if "of_policy ns n p' = of_policy ns n p" for p'
    unfolding get_workload_phase_def
    by (intro leads_bind leads_branch leads_workload_phase [OF st] leads_last keeping) (use that cfg in simp)
  let ?p = "p\<lparr>p_Status := (p_Status p)\<lparr>st_DryRun := pc_DryRun ?cfg\<rparr>\<rparr>"
  have ids: "of_policy ns n ?p = of_policy ns n p" by simp
  have wr: "lawful_write ns n p ?p" by (rule same_ledger_write) simp
  have "leads (in_step gr R ns n view st0 p) (do { r \<leftarrow> Persist (rc_API R) ?p;
      case fst r of Inl e \<Rightarrow> ret (Inl e) | Inr _ \<Rightarrow> get_workload_phase R ?cfg (snd r) k }) (lawfully gr R ns n view st0)"
    by (rule leads_persist [OF st wr]) (simp_all add: get ids leads_last keeping)
  then show ?thesis unfolding live_phase_def Let_def by (intro leads_branch get) simp_all
qed

lemma lawfully_Reconcile:
  fixes R :: "'w reconciler"
  assumes st: "tracks gr (rc_API R) ns n view"
  shows "preserves (lawfully gr R ns n view st0) (Reconcile R m k)"
proof (rule preservesI)
  note calls [keeping] = tracksD(6) [OF st]
  fix s :: "'w sys"
  assume s: "lawfully gr R ns n view st0 s"
  obtain g w where g: "a_GetPolicy (rc_API R) m k (sy_World s) = (g, w)" by fastforce
  let ?t = "s\<lparr>sy_World := w\<rparr>"
  have t: "lawfully gr R ns n view st0 ?t" using s tracksD(5) [OF st g] by (simp add: lawfully_def overran_def)
  have phases: "leads (in_step gr R ns n view st0 p) (finalize R p wk) (lawfully gr R ns n view st0)"
    "leads (in_step gr R ns n view st0 p) (add_finalizer_phase R p wk) (lawfully gr R ns n view st0)"
    if "g = Inr p" for p wk
  proof -
    have cfg: "ResolvePolicy (rc_Defaults R) (p_Spec p) \<in> settings R ns n" if "of_policy ns n p"
      using that \<open>g = Inr p\<close> g tracksD(3) [OF st, of m k "sy_World s" p w]
      unfolding settings_def of_policy_def by (metis (mono_tags, lifting) fst_conv mem_Collect_eq)
    have live: "leads (in_step gr R ns n view st0 p) (live_phase R p wk) (lawfully gr R ns n view st0)"
      by (rule leads_live_phase [OF st cfg])
    show "leads (in_step gr R ns n view st0 p) (add_finalizer_phase R p wk) (lawfully gr R ns n view st0)"
      unfolding add_finalizer_phase_def by (intro leads_bind leads_branch live leads_last keeping)
    show "leads (in_step gr R ns n view st0 p) (finalize R p wk) (lawfully gr R ns n view st0)"
      by (intro leads_last keeping)
  qed
  have "in_step gr R ns n view st0 p ?t" if "g = Inr p" for p
  proof (rule known_in_step [OF _ t])
    show "known ns n view (sy_World ?t) p"
      using tracksD(3) [OF st g [unfolded that]] tracksD(5) [OF st g] by (simp add: known_def)
  qed
  then show "wp (Reconcile R m k) (\<lambda>_. lawfully gr R ns n view st0) s"
    unfolding Reconcile_def using t g phases by (cases g) (auto simp: leads_def Let_def)
qed

section \<open>The other two loops\<close>

lemma durable_classify [keeping]:
  assumes [keeping]: "other_calls_leave A v"
  shows "keeps (durable v) (classifyInFlight L A p now timeout)"
  by (auto simp: classifyInFlight_def Let_def intro!: keeping)

lemma lawfully_sweep_loop:
  fixes R :: "'w reconciler"
  assumes st: "tracks gr (rc_API R) ns n view"
  shows "lawfully gr R ns n view st0 s \<Longrightarrow> \<forall>p \<in> set ps. in_step gr R ns n view st0 p s \<Longrightarrow>
    wp (sweep_loop L (rc_API R) now timeout keys ps) (\<lambda>_. lawfully gr R ns n view st0) s"
proof (induction ps arbitrary: keys s)
  case (Cons p ps)
  note calls [keeping] = tracksD(6) [OF st]
  let ?I = "lawfully gr R ns n view st0" and ?S = "in_step gr R ns n view st0"
  have rest: "wp (sweep_loop L (rc_API R) now timeout keys' ps) (\<lambda>_. ?I) t"
    if "durable view t = durable view s" for keys' t
    by (rule Cons.IH) (use that Cons.prems durable_lawfully [OF that] durable_in_step [OF that] in auto)
  have same_I: "?I t" if "durable view t = durable view s" for t
    using durable_lawfully [OF that] Cons.prems(1) by blast
  have close: "wp (Persist (rc_API R) (p\<lparr>p_Status := CompleteInFlight L (p_Status p) now out\<rparr>))
      (\<lambda>r u. wp (case fst r of Inl e \<Rightarrow> ret (keys', Some e) | Inr _ \<Rightarrow> sweep_loop L (rc_API R) now timeout keys' ps) (\<lambda>_. ?I) u) t"
    if t: "durable view t = durable view s" for out keys' t
  proof (rule wp_mono [OF Persist_tracks [OF st]], clarify)
    let ?p = "p\<lparr>p_Status := CompleteInFlight L (p_Status p) now out\<rparr>"
    fix r :: "unit result" and p' and u :: "'w sys"
    assume u: "if is_ok r then left_with gr ?p p' \<and> persisted gr ns n view ?p t u else refused view t u"
    have wr: "lawful_write ns n p ?p" by (rule same_ledger_write) simp
    have pt: "?S p t" using Cons.prems(2) durable_in_step [OF t] by simp
    have "?I t" using pt by (rule in_step_lawfully)
    show "wp (case fst (r, p') of Inl e \<Rightarrow> ret (keys', Some e) | Inr _ \<Rightarrow> sweep_loop L (rc_API R) now timeout keys' ps) (\<lambda>_. ?I) u"
    proof (cases r)
      case (Inl e)
      then show ?thesis using u refused_in_step(2) [OF _ \<open>?I t\<close>] by simp
    next
      case (Inr x)
      then have w: "persisted gr ns n view ?p t u" and p': "left_with gr ?p p'"
        using u by simp_all
      have p'u: "?S p' u" by (rule persisted_in_step [OF pt wr w p'])
      have "?S q u" if "q \<in> set ps" for q
      proof -
        have "?S q t" using Cons.prems(2) that durable_in_step [OF t, of gr R ns n st0 q] by simp
        then show ?thesis by (rule sibling_in_step [OF pt wr w p'])
      qed
      moreover have "?I u" using p'u by (rule in_step_lawfully)
      ultimately show ?thesis using Cons.IH Inr by simp
    qed
  qed
  show ?case
  proof (cases "st_InFlight (p_Status p) = None")
    case False
    then show ?thesis
      unfolding sweep_loop.simps Let_def
      by (simp only: if_False wp_bind, intro wp_mono [OF keepsD [OF durable_classify [OF calls]]])
         (use same_I rest close in \<open>auto split: sum.splits\<close>)
  qed (use rest [OF refl] in simp)
qed simp

lemma lawfully_expire_tick:
  fixes R :: "'w reconciler"
  assumes st: "tracks gr (rc_API R) ns n view" and E: "ex_API E = rc_API R"
  shows "preserves (lawfully gr R ns n view st0) (expire_tick E now)"
proof -
  let ?I = "lawfully gr R ns n view st0"
  have quiet: "keeps (durable view) m \<Longrightarrow> preserves ?I m" for m :: "('w, 'b) op"
    unfolding preserves_def by (blast intro: wp_mono [OF keepsD] dest: durable_lawfully)
  have "wp (SweepInFlight L (rc_API R) now timeout) (\<lambda>_. ?I) s" if "?I s" for L timeout s
  proof -
    obtain l w where l: "a_ListPolicies (rc_API R) '''' (sy_World s) = (l, w)" by fastforce
    have w: "view w = view (sy_World s)"
      using tracksD(6) [OF st] l unfolding other_calls_leave_def leaves_def by (metis snd_conv)
    then have I: "?I (s\<lparr>sy_World := w\<rparr>)" using that by (simp add: lawfully_def overran_def)
    have "in_step gr R ns n view st0 p (s\<lparr>sy_World := w\<rparr>)" if "l = Inr ps" "p \<in> set ps" for ps p
      by (rule known_in_step [OF _ I]) (use tracksD(4) [OF st l [unfolded that(1)] that(2)] w in \<open>simp add: known_def\<close>)
    then show ?thesis
      unfolding SweepInFlight_def using I lawfully_sweep_loop [OF st] l by (cases l) simp_all
  qed
  then have "preserves ?I (SweepInFlight L (rc_API R) now timeout)" for L timeout by (rule preservesI)
  moreover have "keeps (durable view) (release_keys ks)" for ks :: "string list" by (induction ks) (auto intro!: keeping)
  moreover have "keeps (durable view) set_inflight" unfolding set_inflight_def by (intro keeping) simp
  ultimately show ?thesis
    unfolding expire_tick_def sweep_slots_def expire_slots_def E
    by (intro preserving) (auto intro: quiet intro!: keeping)
qed

lemma durable_sampleOnce:
  assumes [keeping]: "other_calls_leave (sm_API S) v"
    and [keeping]: "keeps (durable v) (src_ListUsage (sm_Source S) (sm_Namespaces S))"
  shows "keeps (durable v) (sampleOnce S)"
proof -
  have "keeps (durable v) (sample_targets byKey now pod ts live enqueue)" for byKey now pod ts live enqueue
    by (induction ts arbitrary: live enqueue) (auto simp: Let_def intro!: keeping split: option.split)
  note [keeping] = this
  have "keeps (durable v) (sample_pods byKey now cfg wkey pods k enqueue)" for byKey now cfg wkey pods k enqueue
    by (induction pods arbitrary: k enqueue) (auto intro!: keeping split: prod.split)
  note [keeping] = this
  have "keeps (durable v) (sample_policy S byKey now p k)" for byKey now p k
    unfolding sample_policy_def by (intro keeping) simp_all
  then have [keeping]: "keeps (durable v) (sample_policies S byKey now ps k)" for byKey now ps k
    by (induction ps arbitrary: k) (auto intro!: keeping)
  have [keeping]: "keeps (durable v) (set_gauges nm x m)" for nm x m by (induction m) (auto intro!: keeping)
  have [keeping]: "keeps (durable v) (rewrite_gauges k)" for k unfolding rewrite_gauges_def by (intro keeping) simp_all
  have "keeps (durable v) (listPolicies_loop (sm_API S) nss out)" for nss out
    by (induction nss arbitrary: out) (auto intro!: keeping)
  then have [keeping]: "keeps (durable v) (listPolicies S)" by (simp add: listPolicies_def)
  show ?thesis unfolding sampleOnce_def by (intro keeping) simp_all
qed

text \<open>The three datasources only read.\<close>

lemma durable_sources:
  assumes [keeping]: "other_calls_leave A v" and mc: "\<And>c m k. mc = Some c \<Longrightarrow> leaves v (c m k)"
    and src: "NewSource N A opts mc = Inr src"
  shows "keeps (durable v) (src_ListUsage src nss)"
proof -
  have [keeping]: "keeps (durable v) (getJSON A url hs dec)" for url hs and dec :: "json \<Rightarrow> 'c result"
    unfolding getJSON_def by (auto intro!: keeping)
  have prom: "keeps (durable v) (prom_ListUsage N A po nss)" for po
    unfolding prom_ListUsage_def prom_query_def by (auto intro!: keeping)
  have dd: "keeps (durable v) (dd_ListUsage N A dd nss)" for dd
    unfolding dd_ListUsage_def dd_queryRange_def by (auto intro!: keeping)
  have ms: "keeps (durable v) (ms_ListUsage c nss)" if "mc = Some c" for c
  proof -
    have [keeping]: "keeps (durable v) (call (c m k))" for m k by (rule durable_call [OF mc [OF that]])
    have "keeps (durable v) (ms_list_loop c nss out)" for nss out
      by (induction nss arbitrary: out) (auto intro!: keeping)
    then show ?thesis by (simp add: ms_ListUsage_def)
  qed
  show ?thesis
    using src prom dd ms by (auto simp: NewSource_def split: if_splits option.splits sum.splits)
qed

section \<open>Runs\<close>

text \<open>The parts \<open>run\<close> hands over share the cluster client, and the sampler has the source the flags ask for.\<close>

definition of_host :: "'w host \<Rightarrow> flags \<Rightarrow> 'w controller \<Rightarrow> bool" where
  "of_host H F C \<longleftrightarrow> rc_API (co_Reconciler C) = ho_API H \<and> rc_Lib (co_Reconciler C) = ho_Lib H \<and> sm_API (co_Sampler C) = ho_API H
     \<and> ex_API (co_Expirer C) = ho_API H \<and> build_source H F = Inr (sm_Source (co_Sampler C))"

lemma run_of_host: "run_state (run H F) s = (Inr C, t) \<Longrightarrow> of_host H F C"
proof -
  have "starts (of_host H F) (setup_controller H F growth detMode src)" if "build_source H F = Inr src" for growth detMode src
    unfolding setup_controller_def
    by (intro starts_rules) (use that in \<open>simp add: of_host_def build_controller_def newExpirer_def Let_def\<close>)
  then have "starts (of_host H F) (run H F)" unfolding run_def by (intro starts_rules) auto
  then show "run_state (run H F) s = (Inr C, t) \<Longrightarrow> of_host H F C"
    by (auto simp: starts_def dest: spec [of _ s] wp_run)
qed

text \<open>
  A run in which nobody else touches \<open>v\<close>: the steps of the controller and the replacements of its process, and
  changes of the world that leave \<open>v\<close> alone.
\<close>

definition own_step :: "'w controller \<Rightarrow> 'w sys \<Rightarrow> 'w sys \<Rightarrow> bool" where
  "own_step C s t \<longleftrightarrow> (\<exists>m k r. run_state (Reconcile (co_Reconciler C) m k) s = (r, t))
     \<or> (\<exists>u. run_state (sampleOnce (co_Sampler C)) s = (u, t)) \<or> (\<exists>now e. run_state (expire_tick (co_Expirer C) now) s = (e, t))
     \<or> t = (boot C (sy_World s))\<lparr>sy_Trace := sy_Trace s\<rparr>"

inductive undisturbed :: "('w \<Rightarrow> 'v) \<Rightarrow> 'w controller \<Rightarrow> 'w \<Rightarrow> 'w sys \<Rightarrow> bool" for v C w where
  start: "undisturbed v C w (boot C w)"
| own: "undisturbed v C w s \<Longrightarrow> own_step C s t \<Longrightarrow> undisturbed v C w t"
| others: "undisturbed v C w s \<Longrightarrow> v x = v (sy_World s) \<Longrightarrow> undisturbed v C w (s\<lparr>sy_World := x\<rparr>)"

lemma own_step_ctl: "own_step C s t \<Longrightarrow> ctl_step C s t"
  by (auto simp: own_step_def intro: ctl_step.intros)

lemma undisturbed_reachable: "undisturbed v C w s \<Longrightarrow> reachable C w s"
  by (induction rule: undisturbed.induct) (auto intro: reachable.intros ctl_step.outside own_step_ctl)

definition metrics_leave :: "'w host \<Rightarrow> ('w \<Rightarrow> 'v) \<Rightarrow> bool" where
  "metrics_leave H v \<longleftrightarrow> (\<forall>c m k. ho_MetricsClient H = Inr c \<longrightarrow> leaves v (c m k))"

lemma durable_sampler:
  assumes C: "of_host H F C" and A: "other_calls_leave (ho_API H) v" and mc: "metrics_leave H v"
  shows "keeps (durable v) (sampleOnce (co_Sampler C))"
proof -
  obtain opts mc' where new: "NewSource (ho_Net H) (ho_API H) opts mc' = Inr (sm_Source (co_Sampler C))"
    and mc': "mc' = None \<or> (\<exists>c. ho_MetricsClient H = Inr c \<and> mc' = Some c)"
    using C by (auto simp: of_host_def build_source_def Let_def split: if_splits sum.splits)
  have "leaves v (c m k)" if "mc' = Some c" for c m k using mc mc' that by (simp add: metrics_leave_def)
  then have "keeps (durable v) (src_ListUsage (sm_Source (co_Sampler C)) nss)" for nss
    by (rule durable_sources [OF A _ new])
  then show ?thesis using C A by (intro durable_sampleOnce) (simp_all add: of_host_def)
qed

text \<open>
  A sweep takes its time: between the listing and the write that closes a policy the other steps go on. So the
  closing of one policy is a step by itself, of an object as a listing may have had it, which by then may be
  outdated; and the runs of the overlapping controller are these.
\<close>

inductive interleaved ::
    "string \<Rightarrow> string \<Rightarrow> ('w \<Rightarrow> policy_status \<times> string set) \<Rightarrow> 'w controller \<Rightarrow> 'w \<Rightarrow> 'w sys \<Rightarrow> bool" for ns n view C w where
  start: "interleaved ns n view C w (boot C w)"
| own: "interleaved ns n view C w s \<Longrightarrow> own_step C s t \<Longrightarrow> interleaved ns n view C w t"
| closing: "interleaved ns n view C w s \<Longrightarrow> known ns n view (sy_World s) p \<Longrightarrow>
    run_state (sweep_loop (ex_Lib (co_Expirer C)) (ex_API (co_Expirer C)) now (ex_Timeout (co_Expirer C)) keys [p]) s = (r, t) \<Longrightarrow>
    interleaved ns n view C w t"
| others: "interleaved ns n view C w s \<Longrightarrow> view x = view (sy_World s) \<Longrightarrow> interleaved ns n view C w (s\<lparr>sy_World := x\<rparr>)"

lemma undisturbed_interleaved: "undisturbed view C w s \<Longrightarrow> interleaved ns n view C w s"
  by (induction rule: undisturbed.induct) (blast intro: interleaved.intros)+

lemma interleaved_lawfully:
  fixes C :: "'w controller"
  assumes C: "of_host H F C" and st: "tracks gr (ho_API H) ns n view" and mc: "metrics_leave H view"
    and "coarse gr (fst (view w))" and "interleaved ns n view C w s"
  shows "lawfully gr (co_Reconciler C) ns n view (fst (view w)) s"
  using assms(5)
proof (induction rule: interleaved.induct)
  case start
  show ?case using assms(4) by (simp add: lawfully_def boot_def deeds_def)
next
  case (own s t)
  let ?R = "co_Reconciler C"
  have R: "tracks gr (rc_API ?R) ns n view" using C st by (simp add: of_host_def)
  have reconcile: ?case if "run_state (Reconcile ?R m k) s = (r, t)" for m k r
    using preserves_run [OF lawfully_Reconcile [OF R] own.IH that] .
  have sample: ?case if "run_state (sampleOnce (co_Sampler C)) s = (u, t)" for u
  proof -
    have "keeps (durable view) (sampleOnce (co_Sampler C))" by (rule durable_sampler [OF C tracksD(6) [OF st] mc])
    from durable_lawfully [OF keeps_run [OF this that]] own.IH show ?thesis by blast
  qed
  have expire: ?case if "run_state (expire_tick (co_Expirer C) now) s = (e, t)" for now e
  proof -
    have "ex_API (co_Expirer C) = rc_API ?R" using C by (simp add: of_host_def)
    from preserves_run [OF lawfully_expire_tick [OF R this] own.IH that] show ?thesis .
  qed
  have failover: ?case if "t = (boot C (sy_World s))\<lparr>sy_Trace := sy_Trace s\<rparr>"
    using own.IH that by (simp add: lawfully_def overran_def boot_def)
  from own.hyps(2) show ?case
    unfolding own_step_def using reconcile sample expire failover by blast
next
  case (closing s p now keys r t)
  let ?R = "co_Reconciler C"
  have R: "tracks gr (rc_API ?R) ns n view" and E: "ex_API (co_Expirer C) = rc_API ?R" using C st by (simp_all add: of_host_def)
  have "\<forall>q \<in> set [p]. in_step gr ?R ns n view (fst (view w)) q s"
    using known_in_step [OF closing.hyps(2) closing.IH] by simp
  from wp_run [OF lawfully_sweep_loop [OF R closing.IH this] closing.hyps(3) [unfolded E]] show ?case .
next
  case (others s x)
  then show ?case by (simp add: lawfully_def overran_def)
qed

lemma interleaved_lawful:
  fixes C :: "'w controller"
  assumes "of_host H F C" "tracks gr (ho_API H) ns n view" "metrics_leave H view" "coarse gr (fst (view w))"
    and "interleaved ns n view C w s" "lagging view \<longrightarrow> \<not> retried ns n (attempts (sy_Trace s))" "sy_Trace s = newer @ older"
  shows "lawful gr (rc_Lib (co_Reconciler C)) (settings (co_Reconciler C) ns n) ns n (fst (view w)) (deeds newer @ deeds older)"
  using interleaved_lawfully [OF assms(1-5)] assms(6,7) by (auto simp: lawfully_def overran_def deeds_append)

end
