(* ===== verification/EndToEnd.thy ===== *)
theory EndToEnd
  imports MetricsUse Durable
begin

text \<open>
  One leak from the first reading to the finished rollout, by evaluation of the whole model: the program
  started with its default flags on a small cluster, two ticks of its sampler ten minutes apart, and a
  reconcile of the one policy. The properties of the running controller are exercised on these states. And a
  sweep whose listing is older than the status it writes over.
\<close>

section \<open>A cluster with a leaking container\<close>

definition leak_annotations :: labels where
  "leak_annotations = fmap_of_list [(AnnotationDeploymentRevision, ''7'')]"

definition noon :: time where "noon = 1709208000000000000"

text \<open>The workload was last restarted a day before.\<close>

definition leak_policy :: policy where
  "leak_policy = demo_policy (empty_status\<lparr>st_WorkloadUID := ''u1'', st_LastRestartAt := Some (noon - 1440 * Minute)\<rparr>)"

definition leak_cluster :: "time \<Rightarrow> cluster" where
  "leak_cluster t = \<lparr>cl_Now = t, cl_Policies = [leak_policy],
     cl_Deployments = [(demo_deployment None)\<lparr>dp_Annotations := leak_annotations\<rparr>],
     cl_ReplicaSets = [\<lparr>rs_Namespace = ''prod'', rs_Name = ''web-rs'', rs_Annotations = leak_annotations, rs_Labels = fmempty,
       rs_Owners = [\<lparr>or_Kind = ''Deployment'', or_Name = ''web'', or_Controller = True\<rparr>]\<rparr>],
     cl_Pods = [demo_pod]\<rparr>"

text \<open>The metrics server reports 98 of the 100 bytes of the limit.\<close>

definition leak_metrics :: "cluster metrics_client" where
  "leak_metrics ns n w = (Inr [\<lparr>pm_Namespace = ''prod'', pm_Name = ''web-1'',
     pm_Containers = [(''app'', \<lparr>q_Value = 98, q_String = ''98''\<rparr>)]\<rparr>], w)"

text \<open>
  The API server of the cluster: that of the demo, with one spec for every policy, and with the times of a status
  kept in whole seconds.
\<close>

definition leak_api :: "cluster api" where
  "leak_api = demo_api\<lparr>a_GetPolicy := \<lambda>ns n w.
     (map_sum id (\<lambda>p. p\<lparr>p_Spec := demo_spec\<rparr>) (fst (a_GetPolicy demo_api ns n w)), w),
     a_UpdateStatus := write_policy (\<lambda>q p. q\<lparr>p_Status := stored Second (p_Status p)\<rparr>)\<rparr>"

definition leak_host :: "cluster host" where
  "leak_host = demo_host\<lparr>ho_API := leak_api, ho_MetricsClient := Inr leak_metrics\<rparr>"

definition leak_start :: "(err + cluster controller) \<times> cluster sys" where
  "leak_start = run_state (run leak_host default_flags) (demo_sys (leak_cluster 0) (NewGate 0) (NewStore 0 0))"

definition leak_controller :: "cluster controller" where
  "leak_controller = build_controller leak_host default_flags
     \<lparr>src_Name = TypeMetricsServer, src_Probe = ms_Probe leak_metrics [], src_ListUsage = ms_ListUsage leak_metrics\<rparr>
     (build_defaults ModeSustained \<lparr>q_Value = 104857600, q_String = ''100Mi''\<rparr> default_flags) [] None None (1230 * Second) 28"

text \<open>The states: booted, sampled, ten minutes later, sampled again, reconciled.\<close>

definition leak_0 where "leak_0 = boot leak_controller (leak_cluster noon)"
definition leak_1 where "leak_1 = snd (run_state (sampleOnce (co_Sampler leak_controller)) leak_0)"
definition leak_2 where "leak_2 = leak_1\<lparr>sy_World := leak_cluster (noon + 10 * Minute)\<rparr>"
definition leak_3 where "leak_3 = snd (run_state (sampleOnce (co_Sampler leak_controller)) leak_2)"
definition leak_4 where "leak_4 = snd (run_state (Reconcile (co_Reconciler leak_controller) ''prod'' ''web-policy'') leak_3)"

text \<open>The start succeeds whatever the API server answers.\<close>

definition leak_controller_on :: "cluster api \<Rightarrow> cluster controller" where
  "leak_controller_on A = build_controller (leak_host\<lparr>ho_API := A\<rparr>) default_flags
     \<lparr>src_Name = TypeMetricsServer, src_Probe = ms_Probe leak_metrics [], src_ListUsage = ms_ListUsage leak_metrics\<rparr>
     (build_defaults ModeSustained \<lparr>q_Value = 104857600, q_String = ''100Mi''\<rparr> default_flags) [] None None (1230 * Second) 28"

lemma leak_steps:
  fixes A :: "cluster api"
  defines "H \<equiv> leak_host\<lparr>ho_API := A\<rparr>"
  shows "ho_ParseQuantity H v = Inr \<lparr>q_Value = 104857600, q_String = v\<rparr>" "ho_NewManager H scope = Inr ()"
    "ho_Manager H what = Inr ()" "SetupWithManager (ho_Complete H) ev = Inr ()"
    "ParseMode (fl_Mode default_flags) = Inr ModeSustained"
    "cache_namespaces own default_flags = Inr None" "build_capturer H default_flags = Inr None"
    "buildNotifier H events site channel path = Inr None" "fl_TrendMinGrowth default_flags = ''100Mi''"
  by (simp_all add: H_def leak_host_def demo_host_def default_flags_def ParseMode_def mode_defs cache_namespaces_def
      build_capturer_def buildNotifier_def default_sinks_def LoadRoutes_def SetupWithManager_def Let_def)

lemma leak_started_on: "fst (run_state (run (leak_host\<lparr>ho_API := A\<rparr>) default_flags)
    (demo_sys (leak_cluster 0) (NewGate 0) (NewStore 0 0))) = Inr (leak_controller_on A)"
proof -
  let ?H = "leak_host\<lparr>ho_API := A\<rparr>"
  have src: "build_source ?H default_flags = Inr \<lparr>src_Name = TypeMetricsServer, src_Probe = ms_Probe leak_metrics [],
      src_ListUsage = ms_ListUsage leak_metrics\<rparr>"
    by (simp add: build_source_def default_flags_def leak_host_def TypeMetricsServer_def NewSource_def source_options_def)
  have lib: "l_tzdb (ho_Lib ?H) = l_tzdb demo_lib" by (simp add: leak_host_def demo_host_def)
  obtain cs where "RegisterMetrics (ho_Register ?H) [] = Inr cs" using demo_registered by (auto simp: leak_host_def)
  then have "wp (run ?H default_flags) (\<lambda>r _. r = Inr (leak_controller_on A)) (demo_sys (leak_cluster 0) (NewGate 0) (NewStore 0 0))"
    unfolding run_def
    by (simp add: setup_controller_def guarded_def src demo_windows demo_buffer leak_steps [simplified] ms_Probe_def leak_metrics_def
        leak_controller_on_def)
  then show ?thesis by (simp add: wp_def split: prod.splits)
qed

lemma leak_started: "run_state (run leak_host default_flags) (demo_sys (leak_cluster 0) (NewGate 0) (NewStore 0 0))
    = (Inr leak_controller, snd leak_start)"
proof -
  have "leak_host\<lparr>ho_API := ho_API leak_host\<rparr> = leak_host" by simp
  with leak_started_on [of "ho_API leak_host"] show ?thesis
    by (simp add: leak_start_def leak_controller_on_def leak_controller_def prod_eq_iff)
qed

lemma leak_reachable: "reachable leak_controller (leak_cluster noon) leak_4"
proof -
  have "reachable leak_controller (leak_cluster noon) leak_0" unfolding leak_0_def by (rule reachable.start)
  then have "reachable leak_controller (leak_cluster noon) leak_1"
    unfolding leak_1_def by (rule reachable.step) (rule ctl_step.sampling, rule prod.collapse [symmetric])
  then have "reachable leak_controller (leak_cluster noon) leak_2"
    unfolding leak_2_def by (rule reachable.step) (rule ctl_step.outside)
  then have "reachable leak_controller (leak_cluster noon) leak_3"
    unfolding leak_3_def by (rule reachable.step) (rule ctl_step.sampling, rule prod.collapse [symmetric])
  then show ?thesis
    unfolding leak_4_def by (rule reachable.step) (rule ctl_step.reconciling, rule prod.collapse [symmetric])
qed

section \<open>What happens\<close>

text \<open>The second sample covers the window, so the sampler queues the policy.\<close>

lemma leak_queued: "EEnqueue ''prod'' ''web-policy'' \<in> set (sy_Trace leak_3)"
  by code_simp

text \<open>The first reconcile restarts the workload under a slot.\<close>

lemma leak_world: "sy_World leak_3 = leak_cluster (noon + 10 * Minute)"
  by code_simp

definition is_patch :: "effect \<Rightarrow> bool" where
  "is_patch e = (\<not> no_patch e)"

lemma leak_sampled:
  "sy_Gate leak_3 = NewGate 1" "filter is_patch (sy_Trace leak_3) = []"
proof -
  have src: "usage_source (sm_Source (co_Sampler leak_controller))"
    using run_contracted [OF leak_started] by (simp add: contracted_def)
  have "sy_Gate leak_3 = sy_Gate leak_2" "sy_Gate leak_1 = sy_Gate leak_0"
    unfolding leak_3_def leak_1_def by (rule keeps_run [OF keeps_gate_sampleOnce [OF src] prod.collapse [symmetric]])+
  then show "sy_Gate leak_3 = NewGate 1"
    by (simp add: leak_2_def leak_0_def boot_def leak_controller_def build_controller_def default_flags_def Let_def)
  obtain es fs where "sy_Trace leak_3 = es @ sy_Trace leak_2" "list_all no_patch es"
    "sy_Trace leak_1 = fs @ sy_Trace leak_0" "list_all no_patch fs"
    unfolding leak_3_def leak_1_def
    using adds_run [OF adds_sampleOnce [OF src] prod.collapse [symmetric]] by metis
  then show "filter is_patch (sy_Trace leak_3) = []"
    by (auto simp: leak_2_def leak_0_def boot_def list_all_iff is_patch_def filter_empty_conv)
qed

definition leak_workload :: workload where
  "leak_workload = (bare_workload KindDeployment ''prod'' ''web'')
     \<lparr>wl_dep := Some ((demo_deployment None)\<lparr>dp_Annotations := leak_annotations\<rparr>)\<rparr>"

definition leak_config :: pod_config where
  "leak_config = ResolvePolicy (rc_Defaults (co_Reconciler leak_controller)) demo_spec"

text \<open>The reconcile gets as far as the detection: nothing is in flight and the Deployment has settled.\<close>

lemma leak_detects: "leak_4 = snd (run_state (detect_phase (co_Reconciler leak_controller) leak_workload leak_config
    (noon + 10 * Minute) leak_policy ''Deployment/prod/web'' (TemplateVersion demo_lib leak_workload)) leak_3)"
proof -
  have R: "rc_Lib (co_Reconciler leak_controller) = demo_lib" "rc_API (co_Reconciler leak_controller) = leak_api"
    by (simp_all add: leak_controller_def build_controller_def leak_host_def demo_host_def Let_def)
  have api: "a_GetPolicy leak_api ''prod'' ''web-policy'' (leak_cluster t) = (Inr leak_policy, leak_cluster t)"
    "a_Now leak_api (leak_cluster t) = (t, leak_cluster t)"
    "a_GetDeployment leak_api ''prod'' ''web'' (leak_cluster t) = (Inr ((demo_deployment None)\<lparr>dp_Annotations := leak_annotations\<rparr>), leak_cluster t)"
    for t by (simp_all add: leak_api_def demo_api_def leak_cluster_def as_found_def leak_policy_def demo_policy_def demo_deployment_def)
  have p: "p_DeletionTimestamp leak_policy = None" "p_Spec leak_policy = demo_spec" "p_Namespace leak_policy = ''prod''"
    "p_Finalizers leak_policy = [PolicyFinalizer]" "st_WorkloadUID (p_Status leak_policy) = ''u1''"
    "st_DryRun (p_Status leak_policy) = False" "leak_policy\<lparr>p_Status := AdoptWorkload (p_Status leak_policy) ''u1''\<rparr> = leak_policy"
    by (simp_all add: leak_policy_def demo_policy_def PolicyFinalizer_def empty_status_def AdoptWorkload_def)
  have l: "l_AddFinalizer demo_lib [PolicyFinalizer] PolicyFinalizer = ([PolicyFinalizer], False)" by (simp add: demo_lib_def)
  have d: "wr_Kind (sp_WorkloadRef demo_spec) = KindDeployment" "wr_Name (sp_WorkloadRef demo_spec) = ''web''"
    "pc_DryRun leak_config = False"
    by (simp_all add: demo_spec_def leak_config_def ResolvePolicy_def Let_def)
  have w: "IsSettled demo_lib leak_workload = Inr True" "Workload_UID leak_workload = Inr ''u1''" by code_simp+
  have g: "\<not> Holds (sy_Gate leak_3) ''Deployment/prod/web''" by (simp add: leak_sampled(1))
  have k: "WorkloadKey KindDeployment ''prod'' ''web'' = ''Deployment/prod/web''" by (simp add: WorkloadKey_def kind_defs)
  have s: "leak_3\<lparr>sy_World := leak_cluster (noon + 10 * Minute)\<rparr> = leak_3" by (simp add: leak_world [symmetric])
  note dep = leak_workload_def [symmetric]
  show ?thesis
    unfolding leak_4_def Reconcile_def add_finalizer_phase_def live_phase_def get_workload_phase_def workload_phase_def
      settle_phase_def GetWorkload_def Let_def
    by (simp add: State_Monad.bind_def call_def R api p l d w g k s leak_world leak_config_def [symmetric] dep get_gate_def)
qed

text \<open>It finds the leak in the pod's container.\<close>

definition leak_breach :: breach where
  "leak_breach = \<lparr>br_Target = \<lparr>tg_Name = ''app'', tg_LimitBytes = 100, tg_Det = ForContainer leak_config ''app''\<rparr>, br_Pod = demo_pod,
     br_Result = \<lparr>res_Leaking = True, res_Reason = ''working set stayed above threshold for the full window'',
       res_Observed = 98, res_Threshold = 85\<rparr>,
     br_Samples = [\<lparr>s_Time = noon, s_WorkingSet = 98, s_Limit = 100\<rparr>,
       \<lparr>s_Time = noon + 10 * Minute, s_WorkingSet = 98, s_Limit = 100\<rparr>]\<rparr>"

text \<open>Reading the cluster changes nothing.\<close>

lemma keeps_all_call: "(\<And>w. snd (f w) = w) \<Longrightarrow> keeps (\<lambda>s. s) (call f)"
  by (auto simp: keeps_def split: prod.split) (metis snd_conv sys.surjective sys.update_convs(1))

lemma demo_reads [keeping]:
  "keeps (\<lambda>s. s) (call (a_Now leak_api))" "keeps (\<lambda>s. s) (call (a_ListPods leak_api ns sel))"
  "keeps (\<lambda>s. s) (call (a_GetDeployment leak_api ns n))" "keeps (\<lambda>s. s) (call (a_GetReplicaSet leak_api ns n))"
  "keeps (\<lambda>s. s) (call (a_GetStatefulSet leak_api ns n))" "keeps (\<lambda>s. s) (call (a_GetRollout leak_api ns n))"
  by (rule keeps_all_call; simp add: leak_api_def demo_api_def)+

lemma leak_parts: "rc_Lib (co_Reconciler leak_controller) = demo_lib" "rc_API (co_Reconciler leak_controller) = leak_api"
  by (simp_all add: leak_controller_def build_controller_def leak_host_def demo_host_def Let_def)

lemma run_keeps_all: "keeps (\<lambda>s. s) m \<Longrightarrow> fst (run_state m s) = a \<Longrightarrow> run_state m s = (a, s)"
  by (metis keeps_run prod.collapse)

lemma leak_pods: "run_state (listWorkloadPods demo_lib leak_api leak_workload) leak_3 = (Inr [demo_pod], leak_3)"
proof (rule run_keeps_all)
  have "PodSelector demo_lib leak_workload = Inr (\<lambda>m. True)"
    by (simp add: PodSelector_def leak_workload_def bare_workload_def demo_deployment_def demo_lib_def kind_defs)
  then show "fst (run_state (listWorkloadPods demo_lib leak_api leak_workload) leak_3) = Inr [demo_pod]"
    by (simp add: listWorkloadPods_def call_def leak_world leak_api_def demo_api_def leak_cluster_def leak_workload_def bare_workload_def demo_pod_def)
qed (unfold listWorkloadPods_def, intro keeping)

lemma leak_age: "run_state (podAge leak_api demo_pod) leak_3 = (noon + 10 * Minute - 1, leak_3)"
proof (rule run_keeps_all)
  show "fst (run_state (podAge leak_api demo_pod) leak_3) = noon + 10 * Minute - 1"
    by (simp add: podAge_def demo_pod_def State_Monad.bind_def call_def leak_world leak_api_def demo_api_def leak_cluster_def noon_def
        duration_units time_Sub_def time_IsZero_def zero_time_def minDuration_def maxDuration_def)
qed (unfold podAge_def, intro keeping)

definition leak_owner :: workload where
  "leak_owner = leak_workload\<lparr>wl_rs := Some (hd (cl_ReplicaSets (leak_cluster 0))), wl_pod := Some demo_pod\<rparr>"

lemma leak_owned:
  "run_state (ResolveOwner demo_lib leak_api demo_pod (rc_Kinds (co_Reconciler leak_controller))) leak_3 = (Inr leak_owner, leak_3)"
proof (rule run_keeps_all)
  have "kd_Deployments (rc_Kinds (co_Reconciler leak_controller))"
    by (simp add: leak_controller_def build_controller_def default_flags_def Let_def)
  then show "fst (run_state (ResolveOwner demo_lib leak_api demo_pod (rc_Kinds (co_Reconciler leak_controller))) leak_3) = Inr leak_owner"
    by (simp add: ResolveOwner_def resolve_replicaset_def demo_pod_def demo_lib_def State_Monad.bind_def call_def leak_world
        leak_api_def demo_api_def leak_cluster_def as_found_def demo_deployment_def leak_owner_def leak_workload_def bare_workload_def)
qed (unfold ResolveOwner_def resolve_replicaset_def resolve_statefulset_def, intro keeping)

lemma keeps_all_targets: "keeps (\<lambda>s. s) (scan_targets pod now ts)"
  by (induction ts) (auto simp: Let_def intro!: keeping)

lemma leak_scanned:
  "run_state (scan_owned (co_Reconciler leak_controller) leak_config (noon + 10 * Minute) demo_pod) leak_3 = (Some leak_breach, leak_3)"
proof -
  have targets: "SelectTargets demo_pod leak_config = ([br_Target leak_breach], 0)" by code_simp
  have samples: "Samples (sy_Samples leak_3) \<lparr>k_Namespace = pod_Namespace demo_pod, k_Pod = pod_Name demo_pod,
      k_Container = tg_Name (br_Target leak_breach)\<rparr> = br_Samples leak_breach" by code_simp
  have verdict: "Detect (br_Samples leak_breach) (tg_Det (br_Target leak_breach)) (noon + 10 * Minute) = br_Result leak_breach"
    "res_Leaking (br_Result leak_breach)"
    "WindowSamples (br_Samples leak_breach) (d_Window (tg_Det (br_Target leak_breach))) (noon + 10 * Minute) = br_Samples leak_breach"
    by code_simp+
  have "br_Pod leak_breach = demo_pod" by (simp add: leak_breach_def)
  then show ?thesis
    by (simp add: scan_owned_def targets State_Monad.bind_def get_samples_def samples verdict)
qed

lemma leak_found: "run_state (scan_pod (co_Reconciler leak_controller) leak_config (noon + 10 * Minute) demo_pod) leak_3
    = (Inr (Some leak_breach), leak_3)"
proof -
  have p: "podReady demo_pod" "IsCurrentRevision demo_lib leak_owner = Inr True" "\<not> noon + 10 * Minute - 1 < pc_StartupGrace leak_config"
    by code_simp+
  show ?thesis
    by (simp add: scan_pod_def leak_parts p State_Monad.bind_def leak_age leak_owned leak_scanned)
qed

lemma leak_handled: "leak_4 = snd (run_state (handle_breach (co_Reconciler leak_controller) leak_workload leak_config leak_breach
    (noon + 10 * Minute) leak_policy ''Deployment/prod/web'' (TemplateVersion demo_lib leak_workload)) leak_3)"
  unfolding leak_detects detect_phase_def by (simp add: State_Monad.bind_def leak_parts leak_pods leak_found)

text \<open>It restarts the Deployment once, under a slot.\<close>

lemma leak_handles:
  "(case filter is_patch (sy_Trace (snd (run_state
      (handle_breach (co_Reconciler leak_controller) leak_workload leak_config leak_breach (noon + 10 * Minute) leak_policy
        ''Deployment/prod/web'' (TemplateVersion demo_lib leak_workload))
      \<lparr>sy_World = leak_cluster (noon + 10 * Minute), sy_Gate = NewGate 1, sy_Samples = st, sy_Warned = wn,
       sy_WouldRestart = wr, sy_Trace = es\<rparr>))) of [] \<Rightarrow> [] | x # xs \<Rightarrow> [xs]) = [filter is_patch es]"
  by code_simp

lemma leak_restarted: "length (filter is_patch (sy_Trace leak_4)) = 1"
proof -
  have s: "leak_3 = \<lparr>sy_World = leak_cluster (noon + 10 * Minute), sy_Gate = NewGate 1, sy_Samples = sy_Samples leak_3,
      sy_Warned = sy_Warned leak_3, sy_WouldRestart = sy_WouldRestart leak_3, sy_Trace = sy_Trace leak_3\<rparr>"
    by (simp add: leak_sampled(1) leak_world [symmetric])
  have "(case filter is_patch (sy_Trace leak_4) of [] \<Rightarrow> [] | x # xs \<Rightarrow> [xs]) = [[]]"
    unfolding leak_handled by (subst s) (simp only: leak_handles leak_sampled(2))
  then show ?thesis by (auto split: list.splits)
qed

section \<open>The same cluster with a policy in dry-run\<close>

definition quiet_api :: "cluster api" where
  "quiet_api = demo_api\<lparr>a_GetPolicy := \<lambda>ns n w. (Inr dry_policy, w)\<rparr>"

definition quiet_end :: "cluster sys" where
  "quiet_end = snd (run_state (Reconcile (co_Reconciler (leak_controller_on quiet_api)) ''prod'' ''web-policy'')
     (boot (leak_controller_on quiet_api) (leak_cluster noon)))"

lemma quiet_unarmed: "unarmed (co_Reconciler (leak_controller_on quiet_api))"
  by (simp add: unarmed_def leak_controller_on_def build_controller_def quiet_api_def dry_policy_def demo_spec_def Let_def)

lemma quiet_reachable: "reachable (leak_controller_on quiet_api) (leak_cluster noon) quiet_end"
  unfolding quiet_end_def
  by (rule reachable.step [OF reachable.start ctl_step.reconciling]) (rule prod.collapse [symmetric])

section \<open>The cluster keeps the status\<close>

definition stored_status :: "string \<Rightarrow> string \<Rightarrow> cluster \<Rightarrow> policy_status" where
  "stored_status ns n w = (case find (\<lambda>p. p_Namespace p = ns \<and> p_Name p = n) (cl_Policies w) of
     None \<Rightarrow> empty_status | Some p \<Rightarrow> p_Status p)"

text \<open>A version is outdated if it is not the stored one up to the bumps of the writes.\<close>

definition lineage :: "string \<Rightarrow> string" where
  "lineage v = rev (dropWhile ((=) CHR ''+'') (rev v))"

definition outdated :: "string \<Rightarrow> string \<Rightarrow> cluster \<Rightarrow> string set" where
  "outdated ns n w = (case find (\<lambda>p. p_Namespace p = ns \<and> p_Name p = n) (cl_Policies w) of
     None \<Rightarrow> {} | Some p \<Rightarrow> {v. lineage v \<noteq> lineage (p_ResourceVersion p)})"

lemma lineage_bump [simp]: "lineage (v @ ''+'') = lineage v"
  by (simp add: lineage_def)

lemma find_key: "find (\<lambda>p. p_Namespace p = ns \<and> p_Name p = n) ps = Some p \<Longrightarrow> p_Namespace p = ns \<and> p_Name p = n"
  by (simp add: find_Some_iff) blast

lemma find_replaced:
  assumes "p_Namespace new = ns \<and> p_Name new = n"
  shows "find (\<lambda>p. p_Namespace p = ns' \<and> p_Name p = n') (map (\<lambda>r. if p_Namespace r = ns \<and> p_Name r = n then new else r) ps)
    = (if ns' = ns \<and> n' = n then map_option (\<lambda>_. new) (find (\<lambda>p. p_Namespace p = ns' \<and> p_Name p = n') ps)
       else find (\<lambda>p. p_Namespace p = ns' \<and> p_Name p = n') ps)"
  using assms by (induction ps) auto

lemma write_policy_stored:
  assumes "write_policy merge p w = (r, w')" and "\<And>q. of_policy (p_Namespace p) (p_Name p) q \<Longrightarrow> of_policy (p_Namespace p) (p_Name p) (merge q p)"
  shows "case r of Inl e \<Rightarrow> w' = w
    | Inr new \<Rightarrow> \<exists>q. find (\<lambda>r. p_Namespace r = p_Namespace p \<and> p_Name r = p_Name p) (cl_Policies w) = Some q
        \<and> new = (merge q p)\<lparr>p_ResourceVersion := p_ResourceVersion q @ ''+''\<rparr> \<and> of_policy (p_Namespace p) (p_Name p) new
        \<and> p_ResourceVersion p = p_ResourceVersion q \<and> outdated ns n w' = outdated ns n w
        \<and> stored_status ns n w' = (if of_policy ns n p then p_Status new else stored_status ns n w)"
proof (cases "find (\<lambda>r. p_Namespace r = p_Namespace p \<and> p_Name r = p_Name p) (cl_Policies w)")
  case None
  then show ?thesis using assms(1) by (auto simp: write_policy_def)
next
  case (Some q)
  let ?new = "(merge q p)\<lparr>p_ResourceVersion := p_ResourceVersion q @ ''+''\<rparr>"
  have new: "p_Namespace ?new = p_Namespace p \<and> p_Name ?new = p_Name p"
    using assms(2) [of q] find_key [OF Some] by (simp add: of_policy_def)
  show ?thesis
  proof (cases "p_ResourceVersion q = p_ResourceVersion p")
    case True
    then have "r = Inr ?new" and w': "cl_Policies w' = map (\<lambda>r. if p_Namespace r = p_Namespace p \<and> p_Name r = p_Name p then ?new else r) (cl_Policies w)"
      using assms(1) Some by (auto simp: write_policy_def Let_def)
    moreover have "stored_status ns n w' = (if of_policy ns n p then p_Status ?new else stored_status ns n w)"
      unfolding stored_status_def w' find_replaced [OF new] using Some by (auto simp: of_policy_def)
    moreover have "outdated ns n w' = outdated ns n w"
      unfolding outdated_def w' find_replaced [OF new] using Some by auto
    ultimately show ?thesis using Some new True by (simp add: of_policy_def)
  qed (use assms(1) Some in \<open>auto simp: write_policy_def\<close>)
qed

lemma map_sum_Inr: "map_sum f g x = Inr y \<longleftrightarrow> (\<exists>z. x = Inr z \<and> y = g z)"
  by (cases x) auto

lemma leak_keeps_status: "keeps_status Second leak_api ns n (stored_status ns n)"
proof -
  let ?find = "\<lambda>m k w. find (\<lambda>p. p_Namespace p = m \<and> p_Name p = k) (cl_Policies w)"
  have "of_policy m k p \<and> (of_policy ns n p \<longrightarrow> p_Status p = stored_status ns n w)"
    if got: "fst (a_GetPolicy leak_api m k w) = Inr p" for m k w p
  proof -
    obtain q where q: "?find m k w = Some q" "p = q\<lparr>p_Spec := demo_spec\<rparr>"
      using got by (auto simp: leak_api_def demo_api_def as_found_def map_sum_Inr split: option.splits)
    then show ?thesis using find_key [OF q(1)] by (auto simp: of_policy_def stored_status_def)
  qed
  moreover have "p_Status p = stored_status ns n w"
    if "fst (a_ListPolicies leak_api m w) = Inr ps" "p \<in> set ps" "of_policy ns n p" for m w ps p
    using that by (auto simp: leak_api_def demo_api_def of_policy_def stored_status_def)
  ultimately have reads: "reads_status leak_api ns n (stored_status ns n)" by (simp add: reads_status_def)
  have writes: "writes_status Second leak_api ns n (stored_status ns n)"
  proof (unfold writes_status_def, intro allI)
    fix p w
    obtain r w' where u: "write_policy (\<lambda>q p. q\<lparr>p_Status := stored Second (p_Status p)\<rparr>) p w = (r, w')" by fastforce
    from write_policy_stored [OF u, of ns n]
    show "case a_UpdateStatus leak_api p w of (Inl e, w') \<Rightarrow> stored_status ns n w' = stored_status ns n w
     | (Inr q, w') \<Rightarrow> of_policy (p_Namespace p) (p_Name p) q \<and> p_Status q = stored Second (p_Status p)
         \<and> stored_status ns n w' = (if of_policy ns n p then stored Second (p_Status p) else stored_status ns n w)"
      using u by (cases r) (auto simp: leak_api_def demo_api_def)
  qed
  have "leaves (stored_status ns n) (write_policy (\<lambda>q p. p\<lparr>p_Status := p_Status q\<rparr>) p)" for p
  proof (unfold leaves_def, intro allI)
    fix w
    obtain r w' where u: "write_policy (\<lambda>q p. p\<lparr>p_Status := p_Status q\<rparr>) p w = (r, w')" by fastforce
    from write_policy_stored [OF u, of ns n]
    show "stored_status ns n (snd (write_policy (\<lambda>q p. p\<lparr>p_Status := p_Status q\<rparr>) p w)) = stored_status ns n w"
      using u by (cases r) (auto simp: of_policy_def stored_status_def)
  qed
  moreover have "leaves (stored_status ns n) (patch_cluster x y)" for x y
    by (simp add: leaves_def patch_cluster_def stored_status_def)
  ultimately have "other_calls_leave leak_api (stored_status ns n)"
    by (simp add: other_calls_leave_def leak_api_def demo_api_def) (simp add: leaves_def)
  with reads writes show ?thesis by (simp add: keeps_status_def)
qed

text \<open>So it takes writes of current objects only.\<close>

definition leak_view :: "string \<Rightarrow> string \<Rightarrow> cluster \<Rightarrow> policy_status \<times> string set" where
  "leak_view ns n w = (stored_status ns n w, outdated ns n w)"

lemma leak_view_sel [simp]: "fst (leak_view ns n w) = stored_status ns n w" "snd (leak_view ns n w) = outdated ns n w"
  by (simp_all add: leak_view_def)

lemma leak_tracks: "tracks Second leak_api ns n (leak_view ns n)"
proof -
  have reads: "reads_known leak_api ns n (leak_view ns n)"
    using leak_keeps_status [of ns n] by (simp add: keeps_status_def reads_status_def reads_known_def known_def list_all_iff)
  have writes: "writes_checked Second leak_api ns n (leak_view ns n)"
  proof (unfold writes_checked_def, intro allI)
    fix p w
    obtain r w' where u: "write_policy (\<lambda>q p. q\<lparr>p_Status := stored Second (p_Status p)\<rparr>) p w = (r, w')" by fastforce
    from write_policy_stored [OF u, of ns n]
    show "case a_UpdateStatus leak_api p w of (Inl e, w') \<Rightarrow> leak_view ns n w' = leak_view ns n w
     | (Inr q, w') \<Rightarrow> of_policy (p_Namespace p) (p_Name p) q \<and> p_Status q = stored Second (p_Status p)
         \<and> (of_policy ns n p \<longrightarrow> p_ResourceVersion p \<notin> snd (leak_view ns n w)) \<and> accepted Second ns n (leak_view ns n) p w w'"
      using u by (cases r) (auto simp: leak_api_def demo_api_def accepted_def leak_view_def outdated_def of_policy_def)
  qed
  have "leaves (outdated ns n) (write_policy (\<lambda>q p. p\<lparr>p_Status := p_Status q\<rparr>) p)" for p
  proof (unfold leaves_def, intro allI)
    fix w
    obtain r w' where u: "write_policy (\<lambda>q p. p\<lparr>p_Status := p_Status q\<rparr>) p w = (r, w')" by fastforce
    from write_policy_stored [OF u, of ns n]
    show "outdated ns n (snd (write_policy (\<lambda>q p. p\<lparr>p_Status := p_Status q\<rparr>) p w)) = outdated ns n w"
      using u by (cases r) (auto simp: of_policy_def)
  qed
  moreover have "leaves (outdated ns n) (patch_cluster x y)" for x y
    by (simp add: leaves_def patch_cluster_def outdated_def)
  ultimately have "other_calls_leave leak_api (outdated ns n)"
    by (simp add: other_calls_leave_def leak_api_def demo_api_def) (simp add: leaves_def)
  then have "other_calls_leave leak_api (leak_view ns n)"
    using keeps_statusD(6) [OF leak_keeps_status, of ns n] by (simp add: other_calls_leave_def leaves_def leak_view_def)
  with reads writes show ?thesis by (simp add: tracks_def)
qed

lemma leak_answers_named: "answers_named leak_api"
  unfolding answers_named_def
  using keeps_statusD(3) [OF leak_keeps_status] keeps_statusD(2) [OF leak_keeps_status] by (metis prod.collapse)

lemma leak_metrics_leave: "metrics_leave leak_host v"
  by (simp add: metrics_leave_def leaves_def leak_host_def leak_metrics_def)

lemma leak_settings: "cfg \<in> settings (co_Reconciler leak_controller) ns n \<Longrightarrow> cfg = leak_config"
  by (auto simp: settings_def leak_parts leak_config_def leak_api_def map_sum_Inr)

lemma leak_sampler_durable: "other_calls_leave leak_api v \<Longrightarrow> keeps (durable v) (sampleOnce (co_Sampler leak_controller))"
  by (rule durable_sampler [OF run_of_host [OF leak_started] _ leak_metrics_leave]) (simp add: leak_host_def)

lemma leak_run_undisturbed:
  assumes calls: "other_calls_leave leak_api v" and later: "v (leak_cluster (noon + 10 * Minute)) = v (leak_cluster noon)"
  shows "undisturbed v leak_controller (leak_cluster noon) leak_4"
proof -
  let ?U = "undisturbed v leak_controller (leak_cluster noon)"
  have samples: "own_step leak_controller leak_0 leak_1" "own_step leak_controller leak_2 leak_3"
    unfolding own_step_def leak_1_def leak_3_def by (metis prod.collapse)+
  have reconciles: "own_step leak_controller leak_3 leak_4"
    unfolding own_step_def leak_4_def by (metis prod.collapse)
  have u1: "?U leak_1" using undisturbed.own [OF undisturbed.start samples(1) [unfolded leak_0_def]] .
  have "durable v leak_1 = durable v leak_0"
    unfolding leak_1_def by (rule keeps_run [OF leak_sampler_durable [OF calls] prod.collapse [symmetric]])
  then have "v (leak_cluster (noon + 10 * Minute)) = v (sy_World leak_1)"
    by (simp add: durable_def leak_0_def boot_def later)
  from undisturbed.others [OF u1 this] have "?U leak_2" by (simp add: leak_2_def)
  from undisturbed.own [OF undisturbed.own [OF this samples(2)] reconciles] show ?thesis .
qed

lemma leak_undisturbed: "undisturbed (stored_status ns n) leak_controller (leak_cluster noon) leak_4"
  by (rule leak_run_undisturbed [OF keeps_statusD(6) [OF leak_keeps_status]]) (simp add: stored_status_def leak_cluster_def)

lemma leak_interleaved: "interleaved ns n (leak_view ns n) leak_controller (leak_cluster noon) leak_4"
  by (rule undisturbed_interleaved, rule leak_run_undisturbed [OF tracksD(6) [OF leak_tracks]])
     (simp add: leak_view_def stored_status_def outdated_def leak_cluster_def)

text \<open>The write of the restart and the patch are all the controller did to the cluster.\<close>

lemma leak_attempts_before: "attempts (sy_Trace leak_3) = []"
proof -
  note calls = keeps_statusD(6) [OF leak_keeps_status]
  have "durable (stored_status ns n) leak_3 = durable (stored_status ns n) leak_2"
    "durable (stored_status ns n) leak_1 = durable (stored_status ns n) leak_0" for ns n
    unfolding leak_3_def leak_1_def by (rule keeps_run [OF leak_sampler_durable [OF calls] prod.collapse [symmetric]])+
  then show ?thesis by (simp add: durable_def leak_2_def leak_0_def boot_def attempts_def)
qed

definition last_restart :: "effect list \<Rightarrow> (string \<times> string \<times> string \<times> string \<times> time option \<times> effect list) list" where
  "last_restart es = (case es of
     EPatch x y ok # EUpdateStatus q True # fs \<Rightarrow>
       [(p_Namespace q, p_Name q, st_WorkloadUID (p_Status q), st_Version (p_Status q), st_LastRestartAt (p_Status q), fs)]
   | _ \<Rightarrow> [])"

lemma leak_restart:
  "last_restart (filter attempt (sy_Trace (snd (run_state
      (handle_breach (co_Reconciler leak_controller) leak_workload leak_config leak_breach (noon + 10 * Minute) leak_policy
        ''Deployment/prod/web'' (TemplateVersion demo_lib leak_workload))
      \<lparr>sy_World = leak_cluster (noon + 10 * Minute), sy_Gate = NewGate 1, sy_Samples = st, sy_Warned = wn,
       sy_WouldRestart = wr, sy_Trace = es\<rparr>))))
   = [(''prod'', ''web-policy'', ''u1'', TemplateVersion demo_lib leak_workload, Some (noon + 10 * Minute), filter attempt es)]"
  by code_simp

lemma leak_deeds:
  obtains x y ok q where "deeds (sy_Trace leak_4) = [EPatch x y ok, EUpdateStatus q True]"
    "attempts (sy_Trace leak_4) = [EPatch x y ok, EUpdateStatus q True]" "of_policy ''prod'' ''web-policy'' q"
    "st_WorkloadUID (p_Status q) = ''u1''" "st_Version (p_Status q) = TemplateVersion demo_lib leak_workload"
    "st_LastRestartAt (p_Status q) = Some (noon + 10 * Minute)"
proof -
  have s: "leak_3 = \<lparr>sy_World = leak_cluster (noon + 10 * Minute), sy_Gate = NewGate 1, sy_Samples = sy_Samples leak_3,
      sy_Warned = sy_Warned leak_3, sy_WouldRestart = sy_WouldRestart leak_3, sy_Trace = sy_Trace leak_3\<rparr>"
    by (simp add: leak_sampled(1) leak_world [symmetric])
  have before: "filter attempt (sy_Trace leak_3) = []" using leak_attempts_before by (simp add: attempts_def)
  have "last_restart (filter attempt (sy_Trace leak_4)) =
      [(''prod'', ''web-policy'', ''u1'', TemplateVersion demo_lib leak_workload, Some (noon + 10 * Minute), [])]"
    unfolding leak_handled by (subst s) (simp only: leak_restart before)
  then obtain x y ok q where a: "attempts (sy_Trace leak_4) = [EPatch x y ok, EUpdateStatus q True]" "of_policy ''prod'' ''web-policy'' q"
    "st_WorkloadUID (p_Status q) = ''u1''" "st_Version (p_Status q) = TemplateVersion demo_lib leak_workload"
    "st_LastRestartAt (p_Status q) = Some (noon + 10 * Minute)"
    by (auto simp: last_restart_def attempts_def of_policy_def split: list.splits effect.splits bool.splits)
  have "deeds (sy_Trace leak_4) = [EPatch x y ok, EUpdateStatus q True]"
    using a(1) deeds_attempts [of "sy_Trace leak_4"] by (simp add: deeds_def)
  from that [OF this a] show ?thesis .
qed

lemma leak_patch_times: "patch_times ''prod'' ''web-policy'' (deeds (sy_Trace leak_4)) = [noon + 10 * Minute]"
  by (rule leak_deeds) (simp add: time_of_def)

lemma leak_writes:
  "one_UID ''prod'' ''web-policy'' ''u1'' (sy_Trace leak_4)"
  "one_version ''prod'' ''web-policy'' (TemplateVersion demo_lib leak_workload) (sy_Trace leak_4)"
proof -
  have "EUpdateStatus q True \<in> set (sy_Trace leak_4) \<longleftrightarrow> EUpdateStatus q True \<in> set (deeds (sy_Trace leak_4))" for q
    by (simp add: deeds_def)
  then show "one_UID ''prod'' ''web-policy'' ''u1'' (sy_Trace leak_4)"
    "one_version ''prod'' ''web-policy'' (TemplateVersion demo_lib leak_workload) (sy_Trace leak_4)"
    by (rule_tac [!] leak_deeds) (auto simp: one_UID_def one_version_def)
qed

lemma leak_not_retried: "\<not> retried ''prod'' ''web-policy'' (attempts (sy_Trace leak_4))"
  by (rule leak_deeds) (auto simp: retried_def append_eq_Cons_conv Cons_eq_append_conv)

lemma leak_stored: "stored_status ''prod'' ''web-policy'' (leak_cluster noon) = p_Status leak_policy"
  by (simp add: stored_status_def leak_cluster_def leak_policy_def demo_policy_def)

section \<open>A sweep that comes too late\<close>

text \<open>What a sweep does with the policies of a listing that are not \<open>ns/n\<close> leaves its status alone.\<close>

definition since :: "('w \<Rightarrow> 'v) \<Rightarrow> 'w sys \<Rightarrow> 'w sys \<Rightarrow> bool" where
  "since view s t \<longleftrightarrow> view (sy_World t) = view (sy_World s) \<and> (\<exists>es. attempts (sy_Trace t) = es @ attempts (sy_Trace s))"

lemma since_refl [simp]: "since view s s"
  by (simp add: since_def)

lemma since_trans: "since view s t \<Longrightarrow> since view t u \<Longrightarrow> since view s u"
  by (auto simp: since_def)

lemma since_durable: "durable view t = durable view s \<Longrightarrow> since view s t"
  by (simp add: since_def durable_def)

lemma since_persisted: "persisted gr ns n view p s t \<Longrightarrow> \<not> of_policy ns n p \<Longrightarrow> since view s t"
  unfolding persisted_def since_def accepted_def by (metis append_Cons)

lemma sweep_prefix:
  assumes st: "tracks gr A ns n view" and qs: "\<And>keys t. since view s t \<Longrightarrow> wp (sweep_loop L A now timeout keys qs) (\<lambda>r t. snd r = None \<longrightarrow> P t) t"
  shows "list_all (\<lambda>q. \<not> of_policy ns n q) ps \<Longrightarrow> since view s u \<Longrightarrow>
    wp (sweep_loop L A now timeout keys (ps @ qs)) (\<lambda>r t. snd r = None \<longrightarrow> P t) u"
proof (induction ps arbitrary: keys u)
  case Nil
  then show ?case using qs by simp
next
  case (Cons q ps)
  let ?Q = "\<lambda>r t. snd r = None \<longrightarrow> P t"
  have rest: "wp (sweep_loop L A now timeout keys' (ps @ qs)) ?Q t" if "since view u t" for keys' t
    using Cons.IH Cons.prems since_trans [OF _ that] by simp
  have go: "wp (sweep_loop L A now timeout keys' (ps @ qs)) ?Q t" if "durable view t = durable view u" for keys' t
    by (rule rest [OF since_durable [OF that]])
  have close: "wp (Persist A (q\<lparr>p_Status := st'\<rparr>)) (\<lambda>r v. wp (case fst r of Inl e \<Rightarrow> ret (keys', Some e)
      | Inr _ \<Rightarrow> sweep_loop L A now timeout keys' (ps @ qs)) ?Q v) t" if t: "durable view t = durable view u" for st' keys' t
  proof (rule wp_mono [OF Persist_tracks [OF st]], clarify)
    fix r :: "unit result" and p' v
    assume "if is_ok r then left_with gr (q\<lparr>p_Status := st'\<rparr>) p' \<and> persisted gr ns n view (q\<lparr>p_Status := st'\<rparr>) t v else refused view t v"
    then have "since view u v" if "is_ok r"
      using that since_trans [OF since_durable [OF t] since_persisted, of gr ns n "q\<lparr>p_Status := st'\<rparr>" v] Cons.prems(1) by simp
    then show "wp (case fst (r, p') of Inl e \<Rightarrow> ret (keys', Some e) | Inr _ \<Rightarrow> sweep_loop L A now timeout keys' (ps @ qs)) ?Q v"
      using rest by (cases r) simp_all
  qed
  show ?case
  proof (cases "st_InFlight (p_Status q) = None")
    case False
    then show ?thesis
      unfolding append_Cons sweep_loop.simps Let_def
      by (simp only: if_False wp_bind, intro wp_mono [OF keepsD [OF durable_classify [OF tracksD(6) [OF st]]]])
         (use go close in \<open>auto split: sum.splits\<close>)
  qed (use rest [of u] in simp)
qed

text \<open>The policy itself: nothing, or its listed status with the marker closed.\<close>

definition closes :: "duration \<Rightarrow> lib \<Rightarrow> string \<Rightarrow> string \<Rightarrow> ('w \<Rightarrow> policy_status \<times> string set) \<Rightarrow> time \<Rightarrow> duration \<Rightarrow> policy \<Rightarrow> 'w sys \<Rightarrow> 'w sys \<Rightarrow> bool" where
  "closes gr L ns n view now timeout p s t \<longleftrightarrow>
     (\<exists>out \<in> {OutcomeTimedOut, OutcomeSuperseded}. fst (view (sy_World t)) = stored gr (CompleteInFlight L (p_Status p) now out))
     \<and> (p_ResourceVersion p \<in> snd (view (sy_World s)) \<longrightarrow> retried ns n (attempts (sy_Trace t)))"

lemma closes_persisted:
  assumes "persisted gr ns n view (p\<lparr>p_Status := CompleteInFlight L (p_Status p) now out\<rparr>) s t" "of_policy ns n p"
    and "out \<in> {OutcomeTimedOut, OutcomeSuperseded}" and "since view t u"
  shows "closes gr L ns n view now timeout p s u"
proof -
  let ?p = "p\<lparr>p_Status := CompleteInFlight L (p_Status p) now out\<rparr>"
  obtain q rs where q: "of_policy (p_Namespace ?p) (p_Name ?p) q" "p_Status q = p_Status ?p"
    and a: "attempts (sy_Trace t) = EUpdateStatus q True # rs @ attempts (sy_Trace s)"
    and rs: "rs = [] \<and> p_ResourceVersion p \<notin> snd (view (sy_World s)) \<or> rs = [EUpdateStatus ?p False]"
    and v: "fst (view (sy_World t)) = stored gr (p_Status ?p)"
    using assms(1,2) unfolding persisted_def accepted_def by auto
  have "retried ns n (attempts (sy_Trace t))" if "rs = [EUpdateStatus ?p False]"
    unfolding retried_def a that using q assms(2) of_policy_ids [OF q(1), of ns n] by (intro exI [of _ "[]"]) auto
  then show ?thesis
    using rs v assms(3,4) retried_append unfolding closes_def since_def by fastforce
qed

lemma sweep_closes:
  fixes s :: "'w sys"
  assumes st: "tracks gr A ns n view" and p: "of_policy ns n p" "st_InFlight (p_Status p) = Some f"
    and timeout: "0 \<le> timeout" "timeout \<le> maxDuration" and others: "list_all (\<lambda>q. \<not> of_policy ns n q) ps"
  shows "wp (sweep_loop L A now timeout keys (p # ps)) (\<lambda>r t. snd r = None \<longrightarrow>
    (since view s t \<and> now < if_DispatchedAt f + timeout) \<or> closes gr L ns n view now timeout p s t) s"
proof -
  let ?P = "\<lambda>t. (since view s t \<and> now < if_DispatchedAt f + timeout) \<or> closes gr L ns n view now timeout p s t"
  have onward: "wp (sweep_loop L A now timeout keys' ps) (\<lambda>r t. snd r = None \<longrightarrow> since view u t) u" for keys' and u :: "'w sys"
    using sweep_prefix [OF st, of u L now timeout "[]" "since view u" ps u keys'] others by simp
  have close: "wp (Persist A (p\<lparr>p_Status := CompleteInFlight L (p_Status p) now out\<rparr>)) (\<lambda>r v. wp (case fst r of Inl e \<Rightarrow> ret (keys', Some e)
      | Inr _ \<Rightarrow> sweep_loop L A now timeout keys' ps) (\<lambda>r t. snd r = None \<longrightarrow> ?P t) v) t"
    if t: "durable view t = durable view s" and out: "out \<in> {OutcomeTimedOut, OutcomeSuperseded}" for out keys' t
  proof (rule wp_mono [OF Persist_tracks [OF st]], clarify)
    let ?p = "p\<lparr>p_Status := CompleteInFlight L (p_Status p) now out\<rparr>"
    fix r :: "unit result" and p' v
    assume v: "if is_ok r then left_with gr ?p p' \<and> persisted gr ns n view ?p t v else refused view t v"
    have "closes gr L ns n view now timeout p s u" if "is_ok r" "since view v u" for u
      using closes_persisted [OF _ p(1) out that(2), of gr L now t timeout] v that(1) t by (simp add: closes_def durable_def)
    then show "wp (case fst (r, p') of Inl e \<Rightarrow> ret (keys', Some e) | Inr _ \<Rightarrow> sweep_loop L A now timeout keys' ps)
        (\<lambda>r t. snd r = None \<longrightarrow> ?P t) v"
      using wp_mono [OF onward [of keys' v]] by (cases r) auto
  qed
  have low: "minDuration < timeout" using timeout(1) by (simp add: minDuration_def)
  have go: "wp (sweep_loop L A now timeout keys ps) (\<lambda>r t. snd r = None \<longrightarrow> ?P t) t"
    if "durable view t = durable view s" "now < if_DispatchedAt f + timeout" for t
    by (rule wp_mono [OF onward]) (use that since_trans [OF since_durable [OF that(1)]] in auto)
  show ?thesis
    unfolding sweep_loop.simps Let_def
    by (simp only: p(2) option.distinct if_False wp_bind,
        rule wp_mono [OF wp_conj [OF classify_wp [OF p(2) low timeout(2), of L A now s] keepsD [OF durable_classify [OF tracksD(6) [OF st]]]]])
       (use close go in \<open>auto split: sum.splits\<close>)
qed

text \<open>The listing shows a dispatch at 0; after 850 s the policy restarts its workload again; the sweep closes after 900 s.\<close>

definition late_cluster :: cluster where
  "late_cluster = demo_cluster (demo_deployment None) [(demo_policy (dispatched_status (850 * Second)))\<lparr>p_ResourceVersion := ''2''\<rparr>]"

definition late_end :: "(string list \<times> err option) \<times> cluster sys" where
  "late_end = run_state (sweep_loop demo_lib leak_api (900 * Second) (900 * Second) [] [demo_policy (dispatched_status 0)])
     (demo_sys late_cluster (NewGate 1) (NewStore 60 10))"

text \<open>
  C25: the sweep is a last writer. Take a server that checks the version of the object it is sent and keeps its
  status to a grain, and a sweep over a listing that has the policy \<open>ns/n\<close> once, anywhere, with a rollout in
  flight, whatever the server has stored for the policy by then. If the sweep, with a timeout that is a possible duration, comes
  through, it either leaves the status alone, which it does not once the rollout has had its timeout, or the stored
  status is, in every field, that of the listing with the marker closed as timed out or superseded, its times
  kept to the grain. If the listing is outdated, that write is the retry
  of a refused one: so a restart recorded since the listing loses its marker and its entry in the history, and the
  cooldown and the breaker go back to those of the listing.
\<close>

theorem sweep_restores_listing:
  assumes "tracks gr A ns n view" and "of_policy ns n p" "st_InFlight (p_Status p) = Some f"
    and "\<forall>q \<in> set before \<union> set after. \<not> of_policy ns n q" and "0 \<le> timeout" "timeout \<le> maxDuration"
    and run: "run_state (sweep_loop L A now timeout keys (before @ p # after)) s = ((keys', None), t)"
  shows "view (sy_World t) = view (sy_World s) \<and> now < if_DispatchedAt f + timeout
    \<or> (\<exists>out \<in> {OutcomeTimedOut, OutcomeSuperseded}. fst (view (sy_World t)) = stored gr (CompleteInFlight L (p_Status p) now out))
      \<and> (p_ResourceVersion p \<in> snd (view (sy_World s)) \<longrightarrow> retried ns n (attempts (sy_Trace t)))"
proof -
  let ?P = "\<lambda>t. (view (sy_World t) = view (sy_World s) \<and> now < if_DispatchedAt f + timeout) \<or> closes gr L ns n view now timeout p s t"
  have others: "list_all (\<lambda>q. \<not> of_policy ns n q) before" "list_all (\<lambda>q. \<not> of_policy ns n q) after"
    using assms(4) by (auto simp: list_all_iff)
  have "wp (sweep_loop L A now timeout ks (p # after)) (\<lambda>r t. snd r = None \<longrightarrow> ?P t) u" if "since view s u" for ks u
    by (rule wp_mono [OF sweep_closes [OF assms(1-3,5,6) others(2)]]) (use that in \<open>auto simp: since_def closes_def\<close>)
  then have "wp (sweep_loop L A now timeout keys (before @ p # after)) (\<lambda>r t. snd r = None \<longrightarrow> ?P t) s"
    by (rule sweep_prefix [OF assms(1) _ others(1) since_refl])
  from wp_run [OF this run] show ?thesis by (simp add: closes_def)
qed

lemma sweep_restores_listing_witness:
  "InCooldown (stored_status ''prod'' ''web-policy'' late_cluster) (901 * Second) (600 * Second)
   \<and> \<not> InCooldown (stored_status ''prod'' ''web-policy'' (sy_World (snd late_end))) (901 * Second) (600 * Second)
   \<and> retried ''prod'' ''web-policy'' (attempts (sy_Trace (snd late_end)))"
proof -
  let ?p = "demo_policy (dispatched_status 0)"
  have "case late_end of ((keys, e), t) \<Rightarrow> e = None" unfolding late_end_def by code_simp
  then obtain keys t where r: "late_end = ((keys, None), t)" by (auto split: prod.splits)
  have p: "of_policy ''prod'' ''web-policy'' ?p" by (simp add: of_policy_def demo_policy_def)
  have f: "st_InFlight (p_Status ?p) =
      Some \<lparr>if_DispatchedAt = 0, if_DispatchedVersion = TemplateVersion demo_lib demo_workload, if_Phase = PhaseDispatched\<rparr>"
    by (simp add: demo_policy_def dispatched_status_def ApplyRestart_fields)
  have stored: "stored_status ''prod'' ''web-policy'' late_cluster = dispatched_status (850 * Second)"
    "p_ResourceVersion ?p \<in> outdated ''prod'' ''web-policy'' late_cluster"
    by (simp_all add: stored_status_def outdated_def lineage_def late_cluster_def demo_cluster_def demo_policy_def)
  have last: "st_LastRestartAt (dispatched_status d) = Some d" for d by (simp add: dispatched_status_def ApplyRestart_fields)
  have "InCooldown (dispatched_status (850 * Second)) (901 * Second) (600 * Second)" "\<not> InCooldown (p_Status ?p) (901 * Second) (600 * Second)"
    by (simp_all add: InCooldown_def last demo_policy_def time_Sub_def minDuration_def maxDuration_def duration_units)
  moreover have "InCooldown (stored Second (CompleteInFlight demo_lib (p_Status ?p) (900 * Second) out)) u cd = InCooldown (p_Status ?p) u cd" for out u cd
  proof (rule ledger_gates(1))
    have "coarse Second (p_Status ?p)"
      by (simp add: coarse_def ledger_eq_iff demo_policy_def dispatched_status_def ApplyRestart_fields to_grain_def sameWindow_def empty_status_def split: prod.split)
    then show "ledger (stored Second (CompleteInFlight demo_lib (p_Status ?p) (900 * Second) out)) = ledger (p_Status ?p)"
      using ledger_stored [OF ledger_CompleteInFlight, of Second demo_lib "p_Status ?p" "900 * Second" out] by (simp add: coarse_def)
  qed
  ultimately show ?thesis
    using sweep_restores_listing [OF leak_tracks p f _ _ _, of "[]" "[]", simplified append_Nil, OF _ _ _ r [unfolded late_end_def]] stored
    unfolding arg_cong [OF r, of snd] by (auto simp: maxDuration_def duration_units demo_sys_def)
qed


end
