(* ===== verification/Bookkeeping.thy ===== *)
theory Bookkeeping
  imports EndToEnd
begin

text \<open>
  The durable bookkeeping over a whole run: what every operation on the status keeps, every status the
  controller writes satisfies, and with a server that keeps the status so does the one it has stored.
\<close>

section \<open>Invariants of the status\<close>

text \<open>What the controller and the server do to a status, one law for each operation.\<close>

locale status_invariant =
  fixes P :: "policy_status \<Rightarrow> bool"
  assumes inv_dry_run: "P st \<Longrightarrow> P (st\<lparr>st_DryRun := d\<rparr>)"
    and inv_adopt: "P st \<Longrightarrow> P (AdoptWorkload st uid)"
    and inv_complete: "P st \<Longrightarrow> out \<in> {OutcomeSettled, OutcomeSuperseded, OutcomeTimedOut} \<Longrightarrow> P (CompleteInFlight L st now out)"
    and inv_recompute: "P st \<Longrightarrow> P (RecomputeObservability st now cd win mx)"
    and inv_restart: "P st \<Longrightarrow> P (ApplyRestart L st wl c now win)"
    and inv_profile: "P st \<Longrightarrow> P (st\<lparr>st_LastProfile := lp\<rparr>)"
    and inv_stored: "P st \<Longrightarrow> P (stored gr st)"
    and inv_notified: "P st \<Longrightarrow> P (st\<lparr>st_LastNotification := nr\<rparr>)"
begin

definition kept :: "string \<Rightarrow> string \<Rightarrow> ('w \<Rightarrow> policy_status) \<Rightarrow> 'w sys \<Rightarrow> bool" where
  "kept ns n recall s \<longleftrightarrow> P (recall (sy_World s)) \<and> (\<forall>q. EUpdateStatus q True \<in> set (sy_Trace s) \<longrightarrow> of_policy ns n q \<longrightarrow> P (p_Status q))"

definition fine :: "string \<Rightarrow> string \<Rightarrow> policy \<Rightarrow> bool" where
  "fine ns n p \<longleftrightarrow> (of_policy ns n p \<longrightarrow> P (p_Status p))"

lemma kept_deeds: "kept ns n recall s \<longleftrightarrow>
    P (fst (booked recall s)) \<and> (\<forall>q. EUpdateStatus q True \<in> set (snd (booked recall s)) \<longrightarrow> of_policy ns n q \<longrightarrow> P (p_Status q))"
  by (auto simp: kept_def booked_def deeds_def)

lemma kept_durable: "keeps (durable recall) m \<Longrightarrow> preserves (kept ns n recall) m"
  unfolding preserves_def kept_deeds by (auto intro!: wp_mono [OF keepsD] dest!: durable_booked)

lemma kept_persist:
  fixes A :: "'w api"
  assumes st: "keeps_status gr A ns n recall" and p: "fine ns n p"
    and fail: "\<And>e p'. preserves (kept ns n recall) (f (Inl e, p'))"
    and ok: "\<And>p'. fine ns n p' \<Longrightarrow> of_policy ns n p' = of_policy ns n p \<Longrightarrow>
      preserves (kept ns n recall) (f (Inr (), p'))"
  shows "preserves (kept ns n recall) (State_Monad.bind (Persist A p) f)"
proof (rule preservesI, unfold wp_bind, rule wp_mono [OF Persist_durable [OF st]], clarify)
  fix s t :: "'w sys" and p' and r :: "unit result"
  assume s: "kept ns n recall s"
    and t: "if is_ok r then left_with gr p p' \<and> written gr ns n recall p s t
      else booked recall t = booked recall s"
  show "wp (f (r, p')) (\<lambda>_. kept ns n recall) t"
  proof (cases r)
    case (Inl e)
    then have "kept ns n recall t" using s t by (simp add: kept_deeds)
    then show ?thesis using fail Inl by (simp add: preserves_def)
  next
    case (Inr u)
    then have p': "of_policy ns n p' = of_policy ns n p" "p_Status p' \<in> {p_Status p, stored gr (p_Status p)}"
      and w: "written gr ns n recall p s t"
      using t of_policy_ids [of p p'] by (auto simp: left_with_def)
    obtain q where q: "of_policy ns n q = of_policy ns n p" "p_Status q = p_Status p"
      "booked recall t = (if of_policy ns n p then stored gr (p_Status p) else recall (sy_World s), EUpdateStatus q True # deeds (sy_Trace s))"
      using w of_policy_ids [of p] unfolding written_def by blast
    have "kept ns n recall t"
      unfolding kept_deeds using s p q(1,2) unfolding q(3) by (auto simp: kept_def fine_def deeds_def intro: inv_stored)
    moreover have "fine ns n p'" using p p' by (auto simp: fine_def intro: inv_stored)
    ultimately show ?thesis using ok p' Inr by (cases u) (simp add: preserves_def)
  qed
qed

lemma fine_status: "fine ns n p \<Longrightarrow> (P (p_Status p) \<Longrightarrow> P st) \<Longrightarrow> fine ns n (p\<lparr>p_Status := st\<rparr>)"
  by (simp add: fine_def)

lemma kept_dispatch:
  assumes st: "keeps_status gr A ns n recall"
  shows "preserves (kept ns n recall) (Dispatch L A wl now)"
proof (rule preservesI)
  fix s
  assume "kept ns n recall s"
  then show "wp (Dispatch L A wl now) (\<lambda>_. kept ns n recall) s"
    by (intro wp_mono [OF wp_conj [OF Dispatch_run Dispatch_recall [OF keeps_statusD(6) [OF st]]]]) (auto simp: kept_def)
qed

lemma kept_restart:
  fixes R :: "'w reconciler"
  assumes st: "keeps_status gr (rc_API R) ns n recall" and p: "fine ns n p"
  shows "preserves (kept ns n recall) (real_restart R wl cfg b now p k)"
proof -
  note calls [keeping] = keeps_statusD(6) [OF st]
  have failed: "preserves (kept ns n recall) (restart_failed wl k what e)" for what e
    by (rule kept_durable [OF durable_branches(5) [OF calls]])
  have dispatched: "preserves (kept ns n recall) (dispatch_restart R wl cfg b now k)"
    unfolding dispatch_restart_def
    by (intro preserving kept_dispatch [OF st] failed kept_durable keeping)
  have w: "fine ns n (p\<lparr>p_Status := restarted_status R (p_Status p) wl cfg b now\<rparr>)"
    by (rule fine_status [OF p]) (simp add: restarted_status_def Let_def inv_restart inv_notified inv_recompute)
  show ?thesis
    unfolding real_restart_def
    by (rule kept_persist [OF st w]) (simp_all add: failed dispatched)
qed

lemma captureProfile_fine: "P st \<Longrightarrow> yields P (captureProfile R wl cfg b now st)"
  unfolding captureProfile_def by (auto intro!: yields_case yields_next yields_ret inv_profile split: option.split)

lemma kept_act:
  fixes R :: "'w reconciler"
  assumes st: "keeps_status gr (rc_API R) ns n recall" and p: "fine ns n p"
  shows "preserves (kept ns n recall) (act R wl cfg b now p k v)"
proof -
  note calls [keeping] = keeps_statusD(6) [OF st]
  have acted: "preserves (kept ns n recall) (let policy1 = p\<lparr>p_Status := st'\<rparr> in
      if pc_DryRun cfg then dry_run_restart R wl cfg b now policy1 k else real_restart R wl cfg b now policy1 k)"
    if "fine ns n (p\<lparr>p_Status := st'\<rparr>)" for st'
    using kept_restart [OF st that] by (simp add: Let_def) (auto intro!: kept_durable keeping)
  have captured: "preserves (kept ns n recall) (do { st' \<leftarrow> captureProfile R wl cfg b now (p_Status p);
      let policy1 = p\<lparr>p_Status := st'\<rparr> in
      if pc_DryRun cfg then dry_run_restart R wl cfg b now policy1 k else real_restart R wl cfg b now policy1 k })"
  proof (rule preservesI, unfold wp_bind)
    fix s :: "'w sys"
    assume s: "kept ns n recall s"
    have "wp (captureProfile R wl cfg b now (p_Status p)) (\<lambda>st' t. fine ns n (p\<lparr>p_Status := st'\<rparr>) \<and> kept ns n recall t) s"
    proof (rule wp_conj)
      show "wp (captureProfile R wl cfg b now (p_Status p)) (\<lambda>st' t. fine ns n (p\<lparr>p_Status := st'\<rparr>)) s"
      proof (cases "of_policy ns n p")
        case True
        then have "P (p_Status p)" using p by (simp add: fine_def)
        then have "wp (captureProfile R wl cfg b now (p_Status p)) (\<lambda>st' t. P st') s"
          using captureProfile_fine [of "p_Status p" R wl cfg b now] by (simp add: yields_def)
        then show ?thesis by (rule wp_mono) (simp add: fine_def)
      qed (simp add: fine_def wp_def split: prod.split)
      show "wp (captureProfile R wl cfg b now (p_Status p)) (\<lambda>_ t. kept ns n recall t) s"
        using preservesD [OF kept_durable [OF durable_notify(2) [OF keeps_statusD(6) [OF st]]] s] .
    qed
    then show "wp (captureProfile R wl cfg b now (p_Status p)) (\<lambda>st'. wp (let policy1 = p\<lparr>p_Status := st'\<rparr> in
        if pc_DryRun cfg then dry_run_restart R wl cfg b now policy1 k else real_restart R wl cfg b now policy1 k)
        (\<lambda>_. kept ns n recall)) s"
      by (rule wp_mono) (use acted in \<open>auto simp: preserves_def\<close>)
  qed
  show ?thesis unfolding act_def by (intro preserving captured kept_durable keeping; simp)
qed

lemma kept_settle_phase:
  fixes R :: "'w reconciler"
  assumes st: "keeps_status gr (rc_API R) ns n recall" and p: "fine ns n p"
  shows "preserves (kept ns n recall) (settle_phase R wl cfg now p k v)"
proof -
  note calls [keeping] = keeps_statusD(6) [OF st]
  have breach: "preserves (kept ns n recall) (handle_breach R wl cfg b now p k v)" for b
    unfolding handle_breach_def window_gate_def acquire_and_act_def
    by (intro preserving kept_act [OF st p] kept_durable keeping; simp)
  have "fine ns n (p\<lparr>p_Status := RecomputeObservability (CompleteInFlight (rc_Lib R) (p_Status p) now out) now cd win mx\<rparr>)"
    if "out \<in> {OutcomeSettled, OutcomeSuperseded}" for out cd win mx
    by (rule fine_status [OF p]) (use that in \<open>auto intro!: inv_recompute inv_complete\<close>)
  then have complete: "preserves (kept ns n recall) (complete_phase R cfg now p k v)"
    unfolding complete_phase_def Let_def
    by (intro preserving kept_persist [OF st] kept_durable keeping; simp)
  show ?thesis
    unfolding settle_phase_def detect_phase_def
    by (intro preserving breach complete kept_durable keeping; simp)
qed

lemma kept_live_phase:
  fixes R :: "'w reconciler"
  assumes st: "keeps_status gr (rc_API R) ns n recall" and p: "fine ns n p"
  shows "preserves (kept ns n recall) (live_phase R p k)"
proof -
  note calls [keeping] = keeps_statusD(6) [OF st]
  have wl: "preserves (kept ns n recall) (workload_phase R wl cfg p' k)" if p': "fine ns n p'" for wl cfg p'
  proof -
    have adopted: "fine ns n (p'\<lparr>p_Status := AdoptWorkload (p_Status p') uid\<rparr>)" for uid
      by (rule fine_status [OF p']) (rule inv_adopt)
    have persisted: "preserves (kept ns n recall) (do { r \<leftarrow> Persist (rc_API R) (p'\<lparr>p_Status := AdoptWorkload (p_Status p') uid\<rparr>);
        case fst r of Inl e \<Rightarrow> ret (Inl e) | Inr _ \<Rightarrow> settle_phase R wl cfg now (snd r) k v })" for uid now v
      by (rule kept_persist [OF st adopted]) (simp_all add: preserves_return kept_settle_phase [OF st])
    show ?thesis
      unfolding workload_phase_def Let_def
      by (intro preserves_bind preserves_case_sum preserves_if preserves_return persisted kept_settle_phase [OF st adopted]) (intro kept_durable keeping)
  qed
  have get: "preserves (kept ns n recall) (get_workload_phase R cfg p' k)" if "fine ns n p'" for cfg p'
    unfolding get_workload_phase_def by (intro preserving wl [OF that] kept_durable keeping)
  have w: "fine ns n (p\<lparr>p_Status := (p_Status p)\<lparr>st_DryRun := d\<rparr>\<rparr>)" for d
    by (rule fine_status [OF p]) (rule inv_dry_run)
  have "preserves (kept ns n recall) (do { r \<leftarrow> Persist (rc_API R) (p\<lparr>p_Status := (p_Status p)\<lparr>st_DryRun := d\<rparr>\<rparr>);
      case fst r of Inl e \<Rightarrow> ret (Inl e) | Inr _ \<Rightarrow> get_workload_phase R cfg (snd r) k })" for d cfg
    by (rule kept_persist [OF st w]) (simp_all add: preserves_return get)
  then show ?thesis unfolding live_phase_def Let_def by (intro preserves_if get [OF p])
qed

lemma kept_Reconcile:
  fixes R :: "'w reconciler"
  assumes st: "keeps_status gr (rc_API R) ns n recall"
  shows "preserves (kept ns n recall) (Reconcile R m k)"
proof (rule preservesI)
  note calls [keeping] = keeps_statusD(6) [OF st]
  fix s :: "'w sys"
  assume s: "kept ns n recall s"
  obtain g w where g: "a_GetPolicy (rc_API R) m k (sy_World s) = (g, w)" by fastforce
  have t: "kept ns n recall (s\<lparr>sy_World := w\<rparr>)" using s keeps_statusD(5) [OF st g] by (simp add: kept_def)
  have phases: "preserves (kept ns n recall) (finalize R p wk)" "preserves (kept ns n recall) (add_finalizer_phase R p wk)"
    if "g = Inr p" for p wk
  proof -
    have "fine ns n p"
      using s g keeps_statusD(3) [OF st, of m k "sy_World s" p w] that by (auto simp: fine_def kept_def)
    note live = kept_live_phase [OF st this]
    show "preserves (kept ns n recall) (add_finalizer_phase R p wk)"
      unfolding add_finalizer_phase_def by (intro preserving live kept_durable keeping)
    show "preserves (kept ns n recall) (finalize R p wk)" by (intro kept_durable keeping)
  qed
  show "wp (Reconcile R m k) (\<lambda>_. kept ns n recall) s"
    unfolding Reconcile_def using t g phases by (cases g) (auto simp: preserves_def Let_def)
qed

lemma kept_sweep_loop:
  fixes A :: "'w api"
  assumes st: "keeps_status gr A ns n recall"
  shows "\<forall>p \<in> set ps. fine ns n p \<Longrightarrow> preserves (kept ns n recall) (sweep_loop L A now timeout keys ps)"
proof (induction ps arbitrary: keys)
  case (Cons p ps)
  note calls [keeping] = keeps_statusD(6) [OF st]
  have rest: "preserves (kept ns n recall) (sweep_loop L A now timeout keys' ps)" for keys' using Cons by simp
  let ?close = "\<lambda>c. case c of Inl e \<Rightarrow> ret (keys, Some e) | Inr (out, release) \<Rightarrow>
      if \<not> release then sweep_loop L A now timeout keys ps
      else let p' = p\<lparr>p_Status := CompleteInFlight L (p_Status p) now out\<rparr>;
               key = WorkloadKey (wr_Kind (sp_WorkloadRef (p_Spec p))) (p_Namespace p) (wr_Name (sp_WorkloadRef (p_Spec p)));
               keys' = keys @ [key]
           in do { r \<leftarrow> Persist A p'; case fst r of Inl e \<Rightarrow> ret (keys', Some e) | Inr _ \<Rightarrow> sweep_loop L A now timeout keys' ps }"
  have closing: "preserves (kept ns n recall) (?close c)"
    if "\<forall>out. c = Inr (out, True) \<longrightarrow> out \<in> {OutcomeSuperseded, OutcomeTimedOut}" for c
  proof -
    have "preserves (kept ns n recall) (do { r \<leftarrow> Persist A (p\<lparr>p_Status := CompleteInFlight L (p_Status p) now out\<rparr>);
        case fst r of Inl e \<Rightarrow> ret (keys', Some e) | Inr _ \<Rightarrow> sweep_loop L A now timeout keys' ps })"
      if "out \<in> {OutcomeSuperseded, OutcomeTimedOut}" for out keys'
    proof (rule kept_persist [OF st])
      have "fine ns n p" using Cons.prems by simp
      then show "fine ns n (p\<lparr>p_Status := CompleteInFlight L (p_Status p) now out\<rparr>)"
        by (rule fine_status) (use that in \<open>auto intro!: inv_complete\<close>)
    qed (simp_all add: preserves_return rest)
    with that show ?thesis by (auto simp: Let_def preserves_return rest split: sum.split)
  qed
  show ?case
  proof (cases "st_InFlight (p_Status p) = None")
    case False
    then show ?thesis
      unfolding sweep_loop.simps if_not_P [OF False]
    proof (intro preservesI, unfold wp_bind)
      fix s :: "'w sys"
      assume s: "kept ns n recall s"
      have "wp (classifyInFlight L A p now timeout)
          (\<lambda>c t. (\<forall>out. c = Inr (out, True) \<longrightarrow> out \<in> {OutcomeSuperseded, OutcomeTimedOut}) \<and> kept ns n recall t) s"
      proof (rule wp_conj)
        show "wp (classifyInFlight L A p now timeout) (\<lambda>_. kept ns n recall) s"
          by (rule preservesD [OF kept_durable [OF durable_classify [OF keeps_statusD(6) [OF st]]] s])
        show "wp (classifyInFlight L A p now timeout)
            (\<lambda>c t. \<forall>out. c = Inr (out, True) \<longrightarrow> out \<in> {OutcomeSuperseded, OutcomeTimedOut}) s"
          using False by (auto simp: classifyInFlight_def wp_def timedOut_def Let_def State_Monad.bind_def
              split: prod.splits sum.splits if_splits option.splits)
      qed
      then show "wp (classifyInFlight L A p now timeout) (\<lambda>c. wp (?close c) (\<lambda>_. kept ns n recall)) s"
        by (rule wp_mono) (use closing in \<open>auto simp: preserves_def\<close>)
    qed
  qed (simp add: rest)
qed (simp add: preserves_return)

lemma kept_expire_tick:
  fixes E :: "'w expirer"
  assumes st: "keeps_status gr (ex_API E) ns n recall"
  shows "preserves (kept ns n recall) (expire_tick E now)"
proof -
  note calls [keeping] = keeps_statusD(6) [OF st]
  have "preserves (kept ns n recall) (SweepInFlight L (ex_API E) now timeout)" for L timeout
  proof (rule preservesI)
    fix s :: "'w sys"
    assume s: "kept ns n recall s"
    obtain l w where l: "a_ListPolicies (ex_API E) '''' (sy_World s) = (l, w)" by fastforce
    have "recall w = recall (sy_World s)"
      using keeps_statusD(6) [OF st] l unfolding other_calls_leave_def leaves_def by (metis snd_conv)
    then have t: "kept ns n recall (s\<lparr>sy_World := w\<rparr>)" using s by (simp add: kept_def)
    have "\<forall>p \<in> set ps. fine ns n p" if "l = Inr ps" for ps
      using s keeps_statusD(4) [OF st l [unfolded that]] by (auto simp: fine_def kept_def)
    then show "wp (SweepInFlight L (ex_API E) now timeout) (\<lambda>_. kept ns n recall) s"
      unfolding SweepInFlight_def using t preservesD [OF kept_sweep_loop [OF st]] l by (cases l) simp_all
  qed
  moreover have "keeps (durable recall) (release_keys ks)" for ks :: "string list" by (induction ks) (auto intro!: keeping)
  moreover have "keeps (durable recall) set_inflight" unfolding set_inflight_def by (intro keeping) simp
  ultimately show ?thesis
    unfolding expire_tick_def sweep_slots_def expire_slots_def
    by (intro preserving) (auto intro: kept_durable intro!: keeping)
qed

lemma kept_undisturbed:
  fixes C :: "'w controller"
  assumes C: "of_host H F C" and st: "keeps_status gr (ho_API H) ns n recall" and mc: "metrics_leave H recall"
    and run: "undisturbed recall C w s" and start: "P (recall w)"
  shows "kept ns n recall s"
  using run
proof (induction rule: undisturbed.induct)
  case start
  show ?case using assms(5) by (simp add: kept_def boot_def)
next
  case (own s t)
  have R: "keeps_status gr (rc_API (co_Reconciler C)) ns n recall" "keeps_status gr (ex_API (co_Expirer C)) ns n recall"
    using C st by (simp_all add: of_host_def)
  note sampler = kept_durable [OF durable_sampler [OF C keeps_statusD(6) [OF st] mc]]
  from own.hyps(2) show ?case
    unfolding own_step_def
    using preserves_run [OF kept_Reconcile [OF R(1)] own.IH] preserves_run [OF sampler own.IH]
      preserves_run [OF kept_expire_tick [OF R(2)] own.IH] own.IH
    by (auto simp: kept_def boot_def)
next
  case (others s x)
  then show ?case by (simp add: kept_def)
qed

end

section \<open>The two invariants\<close>

text \<open>
  Without a restart window nothing is counted, and the in-flight marker stands for the restart the cooldown and
  the breaker know: it was dispatched when the cooldown began, with the version of the count.
\<close>

definition ledger_ok :: "policy_status \<Rightarrow> bool" where
  "ledger_ok st \<longleftrightarrow> (st_WindowStart st = None \<longrightarrow> st_RestartCount st = 0)
     \<and> (\<forall>f. st_InFlight st = Some f \<longrightarrow> st_LastRestartAt st = Some (if_DispatchedAt f)
          \<and> st_Version st = if_DispatchedVersion f \<and> st_WindowStart st \<noteq> None)"

lemma marker_ok_stored: "marker_ok f h \<Longrightarrow> marker_ok (f\<lparr>if_DispatchedAt := to_grain gr (if_DispatchedAt f)\<rparr>)
    (map (\<lambda>r. r\<lparr>rr_TriggeredAt := to_grain gr (rr_TriggeredAt r), rr_CompletedAt := map_option (to_grain gr) (rr_CompletedAt r)\<rparr>) h)"
  by (simp add: marker_ok_def last_map)

interpretation shape: status_invariant status_ok
proof
  show "status_ok (st\<lparr>st_DryRun := d\<rparr>)" "status_ok (st\<lparr>st_LastProfile := lp\<rparr>)" "status_ok (st\<lparr>st_LastNotification := nr\<rparr>)"
    if "status_ok st" for st d lp nr
    using that by (simp_all add: status_ok_def)
  show "status_ok (stored gr st)" if "status_ok st" for gr st
    using that by (auto simp: status_ok_def stored_def record_ok_def intro: marker_ok_stored)
qed (auto intro: status_ok_ops simp: outcome_defs)

interpretation marks: status_invariant ledger_ok
proof
  show "ledger_ok (ApplyRestart L st wl c now win)" if "ledger_ok st" for L st wl c now win
    by (auto simp: ledger_ok_def ApplyRestart_fields split: prod.split)
  show "ledger_ok (stored gr st)" if "ledger_ok st" for gr st
    using that by (auto simp: ledger_ok_def stored_def)
qed (auto simp: ledger_ok_def AdoptWorkload_def CompleteInFlight_fields Let_def)

text \<open>
  C7: the durable bookkeeping is sound in every run. On an API server that keeps the status of a policy, with
  nobody else writing it, a status that starts in order, such as the empty one, stays so through any schedule of
  reconciles, sweeps, errors and changes of leader, and so is every status ever written for the policy: the
  history within its bound, every record open exactly while its outcome is in progress, an in-flight marker only
  beside the open record it stands for, with the instant of the cooldown and the version of the restart
  count, and nothing counted outside a restart window.
\<close>

theorem bookkeeping_sound_in_every_run:
  assumes "run_state (run H F) s0 = (Inr C, s1)"
    and "keeps_status gr (ho_API H) ns n recall" and "metrics_leave H recall" and "undisturbed recall C w t"
    and "status_ok (recall w)" and "ledger_ok (recall w)"
  shows "status_ok (recall (sy_World t)) \<and> ledger_ok (recall (sy_World t))
    \<and> (\<forall>q. EUpdateStatus q True \<in> set (sy_Trace t) \<longrightarrow> of_policy ns n q \<longrightarrow> status_ok (p_Status q) \<and> ledger_ok (p_Status q))"
  using shape.kept_undisturbed [OF run_of_host [OF assms(1)] assms(2-5)]
    marks.kept_undisturbed [OF run_of_host [OF assms(1)] assms(2-4,6)]
  by (simp add: shape.kept_def marks.kept_def)

lemma bookkeeping_sound_in_every_run_witness:
  "\<exists>q. EUpdateStatus q True \<in> set (sy_Trace leak_4) \<and> st_LastRestartAt (p_Status q) = Some (noon + 10 * Minute)
     \<and> status_ok (p_Status q) \<and> ledger_ok (p_Status q)"
proof -
  have A: "keeps_status Second (ho_API leak_host) ''prod'' ''web-policy'' (stored_status ''prod'' ''web-policy'')"
    using leak_keeps_status by (simp add: leak_host_def)
  have "status_ok (p_Status leak_policy)" "ledger_ok (p_Status leak_policy)"
    by (simp_all add: leak_policy_def demo_policy_def status_ok_def ledger_ok_def empty_status_def)
  note bookkeeping_sound_in_every_run [OF leak_started A leak_metrics_leave leak_undisturbed, unfolded leak_stored, OF this]
  then have sound: "EUpdateStatus q True \<in> set (sy_Trace leak_4) \<Longrightarrow> of_policy ''prod'' ''web-policy'' q \<Longrightarrow>
      status_ok (p_Status q) \<and> ledger_ok (p_Status q)" for q
    by blast
  obtain x y ok q where d: "deeds (sy_Trace leak_4) = [EPatch x y ok, EUpdateStatus q True]" "of_policy ''prod'' ''web-policy'' q"
    "st_WorkloadUID (p_Status q) = ''u1''" "st_Version (p_Status q) = TemplateVersion demo_lib leak_workload"
    "st_LastRestartAt (p_Status q) = Some (noon + 10 * Minute)" by (rule leak_deeds)
  have "EUpdateStatus q True \<in> set (deeds (sy_Trace leak_4))" unfolding d(1) by simp
  then have "EUpdateStatus q True \<in> set (sy_Trace leak_4)" unfolding deeds_def by (meson filter_is_subset subsetD)
  from this d(5) sound [OF this d(2)] show ?thesis by blast
qed

end
