(* ===== verification/InflightGauge.thy ===== *)
theory InflightGauge
  imports EndToEnd
begin

text \<open>
  The gauge \<open>memreload_inflight_rollouts\<close>. The code sets it by hand after the operations on the gate, in the
  reconciler and in the expirer; over the life of one process it always shows the number of slots held.
\<close>

section \<open>The value of the gauge\<close>

definition other_effect :: "effect \<Rightarrow> bool" where
  "other_effect e \<longleftrightarrow> (case e of EGauge m ls n \<Rightarrow> m \<noteq> ''memreload_inflight_rollouts'' | _ \<Rightarrow> True)"

lemma other_effect_simps [simp]:
  "other_effect (EUpdatePolicy p ok)" "other_effect (EUpdateStatus p ok)" "other_effect (EEvent r a b c d)"
  "other_effect (ECounter m ls)" "other_effect (EGauge m ls n) \<longleftrightarrow> m \<noteq> ''memreload_inflight_rollouts''"
  "other_effect (EGaugeReset m)" "other_effect (ELog l)" "other_effect (EHTTP q)" "other_effect (EStore k j)"
  "other_effect (EEnqueue a b)" "other_effect (EPatch x y ok)"
  by (simp_all add: other_effect_def)

text \<open>What a scrape reads after the effects of a trace, newest first: the last value set, 0 before the first.\<close>

fun gauge_value :: "effect list \<Rightarrow> int" where
  "gauge_value [] = 0"
| "gauge_value (e # es) = (case e of EGauge m ls n \<Rightarrow> if m = ''memreload_inflight_rollouts'' then n else gauge_value es
     | _ \<Rightarrow> gauge_value es)"

lemma gauge_value_other: "list_all other_effect es \<Longrightarrow> gauge_value (es @ fs) = gauge_value fs"
  by (induction es) (auto split: effect.split)

definition shown :: "'w sys \<Rightarrow> bool" where
  "shown s \<longleftrightarrow> gauge_value (sy_Trace s) = int (Inflight (sy_Gate s))"

lemma shown_quiet:
  assumes "keeps sy_Gate m" "adds other_effect m"
  shows "preserves shown m"
  by (rule preservesI, rule wp_mono [OF wp_conj [OF keepsD [OF assms(1)] addsD [OF assms(2)]]])
     (auto simp: shown_def gauge_value_other)

section \<open>Operations that leave the gauge alone\<close>

lemma other_Notify [adding]: "adds other_effect (Notify L A n e)"
  by (rule adds_mono [OF adds_Notify]) (auto simp: notify_effect_def split: effect.splits)

lemma other_Capture [adding]: "adds other_effect (Capture A c ip path key)"
  by (rule adds_mono [OF adds_Capture]) (auto simp: capture_effect_def split: effect.splits)

lemma other_small [adding]:
  "adds other_effect (warnUnmonitorableOnce pod)" "adds other_effect (known_routes R wl names)"
  "adds other_effect (skip p r)" "adds other_effect (skipRequeue R p r)" "adds other_effect (effective_windows R p cfg)"
proof -
  show "adds other_effect (warnUnmonitorableOnce pod)" by (auto simp: adds_def warnUnmonitorableOnce_def)
  show "adds other_effect (known_routes R wl names)" by (induction names) (auto intro!: adding)
  show "adds other_effect (skip p r)" "adds other_effect (skipRequeue R p r)"
    unfolding skip_def skipRequeue_def by (intro adding; simp)+
  show "adds other_effect (effective_windows R p cfg)" unfolding effective_windows_def by (intro adding) simp_all
qed

lemma other_notify [adding]: "adds other_effect (notify R t wl b now cfg)"
  unfolding notify_def by (intro adding)

lemma other_announce [adding]:
  "adds other_effect (announce_restart R wl cfg b now k)" "adds other_effect (defer_restart R wl cfg b now ws)"
  unfolding announce_restart_def defer_restart_def by (intro adding; simp)+

lemma other_captureProfile [adding]: "adds other_effect (captureProfile R wl cfg b now st)"
  unfolding captureProfile_def by (auto intro!: adding split: option.split)

lemma other_Dispatch [adding]: "adds other_effect (Dispatch L A w now)"
  unfolding Dispatch_def by (intro adding) simp_all

lemma other_Persist [adding]: "adds other_effect (Persist A p)"
  unfolding Persist_def by (intro adding) simp_all

lemma other_update_policy [adding]: "adds other_effect (update_policy A p)"
  unfolding update_policy_def by (intro adding) simp_all

lemma other_scan_pods [adding]: "adds other_effect (scan_pods R cfg now pods)"
proof -
  have "adds other_effect (scan_pod R cfg now pod)" for pod
    unfolding scan_pod_def scan_owned_def by (intro adding)
  then show ?thesis by (induction pods) (auto intro!: adding)
qed

lemma other_sweep [adding]: "adds other_effect (SweepInFlight L A now timeout)"
proof -
  have "adds other_effect (sweep_loop L A now timeout keys ps)" for keys ps
    by (induction ps arbitrary: keys) (auto simp: classifyInFlight_def Let_def intro!: adding)
  then show ?thesis unfolding SweepInFlight_def by (intro adding)
qed

lemma other_sampleOnce:
  assumes "usage_source (sm_Source S)"
  shows "adds other_effect (sampleOnce S)"
proof -
  have [adding]: "adds other_effect (sample_targets byKey now pod ts live enqueue)" for byKey now pod ts live enqueue
    by (induction ts arbitrary: live enqueue) (auto simp: Let_def intro!: adding split: option.split)
  have [adding]: "adds other_effect (sample_pods byKey now cfg wkey ps k enqueue)" for byKey now cfg wkey ps k enqueue
    by (induction ps arbitrary: k enqueue) (auto intro!: adding split: prod.split)
  have "adds other_effect (sample_policy S byKey now p k)" for byKey now p k
    unfolding sample_policy_def by (intro adding) simp_all
  then have policies: "adds other_effect (sample_policies S byKey now ps k)" for byKey now ps k
    by (induction ps arbitrary: k) (auto intro!: adding)
  have gauges: "n \<noteq> ''memreload_inflight_rollouts'' \<Longrightarrow> adds other_effect (set_gauges n x m)" for n x m
    by (induction m) (auto intro!: adding)
  have rewrite: "adds other_effect (rewrite_gauges k)" for k unfolding rewrite_gauges_def by (intro adding gauges) simp_all
  have list: "adds other_effect (listPolicies S)" by (rule keeps_Trace_adds [OF keeps_listPolicies(3)])
  show ?thesis
    unfolding sampleOnce_def
    by (intro adding list policies rewrite usage_source.usage_writes_nothing [OF assms]) simp_all
qed

section \<open>Operations on the gate\<close>

lemma shown_gauge: "wp inflight_gauge (\<lambda>_. shown) s" "wp set_inflight (\<lambda>_. shown) s"
  by (simp_all add: inflight_gauge_def set_inflight_def shown_def)

lemma shown_release [preserving]: "preserves shown (release_slot k)"
  by (rule preservesI) (simp add: release_slot_def shown_gauge)

lemma shown_reacquire: "preserves shown (do { _ \<leftarrow> acquire_slot k t; inflight_gauge; ret r })"
  by (rule preservesI) (simp add: acquire_slot_wp inflight_gauge_def shown_def)

lemmas shown_quiets [preserving] =
  keeps_GetWorkload(1) [THEN shown_quiet] keeps_captureProfile [THEN shown_quiet] keeps_small [THEN shown_quiet]
  keeps_notify(1) [THEN shown_quiet] keeps_Persist(1) [THEN shown_quiet] keeps_Dispatch(1) [THEN shown_quiet]
  keeps_defer [THEN shown_quiet] keeps_gate_emit(1) [THEN shown_quiet] keeps_gate_call(1) [THEN shown_quiet]
  keeps_listWorkloadPods(1) [THEN shown_quiet] keeps_scan_pods [THEN shown_quiet]
  keeps_gets(1) [THEN shown_quiet] keeps_SweepInFlight(1) [THEN shown_quiet] keeps_update_status(3) [THEN shown_quiet]

lemma shown_act: "preserves shown (act R wl cfg b now p k v)"
  unfolding act_def dry_run_restart_def real_restart_def dispatch_restart_def restart_failed_def
  by (intro preserving adding; simp)

lemma shown_acquire_and_act: "preserves shown (acquire_and_act R wl cfg b now p k v)"
proof (rule preservesI)
  fix s :: "'a sys"
  assume s: "shown s"
  have same: "snd (TryAcquire (sy_Gate s) k now) = sy_Gate s" if "fst (TryAcquire (sy_Gate s) k now) \<noteq> Acquired"
    using that by (auto simp: TryAcquire_def split: option.splits if_splits)
  have skips: "wp (skip p r) (\<lambda>_. shown) s" "wp (skipRequeue R p r) (\<lambda>_. shown) s" for r
    using s by (simp_all add: skip_def skipRequeue_def shown_def)
  have act: "wp (act R wl cfg b now p k v) (\<lambda>_. shown) t" if "shown t" for t
    by (rule preservesD [OF shown_act that])
  show "wp (acquire_and_act R wl cfg b now p k v) (\<lambda>_. shown) s"
    using same skips act
    by (cases "fst (TryAcquire (sy_Gate s) k now)") (simp_all add: acquire_and_act_def acquire_slot_wp inflight_gauge_def shown_def)
qed

lemma shown_Reconcile: "preserves shown (Reconcile R ns name)"
proof -
  have breach: "preserves shown (handle_breach R wl cfg b now p k v)" for wl cfg b now p k v
    unfolding handle_breach_def window_gate_def by (intro preserving shown_acquire_and_act adding; simp)
  have unsettled: "preserves shown (unsettled_phase R p k v)" for p k v
    unfolding unsettled_phase_def by (intro preserving shown_reacquire adding; simp)
  show ?thesis
    unfolding Reconcile_def finalize_def add_finalizer_phase_def live_phase_def get_workload_phase_def workload_phase_def
      settle_phase_def detect_phase_def complete_phase_def
    by (intro preserving breach unsettled adding; simp)
qed

lemma ffilter_none: "ffilter f D = {||} \<Longrightarrow> ffilter (\<lambda>k. \<not> f k) D = D"
  by auto

lemma shown_expire_tick: "preserves shown (expire_tick E now)"
proof -
  have expire: "preserves shown (expire_slots E now)"
  proof (rule preservesI)
    fix s :: "'a sys"
    assume "shown s"
    then show "wp (expire_slots E now) (\<lambda>_. shown) s"
      by (auto simp: expire_slots_def set_inflight_def shown_def ExpireOlderThan_def Let_def Inflight_def dest: ffilter_none split: prod.split)
  qed
  have close: "preserves shown (do { release_keys keys; _ \<leftarrow> (if length keys > 0 then set_inflight else ret ()); ret err })" for keys err
    by (rule preservesI) (simp add: release_keys_wp set_inflight_def shown_def)
  have "preserves shown (sweep_slots E now)"
    unfolding sweep_slots_def by (intro preserving close adding; simp)
  then show ?thesis unfolding expire_tick_def by (intro preserving expire)
qed

section \<open>The life of a process\<close>

text \<open>The steps of one process: those of a run but the replacement of the process.\<close>

inductive serving :: "'w controller \<Rightarrow> 'w \<Rightarrow> 'w sys \<Rightarrow> bool" for C w where
  started: "serving C w (boot C w)"
| reconciled: "serving C w s \<Longrightarrow> run_state (Reconcile (co_Reconciler C) ns name) s = (r, t) \<Longrightarrow> serving C w t"
| sampled: "serving C w s \<Longrightarrow> run_state (sampleOnce (co_Sampler C)) s = (u, t) \<Longrightarrow> serving C w t"
| expired: "serving C w s \<Longrightarrow> run_state (expire_tick (co_Expirer C) now) s = (e, t) \<Longrightarrow> serving C w t"
| world: "serving C w s \<Longrightarrow> serving C w (s\<lparr>sy_World := v\<rparr>)"

lemma serving_shown:
  assumes "well_started F C" and "serving C w t"
  shows "shown t"
  using assms(2)
proof (induction rule: serving.induct)
  case started
  show ?case using assms(1) by (simp add: shown_def boot_def well_started_def Inflight_def NewGate_def)
next
  case (sampled s u t)
  have src: "usage_source (sm_Source (co_Sampler C))" using assms(1) by (simp add: well_started_def)
  show ?case
    by (rule preserves_run [OF shown_quiet [OF keeps_gate_sampleOnce [OF src] other_sampleOnce [OF src]] sampled.IH sampled.hyps(2)])
qed (use preserves_run [OF shown_Reconcile] preserves_run [OF shown_expire_tick] in \<open>auto simp: shown_def\<close>)

text \<open>
  C12: the in-flight gauge tells the truth. In every state of the life of one process, under any schedule, any
  answers of the cluster and whatever fails, a scrape of \<open>memreload_inflight_rollouts\<close> reads the number of slots
  the gate holds: no path through the reconciler or the expirer changes the gate and forgets the gauge.
  Reconciles and ticks are taken one after the other; two that overlap may set the gauge in the wrong order.
\<close>

theorem inflight_gauge_accurate:
  assumes "run_state (run H F) s0 = (Inr C, s1)" and "serving C w t"
  shows "gauge_value (sy_Trace t) = int (Inflight (sy_Gate t))"
  using serving_shown [OF run_well_started [OF assms(1)] assms(2)] by (simp add: shown_def)

lemma leak_serving: "serving leak_controller (leak_cluster noon) leak_4"
proof -
  have "serving leak_controller (leak_cluster noon) leak_0" unfolding leak_0_def by (rule serving.started)
  then have "serving leak_controller (leak_cluster noon) leak_1"
    unfolding leak_1_def by (rule serving.sampled) (rule prod.collapse [symmetric])
  then have "serving leak_controller (leak_cluster noon) leak_2" unfolding leak_2_def by (rule serving.world)
  then have "serving leak_controller (leak_cluster noon) leak_3"
    unfolding leak_3_def by (rule serving.sampled) (rule prod.collapse [symmetric])
  then show ?thesis unfolding leak_4_def by (rule serving.reconciled) (rule prod.collapse [symmetric])
qed

text \<open>The rollout of the demonstration holds its slot.\<close>

lemma leak_slot:
  "Inflight (sy_Gate (snd (run_state
      (handle_breach (co_Reconciler leak_controller) leak_workload leak_config leak_breach (noon + 10 * Minute) leak_policy
        ''Deployment/prod/web'' (TemplateVersion demo_lib leak_workload))
      \<lparr>sy_World = leak_cluster (noon + 10 * Minute), sy_Gate = NewGate 1, sy_Samples = st, sy_Warned = wn,
       sy_WouldRestart = wr, sy_Trace = es\<rparr>))) = 1"
  by code_simp

lemma inflight_gauge_accurate_witness: "gauge_value (sy_Trace leak_4) = 1"
proof -
  have s: "leak_3 = \<lparr>sy_World = leak_cluster (noon + 10 * Minute), sy_Gate = NewGate 1, sy_Samples = sy_Samples leak_3,
      sy_Warned = sy_Warned leak_3, sy_WouldRestart = sy_WouldRestart leak_3, sy_Trace = sy_Trace leak_3\<rparr>"
    by (simp add: leak_sampled(1) leak_world [symmetric])
  have "Inflight (sy_Gate leak_4) = 1" unfolding leak_handled by (subst s) (rule leak_slot)
  with inflight_gauge_accurate [OF leak_started leak_serving] show ?thesis by simp
qed

end
