(* ===== verification/LeakRestart.thy ===== *)
theory LeakRestart
  imports EndToEnd
begin

text \<open>
  A whole reconcile of a policy at rest, over a cluster that holds still while it is read: it restarts the
  workload exactly when one of its pods has a container that leaks.
\<close>

section \<open>A cluster that holds still\<close>

definition reads_still :: "'w api \<Rightarrow> bool" where
  "reads_still A \<longleftrightarrow> leaves (\<lambda>w. w) (a_Now A) \<and> (\<forall>ns n. leaves (\<lambda>w. w) (a_GetPolicy A ns n))
     \<and> (\<forall>ns n. leaves (\<lambda>w. w) (a_GetDeployment A ns n)) \<and> (\<forall>ns n. leaves (\<lambda>w. w) (a_GetStatefulSet A ns n))
     \<and> (\<forall>ns n. leaves (\<lambda>w. w) (a_GetReplicaSet A ns n)) \<and> (\<forall>ns n. leaves (\<lambda>w. w) (a_GetRollout A ns n))
     \<and> (\<forall>ns sel. leaves (\<lambda>w. w) (a_ListPods A ns sel))"

lemma still_calls:
  assumes "reads_still A"
  shows "keeps (\<lambda>s. s) (call (a_Now A))" "keeps (\<lambda>s. s) (call (a_GetPolicy A ns n))"
    "keeps (\<lambda>s. s) (call (a_GetDeployment A ns n))" "keeps (\<lambda>s. s) (call (a_GetStatefulSet A ns n))"
    "keeps (\<lambda>s. s) (call (a_GetReplicaSet A ns n))" "keeps (\<lambda>s. s) (call (a_GetRollout A ns n))"
    "keeps (\<lambda>s. s) (call (a_ListPods A ns sel))"
  using assms by (auto simp: reads_still_def leaves_def intro: keeps_all_call)

lemma still_reads [keeping]:
  assumes [keeping]: "reads_still A"
  shows "keeps (\<lambda>s. s) (GetWorkload A k ns n)" "keeps (\<lambda>s. s) (ResolveOwner L A p ks)"
    "keeps (\<lambda>s. s) (listWorkloadPods L A wl)" "keeps (\<lambda>s. s) (podAge A p)"
  unfolding GetWorkload_def ResolveOwner_def resolve_statefulset_def resolve_replicaset_def listWorkloadPods_def podAge_def
  by (intro keeping still_calls)+

text \<open>What a read answers in a state. It depends on the world alone.\<close>

definition answer :: "('w, 'a) op \<Rightarrow> 'w sys \<Rightarrow> 'a" where
  "answer m s = fst (run_state m s)"

lemma answer_run: "keeps (\<lambda>s. s) m \<Longrightarrow> run_state m s = (answer m s, s)"
  unfolding answer_def by (rule run_keeps_all) auto

lemma answer_world:
  assumes "sy_World s = sy_World u"
  shows "answer (podAge A pod) s = answer (podAge A pod) u" "answer (ResolveOwner L A pod ks) s = answer (ResolveOwner L A pod ks) u"
  using assms
  by (auto simp: answer_def podAge_def ResolveOwner_def resolve_statefulset_def resolve_replicaset_def call_def Let_def
      State_Monad.bind_def split: prod.split sum.split option.split)

section \<open>The scan\<close>

text \<open>
  The pods the scan judges: ready, past the startup grace, of the current revision of an eligible owner. A pod
  that can be judged or passed over is one whose owner is known or not eligible.
\<close>

definition judged :: "'w reconciler \<Rightarrow> pod_config \<Rightarrow> 'w sys \<Rightarrow> pod \<Rightarrow> bool" where
  "judged R cfg s pod \<longleftrightarrow> podReady pod \<and> pc_StartupGrace cfg \<le> answer (podAge (rc_API R) pod) s
     \<and> (case answer (ResolveOwner (rc_Lib R) (rc_API R) pod (rc_Kinds R)) s of Inl e \<Rightarrow> False
        | Inr ow \<Rightarrow> IsCurrentRevision (rc_Lib R) ow = Inr True)"

definition judgeable :: "'w reconciler \<Rightarrow> 'w sys \<Rightarrow> pod \<Rightarrow> bool" where
  "judgeable R s pod \<longleftrightarrow> (case answer (ResolveOwner (rc_Lib R) (rc_API R) pod (rc_Kinds R)) s of
       Inl e \<Rightarrow> err_is e ErrNoOwner | Inr ow \<Rightarrow> is_ok (IsCurrentRevision (rc_Lib R) ow))"

definition leaking :: "pod_config \<Rightarrow> time \<Rightarrow> 'w sys \<Rightarrow> pod \<Rightarrow> bool" where
  "leaking cfg now s pod \<longleftrightarrow>
     (\<exists>t \<in> set (fst (SelectTargets pod cfg)). res_Leaking (Detect (Samples (sy_Samples s) (target_key pod t)) (tg_Det t) now))"

text \<open>What stays the same during a scan.\<close>

definition scene :: "'w sys \<Rightarrow> 'w \<times> gate \<times> sample_store" where
  "scene s = (sy_World s, sy_Gate s, sy_Samples s)"

lemma scene_judged:
  "scene u = scene s \<Longrightarrow> judged R cfg u pod = judged R cfg s pod" "scene u = scene s \<Longrightarrow> judgeable R u pod = judgeable R s pod"
  "scene u = scene s \<Longrightarrow> leaking cfg now u pod = leaking cfg now s pod"
  unfolding judged_def judgeable_def leaking_def scene_def using answer_world [of u s] by simp_all

lemma scan_targets_leak:
  "run_state (scan_targets pod now ts) s = (b, t) \<Longrightarrow> t = s \<and>
     (b \<noteq> None \<longleftrightarrow> (\<exists>t \<in> set ts. res_Leaking (Detect (Samples (sy_Samples s) (target_key pod t)) (tg_Det t) now)))"
proof (induction ts)
  case (Cons x ts)
  then show ?case by (auto simp: State_Monad.bind_def get_samples_def target_key_def Let_def split: if_splits)
qed simp

lemma scan_owned_leak:
  "wp (scan_owned R cfg now pod) (\<lambda>b t. scene t = scene s \<and> (b \<noteq> None \<longleftrightarrow> leaking cfg now s pod)) s"
proof (cases "SelectTargets pod cfg")
  case (Pair ts d)
  show ?thesis
  proof (cases "ts = []")
    case True
    then show ?thesis by (auto simp: scan_owned_def Pair leaking_def scene_def warnUnmonitorableOnce_def)
  next
    case False
    obtain b t where r: "run_state (scan_targets pod now ts) s = (b, t)" by fastforce
    from scan_targets_leak [OF this] show ?thesis
      using False by (auto simp: scan_owned_def Pair leaking_def wp_def r)
  qed
qed

lemma wp_answer: "keeps (\<lambda>s. s) m \<Longrightarrow> wp m Q s = Q (answer m s) s"
  by (simp add: wp_def answer_run)

lemma scan_pod_leak:
  assumes A: "reads_still (rc_API R)" and "judgeable R s pod"
  shows "wp (scan_pod R cfg now pod) (\<lambda>r t. scene t = scene s
    \<and> (\<exists>b. r = Inr b \<and> (b \<noteq> None \<longleftrightarrow> judged R cfg s pod \<and> leaking cfg now s pod))) s"
proof -
  note reads = still_reads [OF A, THEN wp_answer]
  have owned: "wp (scan_owned R cfg now pod) (\<lambda>b t. scene t = scene s \<and> (b \<noteq> None \<longleftrightarrow> leaking cfg now s pod)) s"
    by (rule scan_owned_leak)
  show ?thesis
    using assms(2)
    by (auto simp: scan_pod_def reads judged_def judgeable_def not_less is_ok_iff intro: wp_mono [OF owned] split: sum.splits)
qed

lemma scan_pods_leak:
  assumes A: "reads_still (rc_API R)" and "\<forall>pod \<in> set pods. judgeable R s pod" and "scene u = scene s"
  shows "wp (scan_pods R cfg now pods) (\<lambda>r t. scene t = scene s
    \<and> (\<exists>b. r = Inr b \<and> (b \<noteq> None \<longleftrightarrow> (\<exists>pod \<in> set pods. judged R cfg s pod \<and> leaking cfg now s pod)))) u"
  using assms(2,3)
proof (induction pods arbitrary: u)
  case (Cons pod pods)
  let ?leak = "\<lambda>pods. \<exists>pod \<in> set pods. judged R cfg s pod \<and> leaking cfg now s pod"
  have "judgeable R u pod" using Cons.prems scene_judged(2) [of u s] by simp
  from scan_pod_leak [OF A this, of cfg now] show ?case
    unfolding scan_pods.simps wp_bind
  proof (rule wp_mono, clarify)
    fix t and b :: "breach option"
    assume t: "scene t = scene u" and b: "b \<noteq> None \<longleftrightarrow> judged R cfg u pod \<and> leaking cfg now u pod"
    have leak: "?leak (pod # pods) \<longleftrightarrow> b \<noteq> None \<or> ?leak pods" using b scene_judged(1,3) [OF Cons.prems(2)] by auto
    show "wp (case Inr b of Inl e \<Rightarrow> ret (Inl e) | Inr b \<Rightarrow> (case b of None \<Rightarrow> scan_pods R cfg now pods | Some br \<Rightarrow> ret (Inr (Some br))))
        (\<lambda>r t. scene t = scene s \<and> (\<exists>b. r = Inr b \<and> (b \<noteq> None \<longleftrightarrow> ?leak (pod # pods)))) t"
      unfolding leak using Cons.IH [of t] Cons.prems t by (cases b) auto
  qed
qed simp

section \<open>The reconcile\<close>

text \<open>
  The policy \<open>p\<close> at rest over its workload \<open>wl\<close>: alive, with its finalizer, its status mirroring the spec and
  naming the live workload, whose last rollout has settled, and the pods found.
\<close>

definition at_rest :: "'w reconciler \<Rightarrow> policy \<Rightarrow> workload \<Rightarrow> pod list \<Rightarrow> 'w sys \<Rightarrow> bool" where
  "at_rest R p wl pods s \<longleftrightarrow> p_DeletionTimestamp p = None
     \<and> \<not> snd (l_AddFinalizer (rc_Lib R) (p_Finalizers p) PolicyFinalizer)
     \<and> st_DryRun (p_Status p) = pc_DryRun (ResolvePolicy (rc_Defaults R) (p_Spec p))
     \<and> answer (GetWorkload (rc_API R) (wr_Kind (sp_WorkloadRef (p_Spec p))) (p_Namespace p) (wr_Name (sp_WorkloadRef (p_Spec p)))) s = Inr wl
     \<and> Workload_UID wl = Inr (st_WorkloadUID (p_Status p)) \<and> IsSettled (rc_Lib R) wl = Inr True
     \<and> answer (listWorkloadPods (rc_Lib R) (rc_API R) wl) s = Inr pods \<and> (\<forall>pod \<in> set pods. judgeable R s pod)"

definition policy_wkey :: "policy \<Rightarrow> string" where
  "policy_wkey p = WorkloadKey (wr_Kind (sp_WorkloadRef (p_Spec p))) (p_Namespace p) (wr_Name (sp_WorkloadRef (p_Spec p)))"

text \<open>A reconcile of such a policy gets as far as the detection, with nothing changed.\<close>

lemma Reconcile_detects:
  assumes A: "reads_still (rc_API R)" and p: "fst (a_GetPolicy (rc_API R) ns name (sy_World s)) = Inr p"
    and rest: "at_rest R p wl pods s" and free: "\<not> Holds (sy_Gate s) (policy_wkey p)"
  shows "wp (Reconcile R ns name) Q s \<longleftrightarrow> wp (detect_phase R wl (ResolvePolicy (rc_Defaults R) (p_Spec p))
    (fst (a_Now (rc_API R) (sy_World s))) p (policy_wkey p) (TemplateVersion (rc_Lib R) wl)) Q s"
proof -
  note reads = still_reads [OF A, THEN wp_answer] still_calls [OF A, THEN wp_answer]
  have calls: "answer (call f) s = fst (f (sy_World s))" for f :: "'a \<Rightarrow> 'b \<times> 'a"
    by (simp add: answer_def call_def split: prod.split)
  obtain fs where fs: "l_AddFinalizer (rc_Lib R) (p_Finalizers p) PolicyFinalizer = (fs, False)"
    using rest by (cases "l_AddFinalizer (rc_Lib R) (p_Finalizers p) PolicyFinalizer") (auto simp: at_rest_def)
  have same: "p\<lparr>p_Status := AdoptWorkload (p_Status p) (st_WorkloadUID (p_Status p))\<rparr> = p" by (simp add: AdoptWorkload_def)
  show ?thesis
    using rest free
    by (simp add: Reconcile_def add_finalizer_phase_def live_phase_def get_workload_phase_def workload_phase_def settle_phase_def
        reads calls p fs same at_rest_def policy_wkey_def Let_def del: wp_call)
qed

lemma adds_no_write_scan: "adds no_write (scan_pods R cfg now pods)"
proof -
  have [adding]: "adds no_write (warnUnmonitorableOnce pod)" for pod by (auto simp: adds_def warnUnmonitorableOnce_def)
  have "adds no_write (scan_pod R cfg now pod)" for pod
    unfolding scan_pod_def scan_owned_def by (intro adding)
  then show ?thesis by (induction pods) (auto intro!: adding)
qed

text \<open>
  C5: a leak is restarted, and nothing else is. Over a cluster that holds still while it is read and takes
  writes, with the gates open, take a policy at rest that is not a dry run, for a Deployment or a StatefulSet. If some
  pod that is ready, past its grace and of the current revision has a container the detector finds
  leaking, then one reconcile patches the workload, holds its slot and requeues the policy, whatever profile
  capture and notification do; otherwise the reconcile ends quietly, with the slots as they were and nothing written.
\<close>

theorem leaks_are_restarted:
  assumes "reads_still (rc_API R)" and "writes_accepted (rc_API R)"
    and "fst (a_GetPolicy (rc_API R) ns name (sy_World s)) = Inr p" and "at_rest R p wl pods s"
    and "ResolvePolicy (rc_Defaults R) (p_Spec p) = cfg" and "fst (a_Now (rc_API R) (sy_World s)) = now"
    and "\<not> pc_DryRun cfg" and "wl_Kind wl \<noteq> KindRollout"
    and "\<not> gate_closed R cfg (p_Status p) (TemplateVersion (rc_Lib R) wl) now (sy_Gate s) (policy_wkey p)"
  shows "wp (Reconcile R ns name) (\<lambda>r t. if \<exists>pod \<in> set pods. judged R cfg s pod \<and> leaking cfg now s pod
      then restarted R wl (policy_wkey p) r t
      else r = Inr 0 \<and> sy_Gate t = sy_Gate s \<and> (\<exists>es. sy_Trace t = es @ sy_Trace s \<and> list_all no_write es)) s"
proof -
  let ?v = "TemplateVersion (rc_Lib R) wl" and ?k = "policy_wkey p"
  let ?leak = "\<exists>pod \<in> set pods. judged R cfg s pod \<and> leaking cfg now s pod"
  let ?quiet = "\<lambda>t. sy_Gate t = sy_Gate s \<and> (\<exists>es. sy_Trace t = es @ sy_Trace s \<and> list_all no_write es)"
  have free: "\<not> Holds (sy_Gate s) ?k"
    using assms(9) by (auto simp: gate_closed_def TryAcquire_def Holds_def split: option.splits)
  have pods: "answer (listWorkloadPods (rc_Lib R) (rc_API R) wl) s = Inr pods" and ok: "\<forall>pod \<in> set pods. judgeable R s pod"
    and live: "answer (GetWorkload (rc_API R) (wr_Kind (sp_WorkloadRef (p_Spec p))) (p_Namespace p) (wr_Name (sp_WorkloadRef (p_Spec p)))) s = Inr wl"
    using assms(4) by (simp_all add: at_rest_def)
  have wl: "workload_complete wl" "answer (GetWorkload (rc_API R) (wl_Kind wl) (wl_Namespace wl) (wl_Name wl)) s = Inr wl"
    using GetWorkload_shape [of "rc_API R" "wr_Kind (sp_WorkloadRef (p_Spec p))" "p_Namespace p" "wr_Name (sp_WorkloadRef (p_Spec p))" s]
      live wp_answer [OF still_reads(1) [OF assms(1)]] by auto
  have act: "wp (handle_breach R wl cfg b now p ?k ?v) (restarted R wl ?k) u" if "scene u = scene s" for b u
  proof (rule open_gates_restart)
    have "fst (run_state (GetWorkload (rc_API R) (wl_Kind wl) (wl_Namespace wl) (wl_Name wl)) u) = Inr wl"
      using wl(2) GetWorkload_world [of u s] that by (simp add: answer_def scene_def)
    then show "fst (run_state (GetWorkload (rc_API R) (wl_Kind wl) (wl_Namespace wl) (wl_Name wl)) u) = Inr wl" .
  qed (use assms wl(1) that in \<open>simp_all add: gate_closed_def scene_def\<close>)
  have scan: "wp (scan_pods R cfg now pods) (\<lambda>r t. (scene t = scene s \<and> (\<exists>b. r = Inr b \<and> (b \<noteq> None \<longleftrightarrow> ?leak))) \<and> ?quiet t) s"
    using wp_conj [OF scan_pods_leak [OF assms(1) ok refl, of cfg now] addsD [OF adds_no_write_scan]]
    by (rule wp_mono) (auto simp: scene_def)
  have after: "wp (case b of None \<Rightarrow> ret (Inr 0) | Some br \<Rightarrow> handle_breach R wl cfg br now p ?k ?v)
      (\<lambda>r t. if ?leak then restarted R wl ?k r t else r = Inr 0 \<and> ?quiet t) t"
    if t: "scene t = scene s" "?quiet t" and b: "b \<noteq> None \<longleftrightarrow> ?leak" for b t
  proof (cases b)
    case None
    with b have no: "\<not> ?leak" by simp
    show ?thesis unfolding if_not_P [OF no] None using t(2) by simp
  next
    case (Some br)
    with b have leak: ?leak by simp
    show ?thesis unfolding if_P [OF leak] Some using act [OF t(1)] by simp
  qed
  show ?thesis
    unfolding Reconcile_detects [OF assms(1,3,4) free] detect_phase_def assms(5,6) wp_bind
      wp_answer [OF still_reads(3) [OF assms(1)]] pods sum.case
    by (rule wp_mono [OF scan], elim conjE exE, simp only: sum.case, rule after) blast+
qed

text \<open>The reconcile of the demonstration, on a server that takes every write.\<close>

definition willing_api :: "cluster api" where
  "willing_api = leak_api\<lparr>a_UpdateStatus := \<lambda>p w. (Inr p, w), a_PatchDeployment := \<lambda>x y w. (Inr y, w),
     a_PatchStatefulSet := \<lambda>x y w. (Inr y, w), a_PatchRollout := \<lambda>x y w. (Inr y, w)\<rparr>"

definition willing_reconciler :: "cluster reconciler" where
  "willing_reconciler = (co_Reconciler leak_controller)\<lparr>rc_API := willing_api\<rparr>"

lemma willing_parts: "rc_Lib willing_reconciler = demo_lib" "rc_API willing_reconciler = willing_api"
  "rc_Kinds willing_reconciler = rc_Kinds (co_Reconciler leak_controller)"
  "ResolvePolicy (rc_Defaults willing_reconciler) demo_spec = leak_config"
  "rc_Windows willing_reconciler = rc_Windows (co_Reconciler leak_controller)"
  by (simp_all add: willing_reconciler_def leak_parts leak_config_def)

lemma willing_answers:
  "podAge willing_api = podAge leak_api" "ResolveOwner L willing_api = ResolveOwner L leak_api"
  "listWorkloadPods L willing_api = listWorkloadPods L leak_api" "GetWorkload willing_api = GetWorkload leak_api"
proof -
  have same: "a_Now willing_api = a_Now leak_api" "a_GetDeployment willing_api = a_GetDeployment leak_api"
    "a_GetStatefulSet willing_api = a_GetStatefulSet leak_api" "a_GetReplicaSet willing_api = a_GetReplicaSet leak_api"
    "a_GetRollout willing_api = a_GetRollout leak_api" "a_ListPods willing_api = a_ListPods leak_api"
    by (simp_all add: willing_api_def)
  show "podAge willing_api = podAge leak_api" "ResolveOwner L willing_api = ResolveOwner L leak_api"
    "listWorkloadPods L willing_api = listWorkloadPods L leak_api" "GetWorkload willing_api = GetWorkload leak_api"
    unfolding fun_eq_iff podAge_def ResolveOwner_def resolve_statefulset_def resolve_replicaset_def listWorkloadPods_def
      GetWorkload_def same
    by simp_all
qed

lemma willing_judged: "judged willing_reconciler leak_config leak_3 demo_pod" "judgeable willing_reconciler leak_3 demo_pod"
  "leaking leak_config (noon + 10 * Minute) leak_3 demo_pod"
proof -
  have p: "podReady demo_pod" "IsCurrentRevision demo_lib leak_owner = Inr True" "pc_StartupGrace leak_config \<le> noon + 10 * Minute - 1"
    by code_simp+
  show "judged willing_reconciler leak_config leak_3 demo_pod" "judgeable willing_reconciler leak_3 demo_pod"
    using p by (simp_all add: judged_def judgeable_def willing_parts willing_answers answer_def leak_age leak_owned)
  show "leaking leak_config (noon + 10 * Minute) leak_3 demo_pod"
    using wp_run [OF scan_owned_leak leak_scanned] by simp
qed

lemma leaks_are_restarted_witness:
  "wp (Reconcile willing_reconciler ''prod'' ''web-policy'') (restarted willing_reconciler leak_workload (policy_wkey leak_policy)) leak_3"
proof -
  have p: "p_DeletionTimestamp leak_policy = None" "p_Spec leak_policy = demo_spec" "p_Namespace leak_policy = ''prod''"
    "p_Finalizers leak_policy = [PolicyFinalizer]" "st_WorkloadUID (p_Status leak_policy) = ''u1''" "\<not> st_DryRun (p_Status leak_policy)"
    by (simp_all add: leak_policy_def demo_policy_def PolicyFinalizer_def empty_status_def)
  have d: "wr_Kind (sp_WorkloadRef demo_spec) = KindDeployment" "wr_Name (sp_WorkloadRef demo_spec) = ''web''" "\<not> pc_DryRun leak_config"
    "wl_Kind leak_workload \<noteq> KindRollout"
    by (simp_all add: demo_spec_def leak_config_def ResolvePolicy_def leak_workload_def bare_workload_def kind_defs Let_def)
  have w: "IsSettled demo_lib leak_workload = Inr True" "Workload_UID leak_workload = Inr ''u1''" by code_simp+
  have get: "fst (a_GetPolicy willing_api ''prod'' ''web-policy'' (sy_World leak_3)) = Inr leak_policy"
    "fst (a_Now willing_api (sy_World leak_3)) = noon + 10 * Minute"
    by (simp_all add: willing_api_def leak_api_def demo_api_def leak_world leak_cluster_def as_found_def leak_policy_def demo_policy_def)
  have wl: "answer (GetWorkload leak_api KindDeployment ''prod'' ''web'') leak_3 = Inr leak_workload"
    by (simp add: answer_def GetWorkload_def call_def leak_api_def demo_api_def leak_world leak_cluster_def as_found_def
        demo_deployment_def leak_workload_def)
  have rest: "at_rest willing_reconciler leak_policy leak_workload [demo_pod] leak_3"
    by (simp add: at_rest_def p d w wl willing_parts willing_answers willing_judged answer_def [of "listWorkloadPods _ _ _"] leak_pods)
       (simp add: demo_lib_def d)
  have still: "reads_still (rc_API willing_reconciler)" "writes_accepted (rc_API willing_reconciler)"
    by (simp_all add: willing_parts willing_api_def leak_api_def demo_api_def reads_still_def leaves_def writes_accepted_def)
  have "\<not> InCooldown (p_Status leak_policy) (noon + 10 * Minute) (pc_Cooldown leak_config)"
    "\<not> BreakerTripped (p_Status leak_policy) (TemplateVersion demo_lib leak_workload) (noon + 10 * Minute)
       (pc_RestartWindow leak_config) (pc_MaxRestartsPerWindow leak_config)"
    "IsAllowed (windows_in_force willing_reconciler leak_config) (noon + 10 * Minute)"
    by code_simp+
  moreover have "fst (TryAcquire (NewGate 1) (policy_wkey leak_policy) (noon + 10 * Minute)) = Acquired"
    by (simp add: TryAcquire_def NewGate_def)
  ultimately have "\<not> gate_closed willing_reconciler leak_config (p_Status leak_policy) (TemplateVersion (rc_Lib willing_reconciler) leak_workload)
      (noon + 10 * Minute) (sy_Gate leak_3) (policy_wkey leak_policy)"
    by (simp add: gate_closed_def willing_parts leak_sampled(1))
  from leaks_are_restarted [OF still _ rest _ _ d(3,4) this, of "''prod''" "''web-policy''"]
  show ?thesis using get willing_judged by (simp add: willing_parts p del: wp_call)
qed

section \<open>Only leaks\<close>

text \<open>
  What the clock of the program can read, and what its API server can list; and the evidence for a restart: a
  ready pod among those listed, with a target that leaks at an instant the clock read inside the windows in force.
\<close>

definition instant :: "'w api \<Rightarrow> time \<Rightarrow> bool" where
  "instant A now \<longleftrightarrow> (\<exists>w. fst (a_Now A w) = now)"

definition listed :: "'w api \<Rightarrow> pod \<Rightarrow> bool" where
  "listed A pod \<longleftrightarrow> (\<exists>ns sel w pods. fst (a_ListPods A ns sel w) = Inr pods \<and> pod \<in> set pods)"

lemma answers_instant: "wp (call (a_Now A)) (\<lambda>now _. instant A now) s"
  by (auto simp: wp_def call_def instant_def split: prod.split intro: exI [of _ "sy_World s"])

lemma answers_listed: "wp (listWorkloadPods L A wl) (\<lambda>r _. \<forall>pods. r = Inr pods \<longrightarrow> (\<forall>pod \<in> set pods. listed A pod)) s"
  by (auto simp: listWorkloadPods_def wp_def call_def listed_def split: prod.split sum.split) (metis fst_conv)

definition evidence :: "'w reconciler \<Rightarrow> pod_config \<Rightarrow> sample_store \<Rightarrow> time \<Rightarrow> bool" where
  "evidence R cfg store now \<longleftrightarrow> instant (rc_API R) now \<and> IsAllowed (windows_in_force R cfg) now
     \<and> (\<exists>pod t. listed (rc_API R) pod \<and> podReady pod \<and> t \<in> set (fst (SelectTargets pod cfg))
          \<and> res_Leaking (Detect (Samples store (target_key pod t)) (tg_Det t) now))"

text \<open>An operation that patches nothing when it starts with the samples \<open>st\<close>.\<close>

definition harmless :: "sample_store \<Rightarrow> ('w, 'a) op \<Rightarrow> bool" where
  "harmless st m \<longleftrightarrow> (\<forall>s. sy_Samples s = st \<longrightarrow> wp m (\<lambda>_ t. \<exists>es. sy_Trace t = es @ sy_Trace s \<and> list_all no_patch es) s)"

lemma harmless_adds: "adds no_patch m \<Longrightarrow> harmless st m"
  unfolding harmless_def by (blast intro: addsD)

lemma harmless_bind:
  assumes m: "keeps sy_Samples m" "adds no_patch m" and V: "\<And>s. sy_Samples s = st \<Longrightarrow> wp m (\<lambda>a t. V a) s"
    and f: "\<And>a. V a \<Longrightarrow> harmless st (f a)"
  shows "harmless st (State_Monad.bind m f)"
  unfolding harmless_def wp_bind
proof (intro allI impI)
  fix s :: "'a sys"
  assume s: "sy_Samples s = st"
  show "wp m (\<lambda>a. wp (f a) (\<lambda>_ t. \<exists>es. sy_Trace t = es @ sy_Trace s \<and> list_all no_patch es)) s"
  proof (rule wp_mono [OF wp_conj [OF V [OF s] wp_conj [OF keepsD [OF m(1)] addsD [OF m(2)]]]], elim conjE exE)
    fix a and t :: "'a sys" and es
    assume t: "V a" "sy_Samples t = sy_Samples s" and es: "sy_Trace t = es @ sy_Trace s" "list_all no_patch es"
    have "wp (f a) (\<lambda>_ u. \<exists>fs. sy_Trace u = fs @ sy_Trace t \<and> list_all no_patch fs) t"
      using f [OF t(1)] t(2) s by (simp add: harmless_def)
    then show "wp (f a) (\<lambda>_ u. \<exists>es. sy_Trace u = es @ sy_Trace s \<and> list_all no_patch es) t"
      by (rule wp_mono) (use es in \<open>auto simp: list_all_append\<close>)
  qed
qed

lemma harmless_next: "keeps sy_Samples m \<Longrightarrow> adds no_patch m \<Longrightarrow> (\<And>a. harmless st (f a)) \<Longrightarrow> harmless st (State_Monad.bind m f)"
  by (rule harmless_bind [where V = "\<lambda>_. True"]) (simp_all add: wp_def split: prod.split)

lemma harmless_branch:
  "(b \<Longrightarrow> harmless st m) \<Longrightarrow> (\<not> b \<Longrightarrow> harmless st n) \<Longrightarrow> harmless st (if b then m else n)"
  "(\<And>e. r = Inl e \<Longrightarrow> harmless st (f e)) \<Longrightarrow> (\<And>x. r = Inr x \<Longrightarrow> harmless st (g x)) \<Longrightarrow>
   harmless st (case r of Inl e \<Rightarrow> f e | Inr x \<Rightarrow> g x)"
  "(\<And>a c. pr = (a, c) \<Longrightarrow> harmless st (q a c)) \<Longrightarrow> harmless st (case pr of (a, c) \<Rightarrow> q a c)"
  by (cases b; cases r; cases pr; simp)+

lemmas harmless_ret = adds_return [THEN harmless_adds]

lemma scan_evidence:
  assumes no: "\<not> evidence R cfg st now" and allowed: "IsAllowed (windows_in_force R cfg) now"
    and clock: "instant (rc_API R) now"
  shows "sy_Samples s = st \<Longrightarrow> \<forall>pod \<in> set pods. listed (rc_API R) pod \<Longrightarrow> wp (scan_pods R cfg now pods) (\<lambda>r t. \<forall>b. r \<noteq> Inr (Some b)) s"
proof (induction pods arbitrary: s)
  case (Cons pod pods)
  let ?Q = "\<lambda>r t. sy_Samples t = st \<and> (\<forall>b. r \<noteq> Inr (Some b))"
  have owned: "wp (scan_owned R cfg now pod) (\<lambda>b t. b = None \<and> sy_Samples t = st) u" if "podReady pod" "sy_Samples u = st" for u
    using scan_owned_leak [of R cfg now pod u]
    by (rule wp_mono) (use no allowed clock Cons.prems(2) that in \<open>auto simp: evidence_def leaking_def scene_def\<close>)
  have owner: "wp (do { owner \<leftarrow> ResolveOwner (rc_Lib R) (rc_API R) pod (rc_Kinds R);
      case owner of Inl e \<Rightarrow> ret (if err_is e ErrNoOwner then Inr None else Inl e)
      | Inr ow \<Rightarrow> (case IsCurrentRevision (rc_Lib R) ow of Inl e \<Rightarrow> ret (Inl e)
          | Inr current \<Rightarrow> if \<not> current then ret (Inr None) else do { b \<leftarrow> scan_owned R cfg now pod; ret (Inr b) }) }) ?Q u"
    if "podReady pod" "sy_Samples u = st" for u
    unfolding wp_bind by (rule wp_mono [OF keepsD [OF keeps_ResolveOwner(2)]])
      (use that owned in \<open>auto split: sum.split intro!: wp_mono [OF owned]\<close>)
  have "wp (scan_pod R cfg now pod) ?Q s"
  proof (cases "podReady pod")
    case True
    have "wp (do { age \<leftarrow> podAge (rc_API R) pod;
        if age < pc_StartupGrace cfg then ret (Inr None) else do { owner \<leftarrow> ResolveOwner (rc_Lib R) (rc_API R) pod (rc_Kinds R);
          case owner of Inl e \<Rightarrow> ret (if err_is e ErrNoOwner then Inr None else Inl e)
          | Inr ow \<Rightarrow> (case IsCurrentRevision (rc_Lib R) ow of Inl e \<Rightarrow> ret (Inl e)
              | Inr current \<Rightarrow> if \<not> current then ret (Inr None) else do { b \<leftarrow> scan_owned R cfg now pod; ret (Inr b) }) } }) ?Q s"
      unfolding wp_bind [of "podAge _ _"] by (rule wp_mono [OF keepsD [OF keeps_podAge(2)]])
        (use owner [OF True] Cons.prems(1) in \<open>auto simp del: wp_bind\<close>)
    then show ?thesis using True by (simp add: scan_pod_def del: wp_bind)
  qed (simp add: scan_pod_def Cons.prems(1))
  then show ?case
    unfolding scan_pods.simps wp_bind by (rule wp_mono) (use Cons.IH Cons.prems(2) in \<open>auto split: sum.split option.split\<close>)
qed simp

lemma keeps_samples_scan: "keeps sy_Samples (scan_pods R cfg now pods)"
proof -
  have [keeping]: "keeps sy_Samples (scan_targets pod now ts)" for pod ts
    by (induction ts) (auto simp: Let_def intro!: keeping)
  have "keeps sy_Samples (scan_pod R cfg now pod)" for pod
    unfolding scan_pod_def scan_owned_def by (intro keeping keeps_samples_small)
  then show ?thesis by (induction pods) (auto intro!: keeping)
qed

lemma harmless_detect:
  assumes no: "pc_DryRun cfg \<or> \<not> evidence R cfg st now" and clock: "instant (rc_API R) now"
  shows "harmless st (detect_phase R wl cfg now p k v)"
proof -
  have windows: "adds no_patch (window_gate R wl cfg b now p k v)" if "\<not> IsAllowed (windows_in_force R cfg) now" for b
  proof -
    have "yields (\<lambda>ws. ws = windows_in_force R cfg) (effective_windows R p cfg)" by (simp add: yields_def effective_windows_wp)
    then show ?thesis
      unfolding window_gate_def by (rule adds_bind_yields [OF adds_effective_windows]) (use that in \<open>simp add: adds_defer_restart\<close>)
  qed
  have closed: "adds no_patch (handle_breach R wl cfg b now p k v)" if "pc_DryRun cfg \<or> \<not> IsAllowed (windows_in_force R cfg) now" for b
  proof (cases "pc_DryRun cfg")
    case False
    with that have "adds no_patch (window_gate R wl cfg b now p k v)" by (intro windows) simp
    then show ?thesis unfolding handle_breach_def by (intro adding; simp)
  qed (rule adds_handle_breach_dry_run)
  have found: "wp (scan_pods R cfg now pods) (\<lambda>r t. pc_DryRun cfg \<or> \<not> IsAllowed (windows_in_force R cfg) now \<or> (\<forall>b. r \<noteq> Inr (Some b))) s"
    if "\<forall>pod \<in> set pods. listed (rc_API R) pod" "sy_Samples s = st" for pods s
    using no scan_evidence [OF _ _ clock that(2,1)] by (cases "pc_DryRun cfg \<or> \<not> IsAllowed (windows_in_force R cfg) now")
      (auto simp: wp_def split: prod.split elim: wp_mono)
  have rest: "harmless st (case r of Inl e \<Rightarrow> ret (Inl e) | Inr b \<Rightarrow> (case b of None \<Rightarrow> ret (Inr 0)
      | Some br \<Rightarrow> handle_breach R wl cfg br now p k v))"
    if "pc_DryRun cfg \<or> \<not> IsAllowed (windows_in_force R cfg) now \<or> (\<forall>b. r \<noteq> Inr (Some b))" for r
    using that closed by (auto intro!: harmless_adds adding split: sum.split option.split)
  have scan: "harmless st (do { r \<leftarrow> scan_pods R cfg now pods; case r of Inl e \<Rightarrow> ret (Inl e)
      | Inr b \<Rightarrow> (case b of None \<Rightarrow> ret (Inr 0) | Some br \<Rightarrow> handle_breach R wl cfg br now p k v) })"
    if "\<forall>pod \<in> set pods. listed (rc_API R) pod" for pods
    by (rule harmless_bind [OF keeps_samples_scan adds_scan_pods found [OF that] rest])
  show ?thesis
    unfolding detect_phase_def
    by (rule harmless_bind [OF keeps_listWorkloadPods(2) adds_reads(3) answers_listed]) (auto intro!: harmless_branch harmless_ret scan)
qed

lemma harmless_live_phase:
  assumes "pc_DryRun (ResolvePolicy (rc_Defaults R) (p_Spec p)) \<or> (\<forall>now. \<not> evidence R (ResolvePolicy (rc_Defaults R) (p_Spec p)) st now)"
  shows "harmless st (live_phase R p k)"
proof -
  let ?cfg = "ResolvePolicy (rc_Defaults R) (p_Spec p)"
  have detect: "harmless st (detect_phase R wl ?cfg now p' k v)" if "instant (rc_API R) now" for wl now p' v
    using assms that by (intro harmless_detect) blast
  have settle: "harmless st (settle_phase R wl ?cfg now p' k v)" if "instant (rc_API R) now" for wl now p' v
    unfolding settle_phase_def
    by (intro harmless_branch harmless_next detect [OF that] keeps_gets adds_state) (rule harmless_adds, intro adding; simp)+
  have workload: "harmless st (workload_phase R wl ?cfg p' k)" for wl p'
    unfolding workload_phase_def Let_def
    by (rule harmless_bind [OF keeps_gate_call(2) adds_call answers_instant])
      (intro harmless_branch harmless_next settle keeps_Persist harmless_ret adding; simp)
  have get: "harmless st (get_workload_phase R ?cfg p' k)" for p'
    unfolding get_workload_phase_def
    by (intro harmless_branch harmless_next workload keeps_GetWorkload adds_reads harmless_ret)
  show ?thesis
    unfolding live_phase_def Let_def
    by (intro harmless_branch harmless_next get keeps_Persist harmless_ret adding) simp_all
qed

text \<open>
  C6: only leaks are restarted. Whatever the API server, the sinks and the clock answer, and whatever state the
  process is in, a reconcile that patches a workload does so for a policy the server answered with that does not
  resolve to dry-run, at an instant of its clock inside the maintenance windows in force, and for a ready pod the server listed, one of whose
  selected targets the detector finds leaking in the samples of the store.
\<close>

theorem only_leaks_are_restarted:
  "wp (Reconcile R ns name) (\<lambda>r t. (\<exists>es. sy_Trace t = es @ sy_Trace s \<and> list_all no_patch es)
    \<or> (\<exists>p now. fst (a_GetPolicy (rc_API R) ns name (sy_World s)) = Inr p
        \<and> \<not> pc_DryRun (ResolvePolicy (rc_Defaults R) (p_Spec p))
        \<and> evidence R (ResolvePolicy (rc_Defaults R) (p_Spec p)) (sy_Samples s) now)) s"
proof -
  obtain g w where g: "a_GetPolicy (rc_API R) ns name (sy_World s) = (g, w)" by fastforce
  show ?thesis
  proof (cases "\<exists>p now. g = Inr p \<and> \<not> pc_DryRun (ResolvePolicy (rc_Defaults R) (p_Spec p))
      \<and> evidence R (ResolvePolicy (rc_Defaults R) (p_Spec p)) (sy_Samples s) now")
    case True
    then show ?thesis using g by (auto simp: wp_def split: prod.split)
  next
    case False
    let ?Q = "\<lambda>_ t. \<exists>es. sy_Trace t = es @ sy_Trace s \<and> list_all no_patch es"
    have "wp (add_finalizer_phase R p k) ?Q (s\<lparr>sy_World := w\<rparr>)" "wp (finalize R p k) ?Q (s\<lparr>sy_World := w\<rparr>)" if "g = Inr p" for p k
    proof -
      have live: "harmless (sy_Samples s) (live_phase R p k)" using False that by (intro harmless_live_phase) blast
      have "harmless (sy_Samples s) (add_finalizer_phase R p k)"
        unfolding add_finalizer_phase_def by (intro harmless_branch live) (rule harmless_adds, intro adding; simp)
      moreover have "harmless (sy_Samples s) (finalize R p k)" by (rule harmless_adds) (intro adding)
      ultimately show "wp (add_finalizer_phase R p k) ?Q (s\<lparr>sy_World := w\<rparr>)" "wp (finalize R p k) ?Q (s\<lparr>sy_World := w\<rparr>)"
        by (auto simp: harmless_def dest: spec [of _ "s\<lparr>sy_World := w\<rparr>"])
    qed
    then have "wp (Reconcile R ns name) ?Q s"
      unfolding Reconcile_def using g by (cases g) (auto simp: Let_def)
    then show ?thesis by (rule wp_mono) blast
  qed
qed

text \<open>The reconcile of the demonstration patched, so it had its evidence.\<close>

lemma only_leaks_are_restarted_witness: "\<exists>now. evidence (co_Reconciler leak_controller) leak_config (sy_Samples leak_3) now"
proof -
  let ?R = "co_Reconciler leak_controller"
  obtain r where run: "run_state (Reconcile ?R ''prod'' ''web-policy'') leak_3 = (r, leak_4)"
    unfolding leak_4_def by (metis prod.collapse)
  have False if es: "sy_Trace leak_4 = es @ sy_Trace leak_3" "list_all no_patch es" for es
  proof -
    have "filter is_patch es = []" using es(2) by (auto simp: list_all_iff is_patch_def filter_empty_conv)
    then have "filter is_patch (sy_Trace leak_4) = []" unfolding es(1) filter_append leak_sampled(2) by simp
    then show False using leak_restarted by simp
  qed
  then obtain p now where p: "fst (a_GetPolicy (rc_API ?R) ''prod'' ''web-policy'' (sy_World leak_3)) = Inr p"
    "evidence ?R (ResolvePolicy (rc_Defaults ?R) (p_Spec p)) (sy_Samples leak_3) now"
    using wp_run [OF only_leaks_are_restarted run] by blast
  have "ResolvePolicy (rc_Defaults ?R) (p_Spec p) = leak_config"
    by (rule leak_settings) (use p(1) in \<open>auto simp: settings_def\<close>)
  with p(2) show ?thesis by metis
qed

section \<open>The record of the restart\<close>

text \<open>
  C8: a restart is recorded before it happens, and happens at most once. Whatever the notification sinks, the profile
  endpoint and an API server that answers with the policies asked for do, one reconcile patches a workload at most
  once, and then the effect just before the patch is the successful write of a status of the reconciled policy
  that records this dispatch: the patched object is that of a workload the server answered for the reference of the
  policy, the patch does no more than stamp a time on its template, and that time starts the cooldown in the
  status, dates its in-flight marker and opens the newest entry of its history, all for the version of that workload.
\<close>

theorem restart_recorded_before_patch:
  assumes "answers_named (rc_API R)"
  shows "wp (Reconcile R ns name) (\<lambda>r t. \<exists>es. sy_Trace t = es @ sy_Trace s \<and>
     (list_all no_patch es
      \<or> (\<exists>post old new ok q pre. es = post @ EPatch old new ok # EUpdateStatus q True # pre
           \<and> restart_of (rc_API R) (rc_Lib R) ns name q old new \<and> list_all no_patch post \<and> list_all no_patch pre))) s"
  using dispatching_Reconcile [OF assms, of ns name] unfolding dispatching_def dispatch_ok_def by blast

lemma restart_recorded_before_patch_witness:
  "\<exists>old new ok q. {EPatch old new ok, EUpdateStatus q True} \<subseteq> set (sy_Trace leak_4)
     \<and> restart_of leak_api demo_lib ''prod'' ''web-policy'' q old new"
proof -
  let ?R = "co_Reconciler leak_controller"
  have A: "answers_named (rc_API ?R)" using leak_answers_named by (simp add: leak_parts)
  obtain r where run: "run_state (Reconcile ?R ''prod'' ''web-policy'') leak_3 = (r, leak_4)"
    unfolding leak_4_def by (metis prod.collapse)
  from wp_run [OF restart_recorded_before_patch [OF A] run] obtain es where es: "sy_Trace leak_4 = es @ sy_Trace leak_3"
    and patch: "list_all no_patch es \<or> (\<exists>post old new ok q pre. es = post @ EPatch old new ok # EUpdateStatus q True # pre
           \<and> restart_of (rc_API ?R) (rc_Lib ?R) ''prod'' ''web-policy'' q old new \<and> list_all no_patch post \<and> list_all no_patch pre)"
    by blast
  have "\<not> list_all no_patch es"
  proof
    assume "list_all no_patch es"
    then have "filter is_patch es = []" by (auto simp: list_all_iff is_patch_def filter_empty_conv)
    then have "filter is_patch (sy_Trace leak_4) = []" unfolding es filter_append leak_sampled(2) by simp
    then show False using leak_restarted by simp
  qed
  then show ?thesis using patch es by (fastforce simp: leak_parts)
qed


end
