(* ===== verification/Pipeline.thy ===== *)
theory Pipeline
  imports Startup
begin

text \<open>
  From the sampler's ticks to the reconciler's verdict: what the scan of a reconcile finds in the series that a
  regular run of the sampler has put into the store \<open>run\<close> made.
\<close>

section \<open>The verdict on a regular series\<close>

lemma regular_verdict:
  fixes t0 iv w :: int
  assumes iv: "0 < iv" "iv \<le> w" and max: "2 * w + iv \<le> maxDuration" and t: "\<And>j. s_Time (x j) = t0 + int j * iv"
    and n: "w \<le> int n * iv" and lo: "lo \<le> n" "lo = 0 \<or> w \<le> int (n - lo) * iv"
    and d: "d_Mode d = ModeSustained" "d_Window d = w" "0 \<le> d_ThresholdPercent d" "d_ThresholdPercent d \<le> 100"
    and small: "\<And>j. small_sample (x j)"
  shows "res_Leaking (Detect (map x [lo..<Suc n]) d (s_Time (x n)))
    \<longleftrightarrow> (\<forall>j \<le> n. s_Time (x n) - w \<le> s_Time (x j) \<longrightarrow> over_threshold (x j) d)"
proof -
  let ?xs = "map x [lo..<Suc n]" and ?now = "s_Time (x n)"
  have wd: "0 \<le> w" "w \<le> maxDuration" using iv max by simp_all
  have span: "w \<le> int (n - lo) * iv" using lo(2) n by auto
  then have "lo < n" using iv lo(1) by (cases "lo = n") auto
  have sorted: "times_sorted ?xs"
    using iv(1) by (auto simp: times_sorted_def sorted_map sorted_wrt_iff_nth_less t simp del: upt_Suc intro!: mult_right_mono)
  have old: "j < lo \<Longrightarrow> s_Time (x j) < ?now - w" for j
  proof -
    assume "j < lo"
    then have "int j * iv < int lo * iv" using iv(1) by simp
    also have "int lo * iv \<le> int n * iv - w" using span lo(1) by (simp add: of_nat_diff algebra_simps)
    finally show ?thesis by (simp add: t)
  qed
  have "s_Time (x lo) \<le> ?now - w" using span lo(1) by (simp add: t of_nat_diff algebra_simps)
  then have covered: "WindowCovered ?xs w ?now"
    unfolding WindowCovered_iff [OF sorted wd] using \<open>lo < n\<close> by (auto simp del: upt_Suc)
  have two: "2 \<le> length (WindowSamples ?xs w ?now)"
  proof -
    have "[lo..<Suc n] = [lo..<n - 1] @ [n - 1, n]"
      using \<open>lo < n\<close> by (cases n) (auto simp: upt_conv_Cons)
    moreover have "?now - w \<le> s_Time (x (n - 1))" using \<open>lo < n\<close> iv(2) by (simp add: t of_nat_diff algebra_simps)
    moreover have "?now - w \<le> ?now" using wd(1) by simp
    ultimately show ?thesis using wd by (simp add: WindowSamples_def not_less del: upt_Suc)
  qed
  have "res_Leaking (Detect ?xs d ?now) \<longleftrightarrow> allExceed (WindowSamples ?xs w ?now) d"
    using covered two d(1,2) by (auto simp: Detect_Leaking_iff mode_defs)
  also have "\<dots> \<longleftrightarrow> (\<forall>j \<in> {lo..n}. ?now - w \<le> s_Time (x j) \<longrightarrow> over_threshold (x j) d)"
    unfolding allExceed_iff WindowSamples_set [OF wd] set_map set_upt atLeastLessThanSuc_atLeastAtMost
    by (auto simp: exceeds_exact [OF small d(3,4)])
  also have "\<dots> \<longleftrightarrow> (\<forall>j \<le> n. ?now - w \<le> s_Time (x j) \<longrightarrow> over_threshold (x j) d)"
    using old by (auto simp: not_less [symmetric])
  finally show ?thesis .
qed

section \<open>Properties\<close>

text \<open>
  C16: a leak is found when it is one, from the ticks to the verdict. A container that does not restart is
  sampled once per interval into the store \<open>run\<close> sizes from the flags. At any tick after the first
  default window, the reconciler's scan reports it in sustained mode exactly when it was over its threshold at
  each tick of the last window: nothing the buffer drops can hide a leak, and nothing it keeps can
  feign one.
\<close>

theorem steady_leak_found:
  assumes "0 < fl_SampleInterval F" and "fl_SampleInterval F \<le> fl_Window F"
    and "2 * fl_Window F + fl_SampleInterval F \<le> maxDuration" and "buffer_size F = Inr (retention, maxLen)"
    and "\<And>j. s_Time (x j) = t0 + int j * fl_SampleInterval F" and "\<And>j. small_sample (x j)"
    and "fl_Window F \<le> int n * fl_SampleInterval F"
    and "d_Mode (tg_Det t) = ModeSustained" and "d_Window (tg_Det t) = fl_Window F"
    and "0 \<le> d_ThresholdPercent (tg_Det t)" and "d_ThresholdPercent (tg_Det t) \<le> 100"
    and "sy_Samples s = observe_upto (NewStore retention maxLen) (target_key pod t) x rc n"
  shows "wp (scan_targets pod (s_Time (x n)) [t])
    (\<lambda>b _. b \<noteq> None \<longleftrightarrow> (\<forall>j \<le> n. s_Time (x n) - fl_Window F \<le> s_Time (x j) \<longrightarrow> over_threshold (x j) (tg_Det t))) s"
proof -
  let ?iv = "fl_SampleInterval F" and ?w = "fl_Window F"
  have w: "0 < ?w" using assms(1,2) by simp
  have sz: "retention = 2 * ?w + ?iv" "maxLen = ?w div ?iv + 8"
    using assms(4) buffer_size_plain [OF assms(1) w assms(3)] by simp_all
  obtain lo where lo: "lo \<le> n" "lo = 0 \<or> ?w \<le> int (n - lo) * ?iv"
    "fmlookup (sto_data (sy_Samples s)) (target_key pod t) = Some \<lparr>ser_samples = map x [lo..<Suc n], ser_lastRestarts = rc\<rparr>"
    using observe_upto_regular [OF assms(1) w assms(5) assms(3)] unfolding sz assms(12) by blast
  have "Samples (sy_Samples s) (target_key pod t) = map x [lo..<Suc n]"
    using lo(3) by (simp add: Samples_def)
  then show ?thesis
    using regular_verdict [OF assms(1,2,3,5,7) lo(1,2) assms(8,9,10,11,6)]
    by (simp add: target_key_def Let_def del: upt_Suc)
qed

text \<open>The default flags, a container at 98 of 100 bytes, and the 21 ticks of the first ten minutes.\<close>

definition steady_sample :: "nat \<Rightarrow> sample" where
  "steady_sample j = \<lparr>s_Time = int j * (30 * Second), s_WorkingSet = 98, s_Limit = 100\<rparr>"

definition steady_target :: target where
  "steady_target = \<lparr>tg_Name = ''app'', tg_LimitBytes = 100, tg_Det = df_Detection
     (build_defaults ModeSustained \<lparr>q_Value = 104857600, q_String = ''100Mi''\<rparr> default_flags)\<rparr>"

lemma steady_leak_found_witness:
  "wp (scan_targets demo_pod (600 * Second) [steady_target]) (\<lambda>b _. b \<noteq> None)
     (demo_sys (demo_cluster (demo_deployment None) []) (NewGate 1)
       (observe_upto (NewStore (1230 * Second) 28) (target_key demo_pod steady_target) steady_sample 0 20))"
proof -
  have over: "over_threshold (steady_sample j) (tg_Det steady_target)" for j
    by (simp add: over_threshold_def steady_sample_def steady_target_def build_defaults_def default_flags_def)
  have d: "d_Mode (tg_Det steady_target) = ModeSustained" "d_Window (tg_Det steady_target) = 10 * Minute"
    "d_ThresholdPercent (tg_Det steady_target) = 85"
    by (simp_all add: steady_target_def build_defaults_def default_flags_def)
  have t: "s_Time (steady_sample j) = 0 + int j * fl_SampleInterval default_flags" "small_sample (steady_sample j)" for j
    by (simp_all add: steady_sample_def small_sample_def default_flags_def)
  have f: "fl_Window default_flags = 10 * Minute" "fl_SampleInterval default_flags = 30 * Second"
    by (simp_all add: default_flags_def)
  let ?s = "demo_sys (demo_cluster (demo_deployment None) []) (NewGate 1)
    (observe_upto (NewStore (1230 * Second) 28) (target_key demo_pod steady_target) steady_sample 0 20)"
  have "wp (scan_targets demo_pod (s_Time (steady_sample 20)) [steady_target])
    (\<lambda>b _. b \<noteq> None \<longleftrightarrow> (\<forall>j \<le> 20. s_Time (steady_sample 20) - fl_Window default_flags \<le> s_Time (steady_sample j)
       \<longrightarrow> over_threshold (steady_sample j) (tg_Det steady_target))) ?s"
    by (rule steady_leak_found [OF _ _ _ demo_buffer t])
       (simp_all only: f d, simp_all add: duration_units maxDuration_def demo_sys_def)
  then show ?thesis by (simp del: scan_targets.simps add: over t(1) f)
qed

end
