(* ===== verification/GoMemory.thy ===== *)
theory GoMemory
  imports ApiTypes
begin

text \<open>
  Memory with sharing: what pointers and slices of the API types point to, and the contract of a deep copy
  over it. The rest of the development passes policies as values; here they are structs in a store of cells,
  so that a copy that still shares a cell with its original can be told from one that does not.

  A struct is a record whose pointer and slice fields are addresses (\<open>None\<close> is nil). A memory is the list
  of its cells, an allocation appends one. \<^emph>\<open>Denotations\<close> take a struct in a memory to the value of
  \<open>ApiTypes\<close> it stands for; they read through a partial map of cells, so that restricting the map says
  which cells a denotation depends on. A \<open>metav1.Time\<close>, a \<open>metav1.Duration\<close>, a \<open>metav1.Condition\<close> and a
  \<open>resource.Quantity\<close> are values without sharing, as in \<open>ApiTypes\<close>: the library's copy of one is the value.
\<close>

section \<open>Structs\<close>

type_synonym addr = nat

record detection_struct =
  m_Mode :: string
  m_ThresholdPercent :: int
  m_ThresholdAbsolute :: "addr option"
  m_Window :: "addr option"
  m_TrendMinGrowth :: "addr option"

record override_struct =
  m_ContainerName :: string
  m_ContainerDetection :: detection_struct

record window_struct =
  m_Days :: "addr option"
  m_Start :: string
  m_End :: string
  m_Timezone :: string

record spec_struct =
  m_WorkloadRef :: workload_ref
  m_Detection :: detection_struct
  m_Cooldown :: "addr option"
  m_StartupGrace :: "addr option"
  m_RestartWindow :: "addr option"
  m_MaxRestartsPerWindow :: "addr option"
  m_DryRun :: "addr option"
  m_Containers :: "addr option"
  m_ContainerOverrides :: "addr option"
  m_ProfileCapture :: "addr option"
  m_PprofPath :: string
  m_MaintenanceWindows :: "addr option"
  m_NotifyRoutes :: "addr option"
  m_SlackChannel :: string

record record_struct =
  m_TriggeredAt :: time
  m_CompletedAt :: "addr option"
  m_Container :: string
  m_Observed :: int
  m_Threshold :: int
  m_DetectionMode :: string
  m_RecordVersion :: string
  m_Outcome :: string

record status_struct =
  m_WorkloadUID :: string
  m_LastRestartAt :: "addr option"
  m_RestartCount :: int
  m_WindowStart :: "addr option"
  m_Version :: string
  m_InFlight :: "addr option"
  m_BreakerTripped :: bool
  m_StatusDryRun :: bool
  m_NextEligibleRestart :: "addr option"
  m_RestartsRemaining :: int
  m_LastProfile :: "addr option"
  m_LastNotification :: "addr option"
  m_History :: "addr option"
  m_Conditions :: "addr option"
  m_ObservedGeneration :: int

text \<open>\<open>metav1.TypeMeta\<close>, \<open>metav1.ObjectMeta\<close> and \<open>metav1.ListMeta\<close>, through the fields of \<open>ApiTypes\<close>.\<close>

record type_meta =
  tm_Kind :: string
  tm_APIVersion :: string

record object_meta =
  om_Namespace :: string
  om_Name :: string
  om_ResourceVersion :: string
  om_DeletionTimestamp :: "addr option"
  om_Finalizers :: "addr option"

record list_meta =
  lm_ResourceVersion :: string
  lm_RemainingItemCount :: "addr option"

record policy_struct =
  m_TypeMeta :: type_meta
  m_ObjectMeta :: object_meta
  m_Spec :: spec_struct
  m_Status :: status_struct

record policy_list_struct =
  m_ListTypeMeta :: type_meta
  m_ListMeta :: list_meta
  m_Items :: "addr option"

section \<open>Cells\<close>

text \<open>What an address holds: a struct or scalar that a pointer points to, or the array of a slice.\<close>

datatype cell =
    CQuantity quantity
  | CDuration duration
  | CTime time
  | CInt int
  | CBool bool
  | CStrings "string list"
  | CRef workload_ref
  | CDetection detection_struct
  | COverride override_struct
  | COverrides "override_struct list"
  | CWindow window_struct
  | CWindows "window_struct list"
  | CInFlight inflight_rollout
  | CProfile profile_ref
  | CNotification notification_ref
  | CRecord record_struct
  | CRecords "record_struct list"
  | CConditions "condition list"
  | CSpec spec_struct
  | CStatus status_struct
  | CPolicy policy_struct
  | CPolicies "policy_struct list"
  | CPolicyList policy_list_struct

text \<open>The type of a cell: how it is read and written.\<close>

record 'a cell_type =
  un :: "cell \<Rightarrow> 'a option"
  mk :: "'a \<Rightarrow> cell"

named_theorems cell_types \<open>the types of cells\<close>

definition tQuantity :: "quantity cell_type" where [cell_types]:
  "tQuantity = \<lparr>un = \<lambda>c. case c of CQuantity x \<Rightarrow> Some x | _ \<Rightarrow> None, mk = CQuantity\<rparr>"
definition tDuration :: "duration cell_type" where [cell_types]:
  "tDuration = \<lparr>un = \<lambda>c. case c of CDuration x \<Rightarrow> Some x | _ \<Rightarrow> None, mk = CDuration\<rparr>"
definition tTime :: "time cell_type" where [cell_types]:
  "tTime = \<lparr>un = \<lambda>c. case c of CTime x \<Rightarrow> Some x | _ \<Rightarrow> None, mk = CTime\<rparr>"
definition tInt :: "int cell_type" where [cell_types]:
  "tInt = \<lparr>un = \<lambda>c. case c of CInt x \<Rightarrow> Some x | _ \<Rightarrow> None, mk = CInt\<rparr>"
definition tBool :: "bool cell_type" where [cell_types]:
  "tBool = \<lparr>un = \<lambda>c. case c of CBool x \<Rightarrow> Some x | _ \<Rightarrow> None, mk = CBool\<rparr>"
definition tStrings :: "string list cell_type" where [cell_types]:
  "tStrings = \<lparr>un = \<lambda>c. case c of CStrings x \<Rightarrow> Some x | _ \<Rightarrow> None, mk = CStrings\<rparr>"
definition tRef :: "workload_ref cell_type" where [cell_types]:
  "tRef = \<lparr>un = \<lambda>c. case c of CRef x \<Rightarrow> Some x | _ \<Rightarrow> None, mk = CRef\<rparr>"
definition tDetection :: "detection_struct cell_type" where [cell_types]:
  "tDetection = \<lparr>un = \<lambda>c. case c of CDetection x \<Rightarrow> Some x | _ \<Rightarrow> None, mk = CDetection\<rparr>"
definition tOverride :: "override_struct cell_type" where [cell_types]:
  "tOverride = \<lparr>un = \<lambda>c. case c of COverride x \<Rightarrow> Some x | _ \<Rightarrow> None, mk = COverride\<rparr>"
definition tOverrides :: "override_struct list cell_type" where [cell_types]:
  "tOverrides = \<lparr>un = \<lambda>c. case c of COverrides x \<Rightarrow> Some x | _ \<Rightarrow> None, mk = COverrides\<rparr>"
definition tWindow :: "window_struct cell_type" where [cell_types]:
  "tWindow = \<lparr>un = \<lambda>c. case c of CWindow x \<Rightarrow> Some x | _ \<Rightarrow> None, mk = CWindow\<rparr>"
definition tWindows :: "window_struct list cell_type" where [cell_types]:
  "tWindows = \<lparr>un = \<lambda>c. case c of CWindows x \<Rightarrow> Some x | _ \<Rightarrow> None, mk = CWindows\<rparr>"
definition tInFlight :: "inflight_rollout cell_type" where [cell_types]:
  "tInFlight = \<lparr>un = \<lambda>c. case c of CInFlight x \<Rightarrow> Some x | _ \<Rightarrow> None, mk = CInFlight\<rparr>"
definition tProfile :: "profile_ref cell_type" where [cell_types]:
  "tProfile = \<lparr>un = \<lambda>c. case c of CProfile x \<Rightarrow> Some x | _ \<Rightarrow> None, mk = CProfile\<rparr>"
definition tNotification :: "notification_ref cell_type" where [cell_types]:
  "tNotification = \<lparr>un = \<lambda>c. case c of CNotification x \<Rightarrow> Some x | _ \<Rightarrow> None, mk = CNotification\<rparr>"
definition tRecord :: "record_struct cell_type" where [cell_types]:
  "tRecord = \<lparr>un = \<lambda>c. case c of CRecord x \<Rightarrow> Some x | _ \<Rightarrow> None, mk = CRecord\<rparr>"
definition tRecords :: "record_struct list cell_type" where [cell_types]:
  "tRecords = \<lparr>un = \<lambda>c. case c of CRecords x \<Rightarrow> Some x | _ \<Rightarrow> None, mk = CRecords\<rparr>"
definition tConditions :: "condition list cell_type" where [cell_types]:
  "tConditions = \<lparr>un = \<lambda>c. case c of CConditions x \<Rightarrow> Some x | _ \<Rightarrow> None, mk = CConditions\<rparr>"
definition tSpec :: "spec_struct cell_type" where [cell_types]:
  "tSpec = \<lparr>un = \<lambda>c. case c of CSpec x \<Rightarrow> Some x | _ \<Rightarrow> None, mk = CSpec\<rparr>"
definition tStatus :: "status_struct cell_type" where [cell_types]:
  "tStatus = \<lparr>un = \<lambda>c. case c of CStatus x \<Rightarrow> Some x | _ \<Rightarrow> None, mk = CStatus\<rparr>"
definition tPolicy :: "policy_struct cell_type" where [cell_types]:
  "tPolicy = \<lparr>un = \<lambda>c. case c of CPolicy x \<Rightarrow> Some x | _ \<Rightarrow> None, mk = CPolicy\<rparr>"
definition tPolicies :: "policy_struct list cell_type" where [cell_types]:
  "tPolicies = \<lparr>un = \<lambda>c. case c of CPolicies x \<Rightarrow> Some x | _ \<Rightarrow> None, mk = CPolicies\<rparr>"
definition tPolicyList :: "policy_list_struct cell_type" where [cell_types]:
  "tPolicyList = \<lparr>un = \<lambda>c. case c of CPolicyList x \<Rightarrow> Some x | _ \<Rightarrow> None, mk = CPolicyList\<rparr>"

definition typed :: "'a cell_type \<Rightarrow> bool" where
  "typed t \<longleftrightarrow> (\<forall>x. un t (mk t x) = Some x)"

lemma typed_simps [simp]:
  "typed tQuantity" "typed tDuration" "typed tTime" "typed tInt" "typed tBool" "typed tStrings" "typed tRef"
  "typed tDetection" "typed tOverride" "typed tOverrides" "typed tWindow" "typed tWindows" "typed tInFlight"
  "typed tProfile" "typed tNotification" "typed tRecord" "typed tRecords" "typed tConditions" "typed tSpec"
  "typed tStatus" "typed tPolicy" "typed tPolicies" "typed tPolicyList"
  by (simp_all add: typed_def cell_types)

section \<open>Memories\<close>

type_synonym mem = "cell list"

type_synonym cells = "addr \<rightharpoonup> cell"

definition cells :: "mem \<Rightarrow> cells" where
  "cells h = (\<lambda>a. if a < length h then Some (h ! a) else None)"

definition load :: "'a cell_type \<Rightarrow> cells \<Rightarrow> addr \<Rightarrow> 'a option" where
  "load t m a = Option.bind (m a) (un t)"

text \<open>The cells from an address on: those of the later allocations.\<close>

definition later :: "mem \<Rightarrow> addr \<Rightarrow> cells" where
  "later h a = cells h |` {a..}"

lemma map_le_cells: "cells h \<subseteq>\<^sub>m cells (h @ g)"
  by (auto simp: cells_def map_le_def nth_append)

lemma later_le: "b \<le> a \<Longrightarrow> later h a \<subseteq>\<^sub>m later (h @ g) b"
  by (auto simp: cells_def later_def map_le_def restrict_map_def nth_append split: if_splits)

lemma later_le_cells: "later h a \<subseteq>\<^sub>m cells h"
  by (auto simp: later_def map_le_def restrict_map_def)

lemma later_update: "b < a \<Longrightarrow> later (h[b := c]) a = later h a"
  by (auto simp: later_def restrict_map_def cells_def fun_eq_iff)

lemma load_mono: "load t m a = Some x \<Longrightarrow> m \<subseteq>\<^sub>m n \<Longrightarrow> load t n a = Some x"
  by (fastforce simp: load_def map_le_def bind_eq_Some_conv dom_def)

section \<open>Denotations of pointers and slices\<close>

definition den_ptr :: "'g cell_type \<Rightarrow> (cells \<Rightarrow> 'g \<Rightarrow> 'v option) \<Rightarrow> cells \<Rightarrow> addr option \<Rightarrow> 'v option option" where
  "den_ptr t d m p = (case p of None \<Rightarrow> Some None
     | Some a \<Rightarrow> do { x \<leftarrow> load t m a; v \<leftarrow> d m x; Some (Some v) })"

text \<open>A nil slice and an empty one are the same list.\<close>

definition den_slice :: "'g list cell_type \<Rightarrow> (cells \<Rightarrow> 'g \<Rightarrow> 'v option) \<Rightarrow> cells \<Rightarrow> addr option \<Rightarrow> 'v list option" where
  "den_slice t d m p = (case p of None \<Rightarrow> Some []
     | Some a \<Rightarrow> do { xs \<leftarrow> load t m a; those (map (d m) xs) })"

text \<open>A value without pointers stands for itself.\<close>

definition den_value :: "cells \<Rightarrow> 'v \<Rightarrow> 'v option" where
  "den_value m x = Some x"

section \<open>The contract of a deep copy\<close>

text \<open>
  The copy of a struct that denotes \<open>v\<close> only allocates, and denotes \<open>v\<close> in the newly allocated cells alone.
  A panic (a dangling address, a cell of another type) is \<open>None\<close>.
\<close>

locale deep_copy =
  fixes den :: "cells \<Rightarrow> 'g \<Rightarrow> 'v option"
    and cpy :: "'g \<Rightarrow> mem \<Rightarrow> ('g \<times> mem) option"
  assumes den_mono: "den m x = Some v \<Longrightarrow> m \<subseteq>\<^sub>m n \<Longrightarrow> den n x = Some v"
    and copied: "den (cells h) x = Some v \<Longrightarrow> \<exists>y g. cpy x h = Some (y, h @ g) \<and> den (later (h @ g) (length h)) y = Some v"
begin

text \<open>The copy and the original both stand for \<open>v\<close> afterwards.\<close>

lemma copy_agrees:
  assumes "den (cells h) x = Some v" and "cpy x h = Some (y, h')"
  shows "den (cells h') x = Some v" "den (cells h') y = Some v"
  using copied [OF assms(1)] assms by (auto intro: den_mono map_le_cells later_le_cells)

text \<open>Whatever happens to the cells of the copy, the original stands for the same value.\<close>

lemma original_isolated:
  assumes "den (cells h) x = Some v" and "cpy x h = Some (y, h')"
    and "\<And>a. a < length h \<Longrightarrow> n a = cells h' a"
  shows "den n x = Some v"
proof -
  have "cells h \<subseteq>\<^sub>m n"
    using copied [OF assms(1)] assms(2,3) by (auto simp: cells_def map_le_def nth_append split: if_splits)
  then show ?thesis by (rule den_mono [OF assms(1)])
qed

text \<open>Whatever happens to the other cells, the copy stands for the same value.\<close>

lemma copy_isolated:
  assumes "den (cells h) x = Some v" and "cpy x h = Some (y, h')"
    and "\<And>a. length h \<le> a \<Longrightarrow> n a = cells h' a"
  shows "den n y = Some v"
proof -
  have "den (later h' (length h)) y = Some v" using copied [OF assms(1)] assms(2) by auto
  moreover have "later h' (length h) \<subseteq>\<^sub>m n"
    using assms(3) by (auto simp: later_def map_le_def restrict_map_def split: if_splits)
  ultimately show ?thesis by (rule den_mono)
qed

lemma copies: "den (cells h) x = Some v \<Longrightarrow> \<exists>y h'. cpy x h = Some (y, h')"
  using copied by blast

end

section \<open>Copies by parts\<close>

text \<open>
  \<open>*out = *in\<close> of a value; \<open>*out = new(T); (*in).DeepCopyInto(*out)\<close> under a test for nil;
  \<open>*out = make([]T, len(*in))\<close> with a copy of each element, or with the builtin \<open>copy\<close>. The parameter
  \<open>z\<close> is the zero value of the type, in which memory is allocated.
\<close>

definition assign :: "'g \<Rightarrow> mem \<Rightarrow> ('g \<times> mem) option" where
  "assign x h = Some (x, h)"

definition ptr_copy :: "'g cell_type \<Rightarrow> 'g \<Rightarrow> ('g \<Rightarrow> mem \<Rightarrow> ('g \<times> mem) option)
    \<Rightarrow> addr option \<Rightarrow> mem \<Rightarrow> (addr option \<times> mem) option" where
  "ptr_copy t z into p h = (case p of None \<Rightarrow> Some (None, h)
     | Some a \<Rightarrow> do {
         x \<leftarrow> load t (cells h) a;
         (y, h1) \<leftarrow> into x (h @ [mk t z]);
         Some (Some (length h), h1[length h := mk t y]) })"

fun copy_elements :: "'g list cell_type \<Rightarrow> ('g \<Rightarrow> mem \<Rightarrow> ('g \<times> mem) option) \<Rightarrow> addr \<Rightarrow> addr \<Rightarrow> nat list \<Rightarrow> mem \<Rightarrow> mem option" where
  "copy_elements t into a b [] h = Some h"
| "copy_elements t into a b (i # js) h = do {
     xs \<leftarrow> load t (cells h) a;
     (y, h1) \<leftarrow> into (xs ! i) h;
     ys \<leftarrow> load t (cells h1) b;
     copy_elements t into a b js (h1[b := mk t (ys[i := y])]) }"

definition slice_copy :: "'g list cell_type \<Rightarrow> 'g \<Rightarrow> ('g \<Rightarrow> mem \<Rightarrow> ('g \<times> mem) option)
    \<Rightarrow> addr option \<Rightarrow> mem \<Rightarrow> (addr option \<times> mem) option" where
  "slice_copy t z into p h = (case p of None \<Rightarrow> Some (None, h)
     | Some a \<Rightarrow> do {
         xs \<leftarrow> load t (cells h) a;
         h1 \<leftarrow> copy_elements t into a (length h) [0..<length xs] (h @ [mk t (replicate (length xs) z)]);
         Some (Some (length h), h1) })"

definition go_copy :: "'g list \<Rightarrow> 'g list \<Rightarrow> 'g list" where
  "go_copy dst src = take (length dst) src @ drop (length src) dst"

definition slice_dup :: "'g list cell_type \<Rightarrow> 'g \<Rightarrow> addr option \<Rightarrow> mem \<Rightarrow> (addr option \<times> mem) option" where
  "slice_dup t z p h = (case p of None \<Rightarrow> Some (None, h)
     | Some a \<Rightarrow> do {
         xs \<leftarrow> load t (cells h) a;
         Some (Some (length h), h @ [mk t (go_copy (replicate (length xs) z) xs)]) })"

named_theorems deep_copying \<open>deep copies from deep copies of the parts\<close>

lemma deep_copy_assign [deep_copying]: "deep_copy den_value assign"
  by unfold_locales (simp_all add: den_value_def assign_def)

lemma deep_copy_pair:
  assumes "deep_copy d1 c1" and "deep_copy d2 c2"
  shows "deep_copy (\<lambda>m (x, y). do { u \<leftarrow> d1 m x; v \<leftarrow> d2 m y; Some (u, v) })
           (\<lambda>(x, y) h. do { (x', h1) \<leftarrow> c1 x h; (y', h2) \<leftarrow> c2 y h1; Some ((x', y'), h2) })"
    (is "deep_copy ?d ?c")
proof
  note mono1 = deep_copy.den_mono [OF assms(1)] and mono2 = deep_copy.den_mono [OF assms(2)]
  show mono: "?d n x = Some v" if "?d m x = Some v" "m \<subseteq>\<^sub>m n" for m n x v
    using that by (auto simp: bind_eq_Some_conv split: prod.splits dest: mono1 mono2)
  show "\<exists>y g. ?c x h = Some (y, h @ g) \<and> ?d (later (h @ g) (length h)) y = Some v"
    if d: "?d (cells h) x = Some v" for x v h
  proof -
    obtain x1 x2 u w where x: "x = (x1, x2)" "v = (u, w)" "d1 (cells h) x1 = Some u" "d2 (cells h) x2 = Some w"
      using d by (auto simp: bind_eq_Some_conv split: prod.splits)
    obtain y1 g1 where 1: "c1 x1 h = Some (y1, h @ g1)" "d1 (later (h @ g1) (length h)) y1 = Some u"
      using deep_copy.copied [OF assms(1) x(3)] by blast
    have "d2 (cells (h @ g1)) x2 = Some w" by (rule mono2 [OF x(4) map_le_cells])
    then obtain y2 g2 where 2: "c2 x2 (h @ g1) = Some (y2, (h @ g1) @ g2)"
        "d2 (later ((h @ g1) @ g2) (length (h @ g1))) y2 = Some w"
      using deep_copy.copied [OF assms(2)] by blast
    have "d1 (later ((h @ g1) @ g2) (length h)) y1 = Some u" by (rule mono1 [OF 1(2) later_le]) simp
    moreover have "d2 (later ((h @ g1) @ g2) (length h)) y2 = Some w"
      using mono2 [OF 2(2) later_le [of "length h" "length (h @ g1)" "(h @ g1) @ g2" "[]"]] by simp
    ultimately show ?thesis
      using x 1(1) 2(1) by (intro exI [of _ "(y1, y2)"] exI [of _ "g1 @ g2"]) simp
  qed
qed

text \<open>A struct is copied by copying its parts: \<open>proj\<close> takes them out, \<open>build\<close> puts them into the assigned struct.\<close>

lemma deep_copy_struct:
  assumes c: "deep_copy d c"
    and "\<And>x t. proj (build x t) = t" and "\<And>x t v. val (build x t) v = val x v"
    and den: "\<And>m x. den m x = do { v \<leftarrow> d m (proj x); Some (val x v) }"
    and cpy: "\<And>x h. cpy x h = do { (t, h1) \<leftarrow> c (proj x) h; Some (build x t, h1) }"
  shows "deep_copy den cpy"
proof
  show "den n x = Some v" if d: "den m x = Some v" and "m \<subseteq>\<^sub>m n" for m n x v
  proof -
    obtain u where "d m (proj x) = Some u" "v = val x u" using d by (auto simp: den bind_eq_Some_conv)
    with deep_copy.den_mono [OF c _ that(2)] show ?thesis by (simp add: den)
  qed
  show "\<exists>y g. cpy x h = Some (y, h @ g) \<and> den (later (h @ g) (length h)) y = Some v" if d: "den (cells h) x = Some v" for x v h
  proof -
    obtain u where u: "d (cells h) (proj x) = Some u" "v = val x u" using d by (auto simp: den bind_eq_Some_conv)
    then obtain t g where "c (proj x) h = Some (t, h @ g)" "d (later (h @ g) (length h)) t = Some u"
      using deep_copy.copied [OF c] by blast
    then show ?thesis using u(2) by (intro exI [of _ "build x t"] exI [of _ g]) (simp add: den cpy assms(2,3))
  qed
qed

lemma deep_copy_ptr [deep_copying]:
  assumes t: "typed t" and c: "deep_copy d into"
  shows "deep_copy (den_ptr t d) (ptr_copy t z into)"
proof
  show "den_ptr t d n p = Some v" if d: "den_ptr t d m p = Some v" and "m \<subseteq>\<^sub>m n" for m n p v
  proof (cases p)
    case (Some a)
    then obtain x u where x: "load t m a = Some x" "d m x = Some u" "v = Some u"
      using d by (auto simp: den_ptr_def bind_eq_Some_conv)
    with Some load_mono [OF x(1) that(2)] deep_copy.den_mono [OF c x(2) that(2)] show ?thesis by (simp add: den_ptr_def)
  qed (use d in \<open>simp add: den_ptr_def\<close>)
  show "\<exists>q g. ptr_copy t z into p h = Some (q, h @ g) \<and> den_ptr t d (later (h @ g) (length h)) q = Some v"
    if den: "den_ptr t d (cells h) p = Some v" for p v h
  proof (cases p)
    case None
    then show ?thesis using den by (simp add: ptr_copy_def den_ptr_def)
  next
    case (Some a)
    then obtain x u where x: "load t (cells h) a = Some x" "d (cells h) x = Some u" "v = Some u"
      using den by (auto simp: den_ptr_def bind_eq_Some_conv)
    let ?h = "h @ [mk t z]"
    have "d (cells ?h) x = Some u" by (rule deep_copy.den_mono [OF c x(2) map_le_cells])
    then obtain y g where y: "into x ?h = Some (y, ?h @ g)" "d (later (?h @ g) (length ?h)) y = Some u"
      using deep_copy.copied [OF c] by blast
    let ?g = "mk t y # g"
    have upd: "(?h @ g)[length h := mk t y] = h @ ?g" by (simp add: list_update_append)
    have "later (?h @ g) (length ?h) = later (h @ ?g) (Suc (length h))"
      using later_update [of "length h" "Suc (length h)" "?h @ g" "mk t y"] by (simp add: upd)
    then have "d (later (h @ ?g) (length h)) y = Some u"
      using deep_copy.den_mono [OF c y(2)] later_le [of "length h" "Suc (length h)" "h @ ?g" "[]"] by simp
    moreover have "load t (later (h @ ?g) (length h)) (length h) = Some y"
      using t by (simp add: load_def later_def cells_def typed_def)
    ultimately show ?thesis
      using Some x y(1) upd by (intro exI [of _ "Some (length h)"] exI [of _ ?g]) (simp add: ptr_copy_def den_ptr_def)
  qed
qed

lemma those_Some: "those xs = Some ys \<longleftrightarrow> xs = map Some ys"
  by (induction xs arbitrary: ys) (auto split: option.splits simp: Cons_eq_map_conv)

lemma load_later [simp]: "typed t \<Longrightarrow> b \<le> length h \<Longrightarrow> load t (later (h @ mk t x # g) b) (length h) = Some x"
  by (simp add: load_def later_def cells_def typed_def)

lemma load_cells [simp]: "typed t \<Longrightarrow> load t (cells (h @ mk t x # g)) (length h) = Some x"
  by (simp add: load_def cells_def typed_def)

text \<open>The loop: after it, the elements of the new array stand for those of the old one, in cells allocated after it.\<close>

lemma copy_elements_correct:
  assumes t: "typed t" and c: "deep_copy d into"
    and xs: "load t (cells h) a = Some xs" "\<And>i. i < length xs \<Longrightarrow> d (cells h) (xs ! i) = Some (vs ! i)"
  shows "i \<le> length xs \<Longrightarrow> length ys = length xs \<Longrightarrow>
     (\<And>j. j < i \<Longrightarrow> d (later (h @ mk t ys # g) (Suc (length h))) (ys ! j) = Some (vs ! j)) \<Longrightarrow>
     \<exists>zs g'. copy_elements t into a (length h) [i..<length xs] (h @ mk t ys # g) = Some (h @ mk t zs # g')
       \<and> length zs = length xs
       \<and> (\<forall>j < length xs. d (later (h @ mk t zs # g') (Suc (length h))) (zs ! j) = Some (vs ! j))"
proof (induction "length xs - i" arbitrary: i ys g)
  case 0
  then show ?case by (intro exI [of _ ys] exI [of _ g]) simp
next
  case (Suc n)
  let ?h = "h @ mk t ys # g"
  have i: "i < length xs" using Suc.hyps(2) by simp
  have "load t (cells ?h) a = Some xs" by (rule load_mono [OF xs(1) map_le_cells])
  moreover have "d (cells ?h) (xs ! i) = Some (vs ! i)" by (rule deep_copy.den_mono [OF c xs(2) [OF i] map_le_cells])
  then obtain y g1 where y: "into (xs ! i) ?h = Some (y, ?h @ g1)" "d (later (?h @ g1) (length ?h)) y = Some (vs ! i)"
    using deep_copy.copied [OF c] by blast
  let ?ys = "ys[i := y]" and ?g = "g @ g1"
  have upd: "(?h @ g1)[length h := mk t zs] = h @ mk t zs # ?g" for zs by (simp add: list_update_append)
  have same: "later (h @ mk t zs # ?g) (Suc (length h)) = later (?h @ g1) (Suc (length h))" for zs
    using later_update [of "length h" "Suc (length h)" "?h @ g1" "mk t zs"] by (simp add: upd)
  have new: "d (later (h @ mk t ?ys # ?g) (Suc (length h))) (?ys ! j) = Some (vs ! j)" if j: "j < Suc i" for j
  proof (cases "j = i")
    case True
    have "d (later ((?h @ g1) @ []) (Suc (length h))) y = Some (vs ! i)"
      by (rule deep_copy.den_mono [OF c y(2) later_le]) simp
    then show ?thesis using True i Suc.prems(2) unfolding same by simp
  next
    case False
    then have "d (later ?h (Suc (length h))) (ys ! j) = Some (vs ! j)" using j Suc.prems(3) by simp
    then have "d (later (?h @ g1) (Suc (length h))) (ys ! j) = Some (vs ! j)"
      by (rule deep_copy.den_mono [OF c _ later_le]) simp
    then show ?thesis using False unfolding same by simp
  qed
  have "n = length xs - Suc i" "Suc i \<le> length xs" "length ?ys = length xs" using Suc.hyps(2) i Suc.prems(2) by simp_all
  from Suc.hyps(1) [OF this new]
  obtain zs g' where "copy_elements t into a (length h) [Suc i..<length xs] (h @ mk t ?ys # ?g) = Some (h @ mk t zs # g')"
      "length zs = length xs" "\<forall>j < length xs. d (later (h @ mk t zs # g') (Suc (length h))) (zs ! j) = Some (vs ! j)"
    by blast
  moreover have "load t (cells (?h @ g1)) (length h) = Some ys" using t by simp
  ultimately show ?case
    using i y(1) \<open>load t (cells ?h) a = Some xs\<close> upd [of ?ys]
    by (intro exI [of _ zs] exI [of _ g']) (simp add: upt_conv_Cons)
qed

lemma den_slice_mono:
  assumes c: "deep_copy d into" and d: "den_slice t d m p = Some v" and le: "m \<subseteq>\<^sub>m n"
  shows "den_slice t d n p = Some v"
proof (cases p)
  case (Some a)
  then obtain xs where xs: "load t m a = Some xs" "map (d m) xs = map Some v"
    using d by (auto simp: den_slice_def bind_eq_Some_conv those_Some)
  have len: "length v = length xs" using arg_cong [OF xs(2), of length] by simp
  have "d n (xs ! i) = Some (v ! i)" if "i < length xs" for i
    using deep_copy.den_mono [OF c _ le, of "xs ! i" "v ! i"] arg_cong [OF xs(2), of "\<lambda>ys. ys ! i"] that len by simp
  then have "map (d n) xs = map Some v" using len by (auto intro!: nth_equalityI)
  then show ?thesis using Some load_mono [OF xs(1) le] by (simp add: den_slice_def those_Some)
qed (use d in \<open>simp add: den_slice_def\<close>)

lemma deep_copy_slice [deep_copying]:
  assumes t: "typed t" and c: "deep_copy d into"
  shows "deep_copy (den_slice t d) (slice_copy t z into)"
proof
  show "den_slice t d n p = Some v" if "den_slice t d m p = Some v" "m \<subseteq>\<^sub>m n" for m n p v
    by (rule den_slice_mono [OF c that])
  show "\<exists>q g. slice_copy t z into p h = Some (q, h @ g) \<and> den_slice t d (later (h @ g) (length h)) q = Some v"
    if d: "den_slice t d (cells h) p = Some v" for p v h
  proof (cases p)
    case (Some a)
    then obtain xs where xs: "load t (cells h) a = Some xs" "map (d (cells h)) xs = map Some v"
      using d by (auto simp: den_slice_def bind_eq_Some_conv those_Some)
    have len: "length v = length xs" using arg_cong [OF xs(2), of length] by simp
    have "d (cells h) (xs ! i) = Some (v ! i)" if "i < length xs" for i
      using arg_cong [OF xs(2), of "\<lambda>ys. ys ! i"] that len by simp
    from copy_elements_correct [OF t c xs(1) this, of 0 "replicate (length xs) z" "[]"]
    obtain ys g where ys: "copy_elements t into a (length h) [0..<length xs] (h @ [mk t (replicate (length xs) z)])
          = Some (h @ mk t ys # g)" "length ys = length xs"
        "\<And>j. j < length xs \<Longrightarrow> d (later (h @ mk t ys # g) (Suc (length h))) (ys ! j) = Some (v ! j)"
      by auto
    have "d (later (h @ mk t ys # g) (length h)) (ys ! j) = Some (v ! j)" if "j < length xs" for j
      using deep_copy.den_mono [OF c ys(3) [OF that]] later_le [of "length h" "Suc (length h)" "h @ mk t ys # g" "[]"] by simp
    then have "map (d (later (h @ mk t ys # g) (length h))) ys = map Some v"
      using ys(2) len by (auto intro!: nth_equalityI)
    then show ?thesis
      using Some t xs(1) ys(1)
      by (intro exI [of _ "Some (length h)"] exI [of _ "mk t ys # g"]) (simp add: slice_copy_def den_slice_def those_Some)
  qed (use d in \<open>simp add: slice_copy_def den_slice_def\<close>)
qed

lemma go_copy_full [simp]: "length dst = length src \<Longrightarrow> go_copy dst src = src"
  by (simp add: go_copy_def)

lemma deep_copy_dup [deep_copying]:
  assumes t: "typed t"
  shows "deep_copy (den_slice t den_value) (slice_dup t z)"
proof
  show "den_slice t den_value n p = Some v" if "den_slice t den_value m p = Some v" "m \<subseteq>\<^sub>m n" for m n p v
    by (rule den_slice_mono [OF deep_copy_assign that])
  show "\<exists>q g. slice_dup t z p h = Some (q, h @ g) \<and> den_slice t den_value (later (h @ g) (length h)) q = Some v"
    if d: "den_slice t den_value (cells h) p = Some v" for p v h
  proof (cases p)
    case (Some a)
    then obtain xs where xs: "load t (cells h) a = Some xs" "map (den_value (cells h)) xs = map Some v"
      using d by (auto simp: den_slice_def bind_eq_Some_conv those_Some)
    then show ?thesis
      using Some t
      by (intro exI [of _ "Some (length h)"] exI [of _ "[mk t xs]"])
         (simp add: slice_dup_def den_slice_def those_Some den_value_def cong: map_cong)
  qed (use d in \<open>simp add: slice_dup_def den_slice_def\<close>)
qed

text \<open>Three and more parts are nested pairs.\<close>

lemmas deep_copy_parts = deep_copy_pair deep_copying

end
