(* ===== verification/DeepCopy.thy ===== *)
theory DeepCopy
  imports GoMemory
begin

text \<open>
  \<open>api/v1alpha1/zz_generated.deepcopy.go\<close>, over the memories of \<open>GoMemory\<close>: the copies that the cache of the
  API client makes of a policy before it hands it to the reconciler or the sampler, which then change its status
  in place. A \<open>DeepCopyInto\<close> takes the struct \<open>*in\<close> and gives the struct written to \<open>*out\<close>, a \<open>DeepCopy\<close>
  takes and gives pointers. The copies of \<open>metav1.ObjectMeta\<close> and \<open>metav1.ListMeta\<close> are library code and
  parameters, \<open>om\<close> and \<open>lm\<close>.
\<close>

section \<open>Zero values\<close>

text \<open>What \<open>new\<close> and \<open>make\<close> allocate.\<close>

definition zero_ref :: workload_ref where "zero_ref = \<lparr>wr_Kind = '''', wr_Name = ''''\<rparr>"

definition zero_detection :: detection_struct where
  "zero_detection = \<lparr>m_Mode = '''', m_ThresholdPercent = 0, m_ThresholdAbsolute = None, m_Window = None, m_TrendMinGrowth = None\<rparr>"

definition zero_override :: override_struct where
  "zero_override = \<lparr>m_ContainerName = '''', m_ContainerDetection = zero_detection\<rparr>"

definition zero_window :: window_struct where
  "zero_window = \<lparr>m_Days = None, m_Start = '''', m_End = '''', m_Timezone = ''''\<rparr>"

definition zero_spec :: spec_struct where
  "zero_spec = \<lparr>m_WorkloadRef = zero_ref, m_Detection = zero_detection, m_Cooldown = None, m_StartupGrace = None,
     m_RestartWindow = None, m_MaxRestartsPerWindow = None, m_DryRun = None, m_Containers = None,
     m_ContainerOverrides = None, m_ProfileCapture = None, m_PprofPath = '''', m_MaintenanceWindows = None,
     m_NotifyRoutes = None, m_SlackChannel = ''''\<rparr>"

definition zero_inflight :: "inflight_rollout" where
  "zero_inflight = \<lparr>if_DispatchedAt = zero_time, if_DispatchedVersion = '''', if_Phase = ''''\<rparr>"

definition zero_profile :: "profile_ref" where "zero_profile = \<lparr>pr_URL = '''', pr_CapturedAt = zero_time\<rparr>"

definition zero_notification :: "notification_ref" where
  "zero_notification = \<lparr>nr_Event = '''', nr_NotifiedAt = zero_time\<rparr>"

definition zero_record :: "record_struct" where
  "zero_record = \<lparr>m_TriggeredAt = zero_time, m_CompletedAt = None, m_Container = '''', m_Observed = 0, m_Threshold = 0,
     m_DetectionMode = '''', m_RecordVersion = '''', m_Outcome = ''''\<rparr>"

definition zero_condition :: "condition" where
  "zero_condition = \<lparr>cond_Type = '''', cond_Status = '''', cond_Reason = '''', cond_Message = '''', cond_LastTransitionTime = zero_time\<rparr>"

definition zero_status :: status_struct where
  "zero_status = \<lparr>m_WorkloadUID = '''', m_LastRestartAt = None, m_RestartCount = 0, m_WindowStart = None, m_Version = '''',
     m_InFlight = None, m_BreakerTripped = False, m_StatusDryRun = False, m_NextEligibleRestart = None,
     m_RestartsRemaining = 0, m_LastProfile = None, m_LastNotification = None, m_History = None, m_Conditions = None,
     m_ObservedGeneration = 0\<rparr>"

definition zero_type_meta :: type_meta where "zero_type_meta = \<lparr>tm_Kind = '''', tm_APIVersion = ''''\<rparr>"

definition zero_policy :: policy_struct where
  "zero_policy = \<lparr>m_TypeMeta = zero_type_meta,
     m_ObjectMeta = \<lparr>om_Namespace = '''', om_Name = '''', om_ResourceVersion = '''', om_DeletionTimestamp = None, om_Finalizers = None\<rparr>,
     m_Spec = zero_spec, m_Status = zero_status\<rparr>"

definition zero_policy_list :: policy_list_struct where
  "zero_policy_list = \<lparr>m_ListTypeMeta = zero_type_meta,
     m_ListMeta = \<lparr>lm_ResourceVersion = '''', lm_RemainingItemCount = None\<rparr>, m_Items = None\<rparr>"

definition zero_quantity :: quantity where "zero_quantity = \<lparr>q_Value = 0, q_String = ''0''\<rparr>"

section \<open>The specification\<close>

definition WorkloadRef_DeepCopyInto :: "workload_ref \<Rightarrow> mem \<Rightarrow> (workload_ref \<times> mem) option" where
  "WorkloadRef_DeepCopyInto x h = Some (x, h)"

definition WorkloadRef_DeepCopy :: "addr option \<Rightarrow> mem \<Rightarrow> (addr option \<times> mem) option" where
  "WorkloadRef_DeepCopy = ptr_copy tRef zero_ref WorkloadRef_DeepCopyInto"

definition DetectionSpec_DeepCopyInto :: "detection_struct \<Rightarrow> mem \<Rightarrow> (detection_struct \<times> mem) option" where
  "DetectionSpec_DeepCopyInto x h = do {
     (absolute, h1) \<leftarrow> ptr_copy tQuantity zero_quantity assign (m_ThresholdAbsolute x) h;
     (window, h2) \<leftarrow> ptr_copy tDuration 0 assign (m_Window x) h1;
     (growth, h3) \<leftarrow> ptr_copy tQuantity zero_quantity assign (m_TrendMinGrowth x) h2;
     Some (x\<lparr>m_ThresholdAbsolute := absolute, m_Window := window, m_TrendMinGrowth := growth\<rparr>, h3) }"

definition DetectionSpec_DeepCopy :: "addr option \<Rightarrow> mem \<Rightarrow> (addr option \<times> mem) option" where
  "DetectionSpec_DeepCopy = ptr_copy tDetection zero_detection DetectionSpec_DeepCopyInto"

definition ContainerOverride_DeepCopyInto :: "override_struct \<Rightarrow> mem \<Rightarrow> (override_struct \<times> mem) option" where
  "ContainerOverride_DeepCopyInto x h = do {
     (detection, h1) \<leftarrow> DetectionSpec_DeepCopyInto (m_ContainerDetection x) h;
     Some (x\<lparr>m_ContainerDetection := detection\<rparr>, h1) }"

definition ContainerOverride_DeepCopy :: "addr option \<Rightarrow> mem \<Rightarrow> (addr option \<times> mem) option" where
  "ContainerOverride_DeepCopy = ptr_copy tOverride zero_override ContainerOverride_DeepCopyInto"

definition MaintenanceWindow_DeepCopyInto :: "window_struct \<Rightarrow> mem \<Rightarrow> (window_struct \<times> mem) option" where
  "MaintenanceWindow_DeepCopyInto x h = do {
     (days, h1) \<leftarrow> slice_dup tStrings '''' (m_Days x) h;
     Some (x\<lparr>m_Days := days\<rparr>, h1) }"

definition MaintenanceWindow_DeepCopy :: "addr option \<Rightarrow> mem \<Rightarrow> (addr option \<times> mem) option" where
  "MaintenanceWindow_DeepCopy = ptr_copy tWindow zero_window MaintenanceWindow_DeepCopyInto"

definition MemoryLeakPolicySpec_DeepCopyInto :: "spec_struct \<Rightarrow> mem \<Rightarrow> (spec_struct \<times> mem) option" where
  "MemoryLeakPolicySpec_DeepCopyInto x h = do {
     (detection, h1) \<leftarrow> DetectionSpec_DeepCopyInto (m_Detection x) h;
     (cooldown, h2) \<leftarrow> ptr_copy tDuration 0 assign (m_Cooldown x) h1;
     (grace, h3) \<leftarrow> ptr_copy tDuration 0 assign (m_StartupGrace x) h2;
     (window, h4) \<leftarrow> ptr_copy tDuration 0 assign (m_RestartWindow x) h3;
     (max_restarts, h5) \<leftarrow> ptr_copy tInt 0 assign (m_MaxRestartsPerWindow x) h4;
     (dry_run, h6) \<leftarrow> ptr_copy tBool False assign (m_DryRun x) h5;
     (containers, h7) \<leftarrow> slice_dup tStrings '''' (m_Containers x) h6;
     (overrides, h8) \<leftarrow> slice_copy tOverrides zero_override ContainerOverride_DeepCopyInto (m_ContainerOverrides x) h7;
     (capture, h9) \<leftarrow> ptr_copy tBool False assign (m_ProfileCapture x) h8;
     (windows, h10) \<leftarrow> slice_copy tWindows zero_window MaintenanceWindow_DeepCopyInto (m_MaintenanceWindows x) h9;
     (routes, h11) \<leftarrow> slice_dup tStrings '''' (m_NotifyRoutes x) h10;
     Some (x\<lparr>m_WorkloadRef := m_WorkloadRef x, m_Detection := detection, m_Cooldown := cooldown, m_StartupGrace := grace,
       m_RestartWindow := window, m_MaxRestartsPerWindow := max_restarts, m_DryRun := dry_run, m_Containers := containers,
       m_ContainerOverrides := overrides, m_ProfileCapture := capture, m_MaintenanceWindows := windows,
       m_NotifyRoutes := routes\<rparr>, h11) }"

definition MemoryLeakPolicySpec_DeepCopy :: "addr option \<Rightarrow> mem \<Rightarrow> (addr option \<times> mem) option" where
  "MemoryLeakPolicySpec_DeepCopy = ptr_copy tSpec zero_spec MemoryLeakPolicySpec_DeepCopyInto"

section \<open>The status\<close>

definition InFlightRollout_DeepCopyInto :: "inflight_rollout \<Rightarrow> mem \<Rightarrow> (inflight_rollout \<times> mem) option" where
  "InFlightRollout_DeepCopyInto x h = Some (x\<lparr>if_DispatchedAt := if_DispatchedAt x\<rparr>, h)"

definition InFlightRollout_DeepCopy :: "addr option \<Rightarrow> mem \<Rightarrow> (addr option \<times> mem) option" where
  "InFlightRollout_DeepCopy = ptr_copy tInFlight zero_inflight InFlightRollout_DeepCopyInto"

definition ProfileRef_DeepCopyInto :: "profile_ref \<Rightarrow> mem \<Rightarrow> (profile_ref \<times> mem) option" where
  "ProfileRef_DeepCopyInto x h = Some (x\<lparr>pr_CapturedAt := pr_CapturedAt x\<rparr>, h)"

definition ProfileRef_DeepCopy :: "addr option \<Rightarrow> mem \<Rightarrow> (addr option \<times> mem) option" where
  "ProfileRef_DeepCopy = ptr_copy tProfile zero_profile ProfileRef_DeepCopyInto"

definition NotificationRef_DeepCopyInto :: "notification_ref \<Rightarrow> mem \<Rightarrow> (notification_ref \<times> mem) option" where
  "NotificationRef_DeepCopyInto x h = Some (x\<lparr>nr_NotifiedAt := nr_NotifiedAt x\<rparr>, h)"

definition NotificationRef_DeepCopy :: "addr option \<Rightarrow> mem \<Rightarrow> (addr option \<times> mem) option" where
  "NotificationRef_DeepCopy = ptr_copy tNotification zero_notification NotificationRef_DeepCopyInto"

definition RestartRecord_DeepCopyInto :: "record_struct \<Rightarrow> mem \<Rightarrow> (record_struct \<times> mem) option" where
  "RestartRecord_DeepCopyInto x h = do {
     (completed, h1) \<leftarrow> ptr_copy tTime zero_time assign (m_CompletedAt x) h;
     Some (x\<lparr>m_TriggeredAt := m_TriggeredAt x, m_CompletedAt := completed\<rparr>, h1) }"

definition RestartRecord_DeepCopy :: "addr option \<Rightarrow> mem \<Rightarrow> (addr option \<times> mem) option" where
  "RestartRecord_DeepCopy = ptr_copy tRecord zero_record RestartRecord_DeepCopyInto"

definition MemoryLeakPolicyStatus_DeepCopyInto :: "status_struct \<Rightarrow> mem \<Rightarrow> (status_struct \<times> mem) option" where
  "MemoryLeakPolicyStatus_DeepCopyInto x h = do {
     (last, h1) \<leftarrow> ptr_copy tTime zero_time assign (m_LastRestartAt x) h;
     (start, h2) \<leftarrow> ptr_copy tTime zero_time assign (m_WindowStart x) h1;
     (inflight, h3) \<leftarrow> ptr_copy tInFlight zero_inflight InFlightRollout_DeepCopyInto (m_InFlight x) h2;
     (next_eligible, h4) \<leftarrow> ptr_copy tTime zero_time assign (m_NextEligibleRestart x) h3;
     (profile, h5) \<leftarrow> ptr_copy tProfile zero_profile ProfileRef_DeepCopyInto (m_LastProfile x) h4;
     (notification, h6) \<leftarrow> ptr_copy tNotification zero_notification NotificationRef_DeepCopyInto (m_LastNotification x) h5;
     (history, h7) \<leftarrow> slice_copy tRecords zero_record RestartRecord_DeepCopyInto (m_History x) h6;
     (conditions, h8) \<leftarrow> slice_copy tConditions zero_condition assign (m_Conditions x) h7;
     Some (x\<lparr>m_LastRestartAt := last, m_WindowStart := start, m_InFlight := inflight, m_NextEligibleRestart := next_eligible,
       m_LastProfile := profile, m_LastNotification := notification, m_History := history, m_Conditions := conditions\<rparr>, h8) }"

definition MemoryLeakPolicyStatus_DeepCopy :: "addr option \<Rightarrow> mem \<Rightarrow> (addr option \<times> mem) option" where
  "MemoryLeakPolicyStatus_DeepCopy = ptr_copy tStatus zero_status MemoryLeakPolicyStatus_DeepCopyInto"

section \<open>Policies and lists of policies\<close>

type_synonym meta_copy = "object_meta \<Rightarrow> mem \<Rightarrow> (object_meta \<times> mem) option"

type_synonym list_meta_copy = "list_meta \<Rightarrow> mem \<Rightarrow> (list_meta \<times> mem) option"

definition MemoryLeakPolicy_DeepCopyInto :: "meta_copy \<Rightarrow> policy_struct \<Rightarrow> mem \<Rightarrow> (policy_struct \<times> mem) option" where
  "MemoryLeakPolicy_DeepCopyInto om x h = do {
     (meta, h1) \<leftarrow> om (m_ObjectMeta x) h;
     (spec, h2) \<leftarrow> MemoryLeakPolicySpec_DeepCopyInto (m_Spec x) h1;
     (status, h3) \<leftarrow> MemoryLeakPolicyStatus_DeepCopyInto (m_Status x) h2;
     Some (x\<lparr>m_TypeMeta := m_TypeMeta x, m_ObjectMeta := meta, m_Spec := spec, m_Status := status\<rparr>, h3) }"

definition MemoryLeakPolicy_DeepCopy :: "meta_copy \<Rightarrow> addr option \<Rightarrow> mem \<Rightarrow> (addr option \<times> mem) option" where
  "MemoryLeakPolicy_DeepCopy om = ptr_copy tPolicy zero_policy (MemoryLeakPolicy_DeepCopyInto om)"

text \<open>A \<open>runtime.Object\<close>: the nil interface, or a pointer to one of the two registered types.\<close>

datatype runtime_object = NilObject | PolicyObject addr | PolicyListObject addr

definition MemoryLeakPolicy_DeepCopyObject :: "meta_copy \<Rightarrow> addr option \<Rightarrow> mem \<Rightarrow> (runtime_object \<times> mem) option" where
  "MemoryLeakPolicy_DeepCopyObject om p h = do {
     (c, h1) \<leftarrow> MemoryLeakPolicy_DeepCopy om p h;
     Some (case c of Some a \<Rightarrow> PolicyObject a | None \<Rightarrow> NilObject, h1) }"

definition MemoryLeakPolicyList_DeepCopyInto ::
  "meta_copy \<Rightarrow> list_meta_copy \<Rightarrow> policy_list_struct \<Rightarrow> mem \<Rightarrow> (policy_list_struct \<times> mem) option" where
  "MemoryLeakPolicyList_DeepCopyInto om lm x h = do {
     (meta, h1) \<leftarrow> lm (m_ListMeta x) h;
     (items, h2) \<leftarrow> slice_copy tPolicies zero_policy (MemoryLeakPolicy_DeepCopyInto om) (m_Items x) h1;
     Some (x\<lparr>m_ListTypeMeta := m_ListTypeMeta x, m_ListMeta := meta, m_Items := items\<rparr>, h2) }"

definition MemoryLeakPolicyList_DeepCopy ::
  "meta_copy \<Rightarrow> list_meta_copy \<Rightarrow> addr option \<Rightarrow> mem \<Rightarrow> (addr option \<times> mem) option" where
  "MemoryLeakPolicyList_DeepCopy om lm = ptr_copy tPolicyList zero_policy_list (MemoryLeakPolicyList_DeepCopyInto om lm)"

definition MemoryLeakPolicyList_DeepCopyObject ::
  "meta_copy \<Rightarrow> list_meta_copy \<Rightarrow> addr option \<Rightarrow> mem \<Rightarrow> (runtime_object \<times> mem) option" where
  "MemoryLeakPolicyList_DeepCopyObject om lm p h = do {
     (c, h1) \<leftarrow> MemoryLeakPolicyList_DeepCopy om lm p h;
     Some (case c of Some a \<Rightarrow> PolicyListObject a | None \<Rightarrow> NilObject, h1) }"

text \<open>The object the sampler sends on the event channel: a fresh policy with the identity of \<open>p\<close> alone.\<close>

definition policyRef :: "policy_struct \<Rightarrow> policy_struct" where
  "policyRef p = zero_policy\<lparr>m_ObjectMeta := (m_ObjectMeta zero_policy)
     \<lparr>om_Namespace := om_Namespace (m_ObjectMeta p), om_Name := om_Name (m_ObjectMeta p)\<rparr>\<rparr>"

section \<open>What the structs stand for\<close>

definition den_detection :: "cells \<Rightarrow> detection_struct \<Rightarrow> detection_spec option" where
  "den_detection m x = do {
     absolute \<leftarrow> den_ptr tQuantity den_value m (m_ThresholdAbsolute x);
     window \<leftarrow> den_ptr tDuration den_value m (m_Window x);
     growth \<leftarrow> den_ptr tQuantity den_value m (m_TrendMinGrowth x);
     Some \<lparr>ds_Mode = m_Mode x, ds_ThresholdPercent = m_ThresholdPercent x, ds_ThresholdAbsolute = absolute,
       ds_Window = window, ds_TrendMinGrowth = growth\<rparr> }"

definition den_override :: "cells \<Rightarrow> override_struct \<Rightarrow> container_override option" where
  "den_override m x = do {
     detection \<leftarrow> den_detection m (m_ContainerDetection x);
     Some \<lparr>co_Name = m_ContainerName x, co_Detection = detection\<rparr> }"

definition den_window :: "cells \<Rightarrow> window_struct \<Rightarrow> maintenance_window option" where
  "den_window m x = do {
     days \<leftarrow> den_slice tStrings den_value m (m_Days x);
     Some \<lparr>mw_Days = days, mw_Start = m_Start x, mw_End = m_End x, mw_Timezone = m_Timezone x\<rparr> }"

definition den_spec :: "cells \<Rightarrow> spec_struct \<Rightarrow> policy_spec option" where
  "den_spec m x = do {
     detection \<leftarrow> den_detection m (m_Detection x);
     cooldown \<leftarrow> den_ptr tDuration den_value m (m_Cooldown x);
     grace \<leftarrow> den_ptr tDuration den_value m (m_StartupGrace x);
     window \<leftarrow> den_ptr tDuration den_value m (m_RestartWindow x);
     max_restarts \<leftarrow> den_ptr tInt den_value m (m_MaxRestartsPerWindow x);
     dry_run \<leftarrow> den_ptr tBool den_value m (m_DryRun x);
     containers \<leftarrow> den_slice tStrings den_value m (m_Containers x);
     overrides \<leftarrow> den_slice tOverrides den_override m (m_ContainerOverrides x);
     capture \<leftarrow> den_ptr tBool den_value m (m_ProfileCapture x);
     windows \<leftarrow> den_slice tWindows den_window m (m_MaintenanceWindows x);
     routes \<leftarrow> den_slice tStrings den_value m (m_NotifyRoutes x);
     Some \<lparr>sp_WorkloadRef = m_WorkloadRef x, sp_Detection = detection, sp_Cooldown = cooldown, sp_StartupGrace = grace,
       sp_RestartWindow = window, sp_MaxRestartsPerWindow = max_restarts, sp_DryRun = dry_run, sp_Containers = containers,
       sp_ContainerOverrides = overrides, sp_ProfileCapture = capture, sp_PprofPath = m_PprofPath x,
       sp_MaintenanceWindows = windows, sp_NotifyRoutes = routes, sp_SlackChannel = m_SlackChannel x\<rparr> }"

definition den_record :: "cells \<Rightarrow> record_struct \<Rightarrow> restart_record option" where
  "den_record m x = do {
     completed \<leftarrow> den_ptr tTime den_value m (m_CompletedAt x);
     Some \<lparr>rr_TriggeredAt = m_TriggeredAt x, rr_CompletedAt = completed, rr_Container = m_Container x,
       rr_Observed = m_Observed x, rr_Threshold = m_Threshold x, rr_DetectionMode = m_DetectionMode x,
       rr_Version = m_RecordVersion x, rr_Outcome = m_Outcome x\<rparr> }"

definition den_status :: "cells \<Rightarrow> status_struct \<Rightarrow> policy_status option" where
  "den_status m x = do {
     last \<leftarrow> den_ptr tTime den_value m (m_LastRestartAt x);
     start \<leftarrow> den_ptr tTime den_value m (m_WindowStart x);
     inflight \<leftarrow> den_ptr tInFlight den_value m (m_InFlight x);
     next_eligible \<leftarrow> den_ptr tTime den_value m (m_NextEligibleRestart x);
     profile \<leftarrow> den_ptr tProfile den_value m (m_LastProfile x);
     notification \<leftarrow> den_ptr tNotification den_value m (m_LastNotification x);
     history \<leftarrow> den_slice tRecords den_record m (m_History x);
     conditions \<leftarrow> den_slice tConditions den_value m (m_Conditions x);
     Some \<lparr>st_WorkloadUID = m_WorkloadUID x, st_LastRestartAt = last, st_RestartCount = m_RestartCount x,
       st_WindowStart = start, st_Version = m_Version x, st_InFlight = inflight, st_BreakerTripped = m_BreakerTripped x,
       st_DryRun = m_StatusDryRun x, st_NextEligibleRestart = next_eligible, st_RestartsRemaining = m_RestartsRemaining x,
       st_LastProfile = profile, st_LastNotification = notification, st_History = history, st_Conditions = conditions,
       st_ObservedGeneration = m_ObservedGeneration x\<rparr> }"

text \<open>The metadata: namespace, name, resource version, deletion timestamp and finalizers.\<close>

definition den_meta :: "cells \<Rightarrow> object_meta \<Rightarrow> (string \<times> string \<times> string \<times> time option \<times> string list) option" where
  "den_meta m x = do {
     deleted \<leftarrow> den_ptr tTime den_value m (om_DeletionTimestamp x);
     finalizers \<leftarrow> den_slice tStrings den_value m (om_Finalizers x);
     Some (om_Namespace x, om_Name x, om_ResourceVersion x, deleted, finalizers) }"

definition den_policy :: "cells \<Rightarrow> policy_struct \<Rightarrow> policy option" where
  "den_policy m x = do {
     (ns, name, version, deleted, finalizers) \<leftarrow> den_meta m (m_ObjectMeta x);
     spec \<leftarrow> den_spec m (m_Spec x);
     status \<leftarrow> den_status m (m_Status x);
     Some \<lparr>p_Namespace = ns, p_Name = name, p_ResourceVersion = version, p_DeletionTimestamp = deleted,
       p_Finalizers = finalizers, p_Spec = spec, p_Status = status\<rparr> }"

definition den_list_meta :: "cells \<Rightarrow> list_meta \<Rightarrow> (string \<times> int option) option" where
  "den_list_meta m x = do {
     remaining \<leftarrow> den_ptr tInt den_value m (lm_RemainingItemCount x);
     Some (lm_ResourceVersion x, remaining) }"

definition den_policy_list :: "cells \<Rightarrow> policy_list_struct \<Rightarrow> ((string \<times> int option) \<times> policy list) option" where
  "den_policy_list m x = do {
     meta \<leftarrow> den_list_meta m (m_ListMeta x);
     items \<leftarrow> den_slice tPolicies den_policy m (m_Items x);
     Some (meta, items) }"

text \<open>A reference needs no memory, and names the policy it was made from.\<close>

lemma policyRef_denotes:
  assumes "den_policy m p = Some v"
  shows "\<exists>r. den_policy n (policyRef p) = Some r \<and> p_Namespace r = p_Namespace v \<and> p_Name r = p_Name v
    \<and> p_Status r = empty_status"
  using assms
  by (auto simp: den_policy_def den_meta_def den_spec_def den_status_def den_detection_def den_ptr_def den_slice_def
      policyRef_def zero_policy_def zero_spec_def zero_status_def zero_detection_def empty_status_def bind_eq_Some_conv)

section \<open>Every generated copy keeps the contract\<close>

interpretation workload_ref_copy: deep_copy den_value WorkloadRef_DeepCopyInto
  by unfold_locales (simp_all add: den_value_def WorkloadRef_DeepCopyInto_def)

interpretation inflight_copy: deep_copy den_value InFlightRollout_DeepCopyInto
  by unfold_locales (simp_all add: den_value_def InFlightRollout_DeepCopyInto_def)

interpretation profile_copy: deep_copy den_value ProfileRef_DeepCopyInto
  by unfold_locales (simp_all add: den_value_def ProfileRef_DeepCopyInto_def)

interpretation notification_copy: deep_copy den_value NotificationRef_DeepCopyInto
  by unfold_locales (simp_all add: den_value_def NotificationRef_DeepCopyInto_def)

lemmas value_copies [deep_copying] = workload_ref_copy.deep_copy_axioms inflight_copy.deep_copy_axioms
  profile_copy.deep_copy_axioms notification_copy.deep_copy_axioms

lemmas copies_time = deep_copy_ptr [OF typed_simps(3) deep_copy_assign, where z = zero_time]

lemmas copies_duration = deep_copy_ptr [OF typed_simps(2) deep_copy_assign, where z = 0]

lemmas copies_quantity = deep_copy_ptr [OF typed_simps(1) deep_copy_assign, where z = zero_quantity]

lemmas copies_int = deep_copy_ptr [OF typed_simps(4) deep_copy_assign, where z = 0]

lemmas copies_bool = deep_copy_ptr [OF typed_simps(5) deep_copy_assign, where z = False]

lemmas copies_strings = deep_copy_dup [OF typed_simps(6), where z = "''''"]

interpretation detection_copy: deep_copy den_detection DetectionSpec_DeepCopyInto
  by (rule deep_copy_struct [OF deep_copy_pair [OF copies_quantity deep_copy_pair [OF copies_duration copies_quantity]],
        where proj = "\<lambda>x. (m_ThresholdAbsolute x, m_Window x, m_TrendMinGrowth x)"
          and build = "\<lambda>x (a, w, g). x\<lparr>m_ThresholdAbsolute := a, m_Window := w, m_TrendMinGrowth := g\<rparr>"
          and val = "\<lambda>x (a, w, g). \<lparr>ds_Mode = m_Mode x, ds_ThresholdPercent = m_ThresholdPercent x,
            ds_ThresholdAbsolute = a, ds_Window = w, ds_TrendMinGrowth = g\<rparr>"])
     (auto simp: den_detection_def DetectionSpec_DeepCopyInto_def split_def)

interpretation override_copy: deep_copy den_override ContainerOverride_DeepCopyInto
  by (rule deep_copy_struct [OF detection_copy.deep_copy_axioms,
        where proj = m_ContainerDetection and build = "\<lambda>x d. x\<lparr>m_ContainerDetection := d\<rparr>"
          and val = "\<lambda>x d. \<lparr>co_Name = m_ContainerName x, co_Detection = d\<rparr>"])
     (simp_all add: den_override_def ContainerOverride_DeepCopyInto_def)

interpretation window_copy: deep_copy den_window MaintenanceWindow_DeepCopyInto
  by (rule deep_copy_struct [OF copies_strings,
        where proj = m_Days and build = "\<lambda>x d. x\<lparr>m_Days := d\<rparr>"
          and val = "\<lambda>x d. \<lparr>mw_Days = d, mw_Start = m_Start x, mw_End = m_End x, mw_Timezone = m_Timezone x\<rparr>"])
     (simp_all add: den_window_def MaintenanceWindow_DeepCopyInto_def)

lemmas copies_overrides = deep_copy_slice [OF typed_simps(10) override_copy.deep_copy_axioms, where z = zero_override]

lemmas copies_windows = deep_copy_slice [OF typed_simps(12) window_copy.deep_copy_axioms, where z = zero_window]

interpretation spec_copy: deep_copy den_spec MemoryLeakPolicySpec_DeepCopyInto
  by (rule deep_copy_struct [OF deep_copy_pair [OF detection_copy.deep_copy_axioms deep_copy_pair [OF copies_duration
          deep_copy_pair [OF copies_duration deep_copy_pair [OF copies_duration deep_copy_pair [OF copies_int
          deep_copy_pair [OF copies_bool deep_copy_pair [OF copies_strings deep_copy_pair [OF copies_overrides
          deep_copy_pair [OF copies_bool deep_copy_pair [OF copies_windows copies_strings]]]]]]]]]],
        where proj = "\<lambda>x. (m_Detection x, m_Cooldown x, m_StartupGrace x, m_RestartWindow x, m_MaxRestartsPerWindow x,
            m_DryRun x, m_Containers x, m_ContainerOverrides x, m_ProfileCapture x, m_MaintenanceWindows x, m_NotifyRoutes x)"
          and build = "\<lambda>x (d, c, g, w, k, r, cs, os, p, ws, ns). x\<lparr>m_Detection := d, m_Cooldown := c, m_StartupGrace := g,
            m_RestartWindow := w, m_MaxRestartsPerWindow := k, m_DryRun := r, m_Containers := cs, m_ContainerOverrides := os,
            m_ProfileCapture := p, m_MaintenanceWindows := ws, m_NotifyRoutes := ns\<rparr>"
          and val = "\<lambda>x (d, c, g, w, k, r, cs, os, p, ws, ns). \<lparr>sp_WorkloadRef = m_WorkloadRef x, sp_Detection = d,
            sp_Cooldown = c, sp_StartupGrace = g, sp_RestartWindow = w, sp_MaxRestartsPerWindow = k, sp_DryRun = r,
            sp_Containers = cs, sp_ContainerOverrides = os, sp_ProfileCapture = p, sp_PprofPath = m_PprofPath x,
            sp_MaintenanceWindows = ws, sp_NotifyRoutes = ns, sp_SlackChannel = m_SlackChannel x\<rparr>"])
     (auto simp: den_spec_def MemoryLeakPolicySpec_DeepCopyInto_def split_def)

interpretation record_copy: deep_copy den_record RestartRecord_DeepCopyInto
  by (rule deep_copy_struct [OF copies_time,
        where proj = m_CompletedAt and build = "\<lambda>x c. x\<lparr>m_CompletedAt := c\<rparr>"
          and val = "\<lambda>x c. \<lparr>rr_TriggeredAt = m_TriggeredAt x, rr_CompletedAt = c, rr_Container = m_Container x,
            rr_Observed = m_Observed x, rr_Threshold = m_Threshold x, rr_DetectionMode = m_DetectionMode x,
            rr_Version = m_RecordVersion x, rr_Outcome = m_Outcome x\<rparr>"])
     (simp_all add: den_record_def RestartRecord_DeepCopyInto_def)

lemmas copies_inflight = deep_copy_ptr [OF typed_simps(13) inflight_copy.deep_copy_axioms, where z = zero_inflight]

lemmas copies_profile = deep_copy_ptr [OF typed_simps(14) profile_copy.deep_copy_axioms, where z = zero_profile]

lemmas copies_notification = deep_copy_ptr [OF typed_simps(15) notification_copy.deep_copy_axioms, where z = zero_notification]

lemmas copies_history = deep_copy_slice [OF typed_simps(17) record_copy.deep_copy_axioms, where z = zero_record]

lemmas copies_conditions = deep_copy_slice [OF typed_simps(18) deep_copy_assign, where z = zero_condition]

interpretation status_copy: deep_copy den_status MemoryLeakPolicyStatus_DeepCopyInto
  by (rule deep_copy_struct [OF deep_copy_pair [OF copies_time deep_copy_pair [OF copies_time deep_copy_pair [OF copies_inflight
          deep_copy_pair [OF copies_time deep_copy_pair [OF copies_profile deep_copy_pair [OF copies_notification
          deep_copy_pair [OF copies_history copies_conditions]]]]]]],
        where proj = "\<lambda>x. (m_LastRestartAt x, m_WindowStart x, m_InFlight x, m_NextEligibleRestart x, m_LastProfile x,
            m_LastNotification x, m_History x, m_Conditions x)"
          and build = "\<lambda>x (l, w, f, e, p, n, hs, cs). x\<lparr>m_LastRestartAt := l, m_WindowStart := w, m_InFlight := f,
            m_NextEligibleRestart := e, m_LastProfile := p, m_LastNotification := n, m_History := hs, m_Conditions := cs\<rparr>"
          and val = "\<lambda>x (l, w, f, e, p, n, hs, cs). \<lparr>st_WorkloadUID = m_WorkloadUID x, st_LastRestartAt = l,
            st_RestartCount = m_RestartCount x, st_WindowStart = w, st_Version = m_Version x, st_InFlight = f,
            st_BreakerTripped = m_BreakerTripped x, st_DryRun = m_StatusDryRun x, st_NextEligibleRestart = e,
            st_RestartsRemaining = m_RestartsRemaining x, st_LastProfile = p, st_LastNotification = n, st_History = hs,
            st_Conditions = cs, st_ObservedGeneration = m_ObservedGeneration x\<rparr>"])
     (auto simp: den_status_def MemoryLeakPolicyStatus_DeepCopyInto_def split_def)

text \<open>With a library copy of the metadata that keeps the contract, the copy of a policy does, and that of a list.\<close>

lemma deep_copy_policy:
  assumes "deep_copy den_meta om"
  shows "deep_copy den_policy (MemoryLeakPolicy_DeepCopyInto om)"
  by (rule deep_copy_struct [OF deep_copy_pair [OF assms deep_copy_pair [OF spec_copy.deep_copy_axioms status_copy.deep_copy_axioms]],
        where proj = "\<lambda>x. (m_ObjectMeta x, m_Spec x, m_Status x)"
          and build = "\<lambda>x (o', s, t). x\<lparr>m_ObjectMeta := o', m_Spec := s, m_Status := t\<rparr>"
          and val = "\<lambda>x ((ns, n, v, d, fs), s, t). \<lparr>p_Namespace = ns, p_Name = n, p_ResourceVersion = v,
            p_DeletionTimestamp = d, p_Finalizers = fs, p_Spec = s, p_Status = t\<rparr>"])
     (auto simp: den_policy_def MemoryLeakPolicy_DeepCopyInto_def split_def)

lemma deep_copy_policy_list:
  assumes "deep_copy den_meta om" and "deep_copy den_list_meta lm"
  shows "deep_copy den_policy_list (MemoryLeakPolicyList_DeepCopyInto om lm)"
  by (rule deep_copy_struct [OF deep_copy_pair [OF assms(2)
          deep_copy_slice [OF typed_simps(22) deep_copy_policy [OF assms(1)], where z = zero_policy]],
        where proj = "\<lambda>x. (m_ListMeta x, m_Items x)" and build = "\<lambda>x (o', is). x\<lparr>m_ListMeta := o', m_Items := is\<rparr>"
          and val = "\<lambda>x v. v"])
     (auto simp: den_policy_list_def MemoryLeakPolicyList_DeepCopyInto_def split_def)

lemma isolated_ptr:
  assumes c: "deep_copy den_policy into" and d: "den_ptr tPolicy den_policy (cells h) (Some p) = Some (Some v)"
  shows "\<exists>q h'. ptr_copy tPolicy zero_policy into (Some p) h = Some (Some q, h')
    \<and> den_ptr tPolicy den_policy (cells h') (Some q) = Some (Some v)
    \<and> (\<forall>n. (\<forall>a < length h. n a = cells h' a) \<longrightarrow> den_ptr tPolicy den_policy n (Some p) = Some (Some v))
    \<and> (\<forall>n. (\<forall>a \<ge> length h. n a = cells h' a) \<longrightarrow> den_ptr tPolicy den_policy n (Some q) = Some (Some v))"
proof -
  have C: "deep_copy (den_ptr tPolicy den_policy) (ptr_copy tPolicy zero_policy into)"
    using c by (intro deep_copy_ptr) simp_all
  obtain y h' where y: "ptr_copy tPolicy zero_policy into (Some p) h = Some (y, h')"
    using deep_copy.copies [OF C d] by blast
  moreover have "y \<noteq> None" using y by (auto simp: ptr_copy_def bind_eq_Some_conv split: prod.splits)
  ultimately obtain q where q: "ptr_copy tPolicy zero_policy into (Some p) h = Some (Some q, h')" by auto
  then show ?thesis
    using deep_copy.copy_agrees(2) [OF C d q] deep_copy.original_isolated [OF C d q] deep_copy.copy_isolated [OF C d q]
    by auto
qed

section \<open>Properties\<close>

text \<open>
  C19: the reconciler works on a copy of its own. Given a library copy of the metadata that keeps the contract,
  the copy of a policy in memory never panics, its copy stands for the same policy value, and the two share
  nothing: whatever is later written to the cells of the copy, the cached policy stands for the same value,
  and whatever is written to any other cell, the copy does. So a policy may be passed as a value, as the
  model of the reconciler and of the sampler does.
\<close>

theorem policy_copy_isolated:
  assumes "deep_copy den_meta om" and "den_ptr tPolicy den_policy (cells h) (Some p) = Some (Some v)"
  shows "\<exists>q h'. MemoryLeakPolicy_DeepCopyObject om (Some p) h = Some (PolicyObject q, h')
    \<and> den_ptr tPolicy den_policy (cells h') (Some q) = Some (Some v)
    \<and> (\<forall>n. (\<forall>a < length h. n a = cells h' a) \<longrightarrow> den_ptr tPolicy den_policy n (Some p) = Some (Some v))
    \<and> (\<forall>n. (\<forall>a \<ge> length h. n a = cells h' a) \<longrightarrow> den_ptr tPolicy den_policy n (Some q) = Some (Some v))"
  using isolated_ptr [OF deep_copy_policy [OF assms(1)] assms(2)]
  by (auto simp: MemoryLeakPolicy_DeepCopyObject_def MemoryLeakPolicy_DeepCopy_def)

text \<open>A copy of the metadata, and a policy with a finalizer, a cooldown and one restart in its history.\<close>

definition plain_meta_copy :: meta_copy where
  "plain_meta_copy x h = do {
     (deleted, h1) \<leftarrow> ptr_copy tTime zero_time assign (om_DeletionTimestamp x) h;
     (finalizers, h2) \<leftarrow> slice_dup tStrings '''' (om_Finalizers x) h1;
     Some (x\<lparr>om_DeletionTimestamp := deleted, om_Finalizers := finalizers\<rparr>, h2) }"

lemma plain_meta_copies: "deep_copy den_meta plain_meta_copy"
  by (rule deep_copy_struct [OF deep_copy_pair [OF copies_time copies_strings],
        where proj = "\<lambda>x. (om_DeletionTimestamp x, om_Finalizers x)"
          and build = "\<lambda>x (d, fs). x\<lparr>om_DeletionTimestamp := d, om_Finalizers := fs\<rparr>"
          and val = "\<lambda>x (d, fs). (om_Namespace x, om_Name x, om_ResourceVersion x, d, fs)"])
     (auto simp: den_meta_def plain_meta_copy_def split_def)

definition example_mem :: mem where
  "example_mem =
     [CPolicy (zero_policy\<lparr>m_ObjectMeta := \<lparr>om_Namespace = ''prod'', om_Name = ''web'', om_ResourceVersion = ''7'',
          om_DeletionTimestamp = None, om_Finalizers = Some 1\<rparr>,
        m_Spec := zero_spec\<lparr>m_Cooldown := Some 2\<rparr>, m_Status := zero_status\<lparr>m_History := Some 3\<rparr>\<rparr>),
      CStrings [''memreload.io/finalizer''],
      CDuration 60000000000,
      CRecords [zero_record\<lparr>m_CompletedAt := Some 4, m_Outcome := OutcomeSettled\<rparr>],
      CTime 0]"

definition example_policy :: policy where
  "example_policy = the (the (den_ptr tPolicy den_policy (cells example_mem) (Some 0)))"

lemma example_denotes:
  "den_ptr tPolicy den_policy (cells example_mem) (Some 0) = Some (Some example_policy)"
  "map rr_Outcome (st_History (p_Status example_policy)) = [OutcomeSettled]"
  by (simp_all add: example_mem_def example_policy_def zero_policy_def zero_spec_def zero_status_def zero_record_def
    zero_detection_def zero_ref_def zero_type_meta_def cell_types den_ptr_def den_slice_def load_def cells_def
    den_policy_def den_meta_def den_spec_def den_status_def den_detection_def den_record_def den_value_def)

lemma policy_copy_isolated_witness:
  "map rr_Outcome (st_History (p_Status example_policy)) = [OutcomeSettled]
   \<and> (\<exists>q h'. MemoryLeakPolicy_DeepCopyObject plain_meta_copy (Some 0) example_mem = Some (PolicyObject q, h')
     \<and> den_ptr tPolicy den_policy (cells h' |` {..<length example_mem}) (Some 0) = Some (Some example_policy)
     \<and> den_ptr tPolicy den_policy (later h' (length example_mem)) (Some q) = Some (Some example_policy))"
proof -
  obtain q h' where q: "MemoryLeakPolicy_DeepCopyObject plain_meta_copy (Some 0) example_mem = Some (PolicyObject q, h')"
    and old: "\<And>n. (\<forall>a < length example_mem. n a = cells h' a) \<Longrightarrow> den_ptr tPolicy den_policy n (Some 0) = Some (Some example_policy)"
    and new: "\<And>n. (\<forall>a \<ge> length example_mem. n a = cells h' a) \<Longrightarrow> den_ptr tPolicy den_policy n (Some q) = Some (Some example_policy)"
    using policy_copy_isolated [OF plain_meta_copies example_denotes(1)] by blast
  show ?thesis
    using q old [of "cells h' |` {..<length example_mem}"] new [of "later h' (length example_mem)"] example_denotes(2)
    by (simp add: later_def)
qed

end
