(* ===== verification/Logging.thy ===== *)
theory Logging
  imports GoStrings
begin

text \<open>
  \<open>internal/logging\<close>: the choice of handler and level from the flags, and the renaming of the standard
  attributes for the JSON format. A handler is what distinguishes one from another: its format, its least
  level and what it does to an attribute; writing the lines is \<open>log/slog\<close>.
\<close>

datatype log_level = LevelDebug | LevelInfo | LevelWarn | LevelError

datatype log_format = JSONHandler | TextHandler

record 'v attr =
  attr_Key :: string
  attr_Value :: 'v

record 'v log_handler =
  lh_Format :: log_format
  lh_Level :: log_level
  lh_ReplaceAttr :: "('v attr \<Rightarrow> 'v attr) option"

definition parseLevel :: "string \<Rightarrow> log_level" where
  "parseLevel level =
     (let l = ToLower level
      in if l = ''debug'' then LevelDebug
         else if l = ''warn'' \<or> l = ''warning'' then LevelWarn
         else if l = ''error'' then LevelError
         else LevelInfo)"

definition datadogReplace :: "'v attr \<Rightarrow> 'v attr" where
  "datadogReplace a =
     (if attr_Key a = ''msg'' then a\<lparr>attr_Key := ''message''\<rparr>
      else if attr_Key a = ''level'' then a\<lparr>attr_Key := ''status''\<rparr>
      else if attr_Key a = ''time'' then a\<lparr>attr_Key := ''timestamp''\<rparr>
      else a)"

definition NewLogger :: "string \<Rightarrow> string \<Rightarrow> 'v log_handler" where
  "NewLogger format level =
     (if ToLower format = ''json''
      then \<lparr>lh_Format = JSONHandler, lh_Level = parseLevel level, lh_ReplaceAttr = Some datadogReplace\<rparr>
      else \<lparr>lh_Format = TextHandler, lh_Level = parseLevel level, lh_ReplaceAttr = None\<rparr>)"

text \<open>Renaming keeps the value, and renames every reserved key away for good.\<close>

lemma datadogReplace_value [simp]: "attr_Value (datadogReplace a) = attr_Value a"
  by (simp add: datadogReplace_def)

lemma datadogReplace_idem: "datadogReplace (datadogReplace a) = datadogReplace a"
  by (simp add: datadogReplace_def)

lemma datadogReplace_reserved: "attr_Key (datadogReplace a) \<notin> {''msg'', ''level'', ''time''}"
  by (simp add: datadogReplace_def)

lemma parseLevel_case: "ToLower s = ToLower t \<Longrightarrow> parseLevel s = parseLevel t"
  by (simp add: parseLevel_def)

end
