(* ===== verification/Spec2Isabelle.thy ===== *)
theory Spec2Isabelle
  imports Bookkeeping InflightGauge LeakRestart Pipeline DeepCopy Logging
begin

text \<open>
  Verification library of \<^emph>\<open>memory-leak-reloader\<close>, a Kubernetes controller in Go: for each MemoryLeakPolicy it
  samples the memory of the referenced workload's containers, detects leaks over a window, and restarts the
  workload by a rollout when cooldown, circuit breaker, maintenance window and a global cap allow it.

  \<^bold>\<open>The program and its theories.\<close> Paths are under \<open>src/\<close>.
  \<^item> \<open>Startup\<close> models \<open>cmd/main.go\<close>: \<open>run\<close> goes from flags and environment to a record \<open>controller\<close> of the
    reconciler, the sampler, the expirer, the gate and the sample store. \<open>Wiring\<close> holds what ties it to the
    platform: the clocks (\<open>internal/clock\<close>), the scheme (\<open>groupversion_info.go\<close>) and \<open>setup.go\<close>. A send on the event channel
    between sampler and reconciler is an effect; the channel itself and the work queue behind it are the platform's.
  \<^item> \<open>Reconciler\<close> models \<open>internal/controller/reconciler.go\<close>. \<open>Reconcile\<close> is cut at its early returns into phases
    (\<open>finalize\<close>, \<open>add_finalizer_phase\<close>, \<open>live_phase\<close>, \<open>workload_phase\<close>, \<open>settle_phase\<close>, \<open>detect_phase\<close>,
    \<open>handle_breach\<close>, \<open>act\<close>, \<open>real_restart\<close>), each a definition of its own.
    \<open>ReconcilerSafety\<close>, \<open>ReconcilerSlots\<close> and \<open>RestartRecord\<close> hold what is proved of it.
  \<^item> \<open>Sampler\<close> (\<open>sampler.go\<close>), \<open>Expirer\<close> (\<open>cmd/expirer.go\<close>), \<open>Selection\<close> (\<open>selection.go\<close>, \<open>helpers.go\<close>).
  \<^item> \<open>SampleStore\<close> and \<open>Detector\<close> (\<open>internal/sampling\<close>), \<open>Gate\<close> (\<open>internal/gate\<close>), \<open>Maintenance\<close>
    (\<open>internal/maintenance\<close>), \<open>Config\<close> (\<open>internal/config\<close>), \<open>ApiTypes\<close> (\<open>api/v1alpha1\<close>).
  \<^item> \<open>GoMemory\<close> and \<open>DeepCopy\<close> (\<open>zz_generated.deepcopy.go\<close>): the API types as structs with pointers and slices in a
    memory of cells, what they denote in \<open>ApiTypes\<close>, and the generated copies over that memory.
  \<^item> \<open>Workload\<close>, \<open>Breaker\<close>, \<open>StatusStore\<close> (\<open>internal/restart\<close>): owners and rollouts; breaker, cooldown, history
    and status; persisting and sweeping it.
  \<^item> \<open>NotifyRender\<close>, \<open>Notifier\<close>, \<open>Routes\<close> (\<open>internal/notify\<close>), \<open>Profile\<close> (\<open>internal/profile\<close>), \<open>Datasource\<close>
    (\<open>internal/datasource\<close>), \<open>Logging\<close> (\<open>internal/logging\<close>), \<open>Metrics\<close> (\<open>internal/metrics\<close>).
  \<^item> \<open>Controller\<close> composes them: an inductive step relation in which reconciles, ticks of the sampler and of the
    expirer, changes of the cluster and replacements of the process interleave on one state, and the states it
    reaches. \<open>Pipeline\<close> joins sampler and scan. \<open>MetricsUse\<close> proves that they use the metrics as declared;
    \<open>EndToEnd\<close> evaluates one leak on it, from the first reading to the restart.
  \<^item> \<open>Ledger\<close> and \<open>Durable\<close>: the part of the status the cooldown and the breaker read, the lawful steps of its writes
    and what they imply for the times of the restarts; and the proof that every reconcile and every sweep of a run
    makes lawful steps only. The API server keeps the status as it was written, its times to a grain: Kubernetes
    stores them in whole seconds, which is why the cooldown and the breaker hold less a second. Two contracts
    say what reads see: \<open>tracks\<close>, where a cache may answer outdated objects and the server refuses writes of them,
    and its special case \<open>keeps_status\<close>, where every read sees the last write.
  \<^item> \<open>Bookkeeping\<close>, \<open>InflightGauge\<close> and \<open>LeakRestart\<close>: what the durable status, the in-flight gauge and a whole
    reconcile promise, over the phases composed.
  \<^item> \<open>Prelude\<close>, \<open>GoTime\<close>, \<open>GoStrings\<close>, \<open>GoFloat\<close>, \<open>GoFormat\<close>: errors as sums, the state monad with weakest
    preconditions and invariance rules, int64 wrap-around, time, the string functions the source uses, IEEE
    doubles as correctly rounded rationals, and formatting. \<open>Platform\<close>: what the program runs on.
    \<open>Demo\<close>: one concrete platform, for the witnesses.

  \<^bold>\<open>State and effects.\<close> Effectful code is in the state monad over \<open>sys\<close>: the world behind the API server, the gate
  (\<open>gate.Gate\<close>), the sample store (\<open>sampling.Store\<close>), the two dedup maps of the reconciler, and a trace of
  effects, newest first. The API server, clock, network and disk are the functions of the record \<open>api\<close> over an
  opaque world, and may answer anything; the third-party pure functions are the record \<open>lib\<close>. A Go pair of value
  and error is a sum; a nil dereference and a division by zero are the error values \<open>NilDeref\<close> and
  \<open>DivideByZero\<close>, so that a panic is a result a theorem can exclude. Go maps are finite maps, iterated where the
  order is visible by an explicit list.

  \<^bold>\<open>Interfaces.\<close> \<open>slot_pool\<close> (the gate's contract, interpreted on its operations), \<open>status_writer\<close> (what the
  reconciler and the sweep ask of a persist), \<open>deferral_calendar\<close> (what a deferral asks of the
  windows), \<open>usage_source\<close> (what the sampler asks of a datasource, interpreted on the three of them),
  \<open>controller_invariant\<close> (kept by every operation, hence in every reachable state; interpreted for the slots, the
  patches, the buffers, the metrics and a fleet in dry-run), \<open>deep_copy\<close> (a copy denotes the same value in cells
  of its own; interpreted for the copies of specification and status, and a lemma for those of policies, over the
  contract of the library's copy of the metadata), and \<open>status_invariant\<close> (kept by each operation on the status and
  by storing it, hence in every run; interpreted for the shape of the history and for what the cooldown and the
  breaker read).

  \<^bold>\<open>What the lemma groups show.\<close> Safety of a restart: recorded, with its time and its
  workload, before it is dispatched, at most one per reconcile, never in dry-run, never through a closed gate,
  never without a leak; never at all while no policy opts out of dry-run. The cooldown and the bound of the
  breaker hold for the restarts of a policy in every run of the whole controller, with reads that lag and sweeps
  that overlap, unless the retry of a conflict forces a write through. Progress: a leak with open gates is
  restarted by the next reconcile, deferrals wake at the first opening, stuck rollouts are freed, the default
  window gets covered, a sample that covers its window wakes the reconciler. Slots: a reconcile touches its own
  slot only and never leaks it; the cap holds in every reachable state; a scrape of the in-flight gauge reads
  the slots held. Bookkeeping: the status invariant in every run, the published fields agree with the decisions,
  a sweep is a last writer. Detection: exact characterisation of the verdicts, also from the sampler's ticks on,
  the least squares slope correctly rounded. Memory: a policy handed to the reconciler shares nothing with the
  cached one, so that values model it. Data: reference behaviour of the sample store, round trip of windows,
  injective workload keys, delivery of notifications, namespaces of readings, the route registry, the flags that
  are refused.

  \<^bold>\<open>Bounds.\<close> All functions of the model are total; loops over lists are structural, the others have a measure
  (\<open>humanizeBytes\<close>, the string scanners). Durations and times are integers in nanoseconds; where the source can
  wrap, \<open>i64\<close> is written out, and a theorem that needs no overflow says so. The endless loops of the sampler
  and the expirer take the number, or the times, of their ticks as input.

  \<^bold>\<open>Not modelled.\<close> The manager, the builder, the work queue and the scheme of controller-runtime: what the code
  hands to them is a value, their outcome a parameter of \<open>run\<close>, their schedules all those of \<open>Controller\<close>. The parsing of
  the command line and of the cluster configuration; the handler \<open>Logging\<close> builds is not threaded through, and log
  lines are markers of those that tell of an error; contexts and timeouts; the library copies of
  \<open>metav1.ObjectMeta\<close> and \<open>metav1.ListMeta\<close>, parameters with the contract of a deep copy. \<open>test/e2e\<close> drives a test
  cluster and holds no logic of the program. A reconcile and the two ticks are atomic steps of \<open>Controller\<close>: the mutexes
  of gate and store make their operations atomic in the source, and the model does not split a step between
  them. The exception is the sweep, which takes longest: in the runs of \<open>Durable\<close> each of its closings is also a
  step by itself, of an object listed at any time before. A reconcile that a closing overtakes finds its next status
  write refused, an answer the model allows at any time. A write that fails is taken not to have been made.
  \<open>sweep_restores_listing\<close> says what is lost when the retry of \<open>Persist\<close> forces an outdated status through.
\<close>

section \<open>Properties of the running controller\<close>

text \<open>
  C1: no restart without its record. In the trace of any run of the controller on an API server that answers with the
  policies asked for, with any schedule, any other answers of the cluster and any number of replacements of the
  process, the effect just before each patch of a workload is the successful write of a policy status that records
  this very dispatch: the patch stamps the object of a workload the server answered for the reference of that
  policy, and the time of the stamp starts the cooldown in the status, dates its in-flight marker and opens the
  newest entry of its history, for the version of that workload.
\<close>

theorem every_patch_recorded:
  assumes "run_state (run H F) s0 = (Inr C, s1)" and "reachable C w t" and "answers_named (ho_API H)"
  shows "patches_recorded (ho_API H) (ho_Lib H) (sy_Trace t)"
proof -
  have "rc_API (co_Reconciler C) = ho_API H" "rc_Lib (co_Reconciler C) = ho_Lib H"
    using run_of_host [OF assms(1)] by (simp_all add: of_host_def)
  then show ?thesis
    using patches.inv_reachable [OF run_contracted [OF assms(1)] assms(2)] assms(3) by (simp add: patched_def)
qed

lemma every_patch_recorded_witness:
  "length (filter is_patch (sy_Trace leak_4)) = 1 \<and> patches_recorded leak_api demo_lib (sy_Trace leak_4)"
  using leak_restarted every_patch_recorded [OF leak_started leak_reachable] leak_answers_named
  by (simp add: leak_host_def demo_host_def)


text \<open>
  C2: the running controller refines its gate. In every state the controller can reach, through any
  schedule of reconciles, sampler and expirer ticks, changes of the cluster and replacements of the process,
  the slots are what some sequence of acquires, releases and expiries makes of the new gate of the start;
  with a positive \<open>--global-max-concurrent\<close> never more rollouts hold a slot than it allows.
\<close>

theorem controller_refines_gate:
  assumes "run_state (run H F) s0 = (Inr C, s1)" and "reachable C w t"
  shows "\<exists>ops. sy_Gate t = gate_run (NewGate (fl_GlobalMax F)) ops
    \<and> (fl_GlobalMax F > 0 \<longrightarrow> int (Inflight (sy_Gate t)) \<le> fl_GlobalMax F)"
proof -
  note C = run_well_started [OF assms(1)]
  then obtain ops where ops: "sy_Gate t = gate_run (NewGate (fl_GlobalMax F)) ops"
    using slots.inv_reachable [OF well_started_contracted [OF C] assms(2)] by (auto simp: gated_def well_started_def)
  have "gp.within (NewGate (fl_GlobalMax F))" by (simp add: gp.within_def)
  then have "gp.within (sy_Gate t) \<and> g_cap (sy_Gate t) = fl_GlobalMax F"
    unfolding ops using gate_run_within by fastforce
  with ops show ?thesis by (auto simp: gp.within_def)
qed

lemma controller_refines_gate_witness:
  "reachable leak_controller (leak_cluster noon) leak_4 \<and> int (Inflight (sy_Gate leak_4)) \<le> 1"
  using controller_refines_gate [OF leak_started leak_reachable] leak_reachable by (simp add: default_flags_def)


text \<open>
  C30: the memory of the sampler is bounded. Whatever the schedule, the policies and the clock, no container
  ever has more samples than the buffer length computed from the flags at the start.
\<close>

theorem sample_buffers_bounded:
  assumes "run_state (run H F) s0 = (Inr C, s1)" and "reachable C w t" and "buffer_size F = Inr (retention, maxLen)"
  shows "int (length (Samples (sy_Samples t) k)) \<le> (if maxLen < 2 then 2 else maxLen)"
proof -
  have "sto_maxLen (co_Store C) = (if maxLen < 2 then 2 else maxLen)"
    using run_well_started [OF assms(1)] assms(3) by (simp add: well_started_def NewStore_def)
  then show ?thesis
    using buffers.inv_reachable [OF run_contracted [OF assms(1)] assms(2)] by (simp add: buffered_def)
qed

lemma sample_buffers_bounded_witness:
  "reachable leak_controller (leak_cluster noon) leak_4
   \<and> int (length (Samples (sy_Samples leak_4) \<lparr>k_Namespace = ''prod'', k_Pod = ''web-1'', k_Container = ''app''\<rparr>)) \<le> 28"
  using sample_buffers_bounded [OF leak_started leak_reachable demo_buffer] leak_reachable by simp

text \<open>
  C39: no metric call panics. In every reachable state each counter and gauge the controller has touched
  names a registered collector of that kind and gives it as many label values as it has labels, so that
  \<open>WithLabelValues\<close> never panics; the collectors have different names.
\<close>

theorem metric_calls_fit:
  assumes "run_state (run H F) s0 = (Inr C, s1)" and "reachable C w t"
  shows "list_all metric_fits (sy_Trace t) \<and> distinct (map mc_Name collectors)"
  using metrics.inv_reachable [OF run_contracted [OF assms(1)] assms(2)] collectors_distinct by simp

lemma metric_calls_fit_witness:
  "length (filter is_patch (sy_Trace leak_4)) = 1 \<and> list_all metric_fits (sy_Trace leak_4)"
  using leak_restarted metric_calls_fit [OF leak_started leak_reachable] by simp

text \<open>
  C9: dry-run is fail-safe for the whole controller. As long as no policy the API server answers with says
  \<open>dryRun: false\<close>, no run of the controller, under any schedule, any state of the cluster and any
  number of replacements of the process, ever patches a workload: leaving the field out is not consent.
\<close>

theorem unarmed_fleet_never_restarts:
  assumes "run_state (run H F) s0 = (Inr C, s1)" and "reachable C w t" and "unarmed (co_Reconciler C)"
  shows "list_all (\<lambda>e. \<forall>old new ok. e \<noteq> EPatch old new ok) (sy_Trace t)"
proof -
  have "list_all no_patch (sy_Trace t)"
    using dry.inv_reachable [OF run_contracted [OF assms(1)] assms(2)] assms(3) by blast
  then show ?thesis by (auto simp: list_all_iff no_patch_def split: effect.splits)
qed

lemma unarmed_fleet_never_restarts_witness:
  "list_all (\<lambda>e. \<forall>old new ok. e \<noteq> EPatch old new ok) (sy_Trace quiet_end)"
  using unarmed_fleet_never_restarts [OF _ quiet_reachable quiet_unarmed] leak_started_on [of quiet_api]
  by (cases "run_state (run (leak_host\<lparr>ho_API := quiet_api\<rparr>) default_flags) (demo_sys (leak_cluster 0) (NewGate 0) (NewStore 0 0))") auto

text \<open>
  C3: the cooldown holds in every run. The setting is an API server that keeps the status of a policy as the controller
  writes it, with its times to a grain (whole seconds on Kubernetes), and refuses a write sent for an outdated
  object; nobody else writes that status, the metrics API included, and a write that failed was not made. Take any run, through any schedule of
  reconciles, samples, errors and changes of leader, with a cache that may lag behind in every read and sweeps whose
  closings overlap with all of it. The one exception is that of C25: if reads lag, no status write of the policy was
  forced through by the retry after a conflict. In any stretch of such a run in which the recorded workload UID
  stays the same, the restarts of the workload that the policy dispatched lie the cooldown apart, less than a grain short
  of it, and the whole cooldown after the last restart the status had recorded for that workload before. The
  cooldown may change as long as it is never shorter than the one claimed, and the clock may run as it likes.
\<close>

theorem cooldown_holds_in_every_run:
  assumes "run_state (run H F) s0 = (Inr C, s1)"
    and "tracks gr (ho_API H) ns n view" and "metrics_leave H view" and "0 < gr" and "coarse gr (fst (view w))"
    and "interleaved ns n view C w t" and "lagging view \<longrightarrow> \<not> retried ns n (attempts (sy_Trace t))"
    and "sy_Trace t = newer @ older" and "one_UID ns n u newer"
    and "\<And>cfg. cfg \<in> settings (co_Reconciler C) ns n \<Longrightarrow> cd \<le> pc_Cooldown cfg" and "0 < cd" "cd \<le> maxDuration"
  shows "sorted_wrt (\<lambda>x y. x + cd < y + gr) (patch_times ns n (deeds newer))
    \<and> (\<forall>x. st_WorkloadUID (held gr ns n (fst (view w)) (deeds older)) = u \<longrightarrow>
         st_LastRestartAt (held gr ns n (fst (view w)) (deeds older)) = Some x \<longrightarrow>
         (\<forall>y \<in> set (patch_times ns n (deeds newer)). x + cd \<le> y))"
proof -
  let ?st = "held gr ns n (fst (view w)) (deeds older)"
  have l: "lawful gr (rc_Lib (co_Reconciler C)) (settings (co_Reconciler C) ns n) ns n (fst (view w)) (deeds newer @ deeds older)"
    by (rule interleaved_lawful [OF run_of_host [OF assms(1)] assms(2,3,5-8)])
  have u: "one_UID ns n u (deeds newer)" using assms(9) by (auto simp: one_UID_def deeds_def)
  have "subseq (patch_times ns n (deeds newer)) (restart_times gr ns n ?st (deeds newer))"
    by (rule patch_times_restarts [OF l assms(10-12)])
  from list_emb_set [OF this] have sub: "set (patch_times ns n (deeds newer)) \<subseteq> set (restart_times gr ns n ?st (deeds newer))"
    by blast
  show ?thesis
    using patch_times_spaced [OF l u assms(10-12,4,5)] restart_times_start [OF l u _ _ assms(10-12,4,5)] sub by blast
qed

text \<open>In the run of the demonstration the one restart comes a day after the one the status recorded before.\<close>

lemma leak_coarse: "coarse Second (p_Status leak_policy)"
  by (simp add: coarse_def ledger_eq_iff leak_policy_def demo_policy_def empty_status_def to_grain_def noon_def duration_units)

lemma leak_setting:
  "tracks Second (ho_API leak_host) ''prod'' ''web-policy'' (leak_view ''prod'' ''web-policy'')"
  "0 < Second" "coarse Second (fst (leak_view ''prod'' ''web-policy'' (leak_cluster noon)))"
proof -
  show "tracks Second (ho_API leak_host) ''prod'' ''web-policy'' (leak_view ''prod'' ''web-policy'')"
    using leak_tracks by (simp add: leak_host_def)
  show "0 < Second" by (simp add: duration_units)
  show "coarse Second (fst (leak_view ''prod'' ''web-policy'' (leak_cluster noon)))" using leak_coarse by (simp add: leak_stored)
qed

lemmas leak_run = leak_interleaved impI [OF leak_not_retried]

lemma cooldown_holds_in_every_run_witness:
  "patch_times ''prod'' ''web-policy'' (deeds (sy_Trace leak_4)) = [noon + 10 * Minute]
   \<and> noon - 1440 * Minute + pc_Cooldown leak_config \<le> noon + 10 * Minute"
proof -
  have cd: "pc_Cooldown leak_config \<le> pc_Cooldown cfg"
    if "cfg \<in> settings (co_Reconciler leak_controller) ''prod'' ''web-policy''" for cfg
    using leak_settings [OF that] by simp
  have bounds: "0 < pc_Cooldown leak_config" "pc_Cooldown leak_config \<le> maxDuration" by code_simp+
  from cooldown_holds_in_every_run [OF leak_started leak_setting(1) leak_metrics_leave leak_setting(2,3) leak_run _
      leak_writes(1) cd bounds, of "[]"]
  show ?thesis using leak_patch_times by (simp add: leak_stored deeds_def leak_policy_def demo_policy_def)
qed

text \<open>
  C4: the circuit breaker holds in every run. In the setting of C3, with its exception, take a stretch in which
  the recorded workload UID and the template of the workload stay the same, and which starts without a restart
  window; let the restart window be the same in every configuration of the policy and no shorter than the grain, the
  cooldown never shorter than the grain, and the allowed maximum positive and never above the one claimed. Then
  no interval as long as the restart window, less the grain of the server, holds more than twice that maximum
  minus one restarts dispatched for the policy.
\<close>

theorem breaker_holds_in_every_run:
  assumes "run_state (run H F) s0 = (Inr C, s1)"
    and "tracks gr (ho_API H) ns n view" and "metrics_leave H view" and "0 < gr" and "coarse gr (fst (view w))"
    and "interleaved ns n view C w t" and "lagging view \<longrightarrow> \<not> retried ns n (attempts (sy_Trace t))"
    and "sy_Trace t = newer @ older"
    and "one_UID ns n u newer" and "one_version ns n (TemplateVersion (ho_Lib H) wl) newer"
    and "held gr ns n (fst (view w)) (deeds older) = start" "st_WorkloadUID start = u" "st_WindowStart start = None"
      "0 \<le> st_RestartCount start"
    and "\<And>cfg. cfg \<in> settings (co_Reconciler C) ns n \<Longrightarrow> gr \<le> pc_Cooldown cfg \<and> pc_RestartWindow cfg = win
        \<and> 0 < pc_MaxRestartsPerWindow cfg \<and> pc_MaxRestartsPerWindow cfg \<le> mx"
    and "gr \<le> win" "win \<le> maxDuration" "0 < mx" "mx < 2 ^ 63"
  shows "int (length (filter (\<lambda>x. a \<le> x \<and> x + gr \<le> a + win) (patch_times ns n (deeds newer)))) \<le> 2 * mx - 1"
proof -
  note C = run_of_host [OF assms(1)]
  have L: "rc_Lib (co_Reconciler C) = ho_Lib H" using C by (simp add: of_host_def)
  have l: "lawful gr (ho_Lib H) (settings (co_Reconciler C) ns n) ns n (fst (view w)) (deeds newer @ deeds older)"
    using interleaved_lawful [OF C assms(2,3,5-8)] unfolding L .
  have uv: "one_UID ns n u (deeds newer)" "one_version ns n (TemplateVersion (ho_Lib H) wl) (deeds newer)"
    using assms(9,10) by (auto simp: one_UID_def one_version_def deeds_def)
  have bounds: "0 < win" "gr \<le> maxDuration" "gr \<le> gr" using assms(4,16,17) by linarith+
  show ?thesis
    by (rule patch_times_bounded [OF l uv _ _ _ assms(15,4) bounds(2,1) assms(17-19,4,5) bounds(3) assms(16)])
       (use assms(11-14) in simp_all)
qed

lemma breaker_holds_in_every_run_witness:
  "patch_times ''prod'' ''web-policy'' (deeds (sy_Trace leak_4)) = [noon + 10 * Minute]
   \<and> int (length (filter (\<lambda>x. noon \<le> x \<and> x + Second \<le> noon + pc_RestartWindow leak_config) [noon + 10 * Minute]))
       \<le> 2 * pc_MaxRestartsPerWindow leak_config - 1"
proof -
  have b: "Second \<le> pc_Cooldown leak_config" "Second \<le> pc_RestartWindow leak_config" "pc_RestartWindow leak_config \<le> maxDuration"
    "0 < pc_MaxRestartsPerWindow leak_config" "pc_MaxRestartsPerWindow leak_config < 2 ^ 63"
    by code_simp+
  have cfg: "Second \<le> pc_Cooldown cfg \<and> pc_RestartWindow cfg = pc_RestartWindow leak_config \<and> 0 < pc_MaxRestartsPerWindow cfg
      \<and> pc_MaxRestartsPerWindow cfg \<le> pc_MaxRestartsPerWindow leak_config"
    if "cfg \<in> settings (co_Reconciler leak_controller) ''prod'' ''web-policy''" for cfg
    using leak_settings [OF that] b by simp
  have lib: "ho_Lib leak_host = demo_lib" by (simp add: leak_host_def demo_host_def)
  from breaker_holds_in_every_run [OF leak_started leak_setting(1) leak_metrics_leave leak_setting(2,3) leak_run _ leak_writes(1)
      leak_writes(2) [folded lib] refl _ _ _ cfg b(2-5), of "[]" noon]
  show ?thesis using leak_patch_times by (simp add: leak_stored deeds_def leak_policy_def demo_policy_def empty_status_def)
qed

end
